(* ===== verification/Prelude.thy ===== *)
theory Prelude
  imports Main "HOL-Library.Word" "HOL-Library.List_Lexorder" "HOL-Library.Sublist"
begin

text \<open>
  Shared vocabulary of the development: the names of the machine types, the
  pieces of the Rust standard library that several components use (byte
  order conversion of \<open>u32\<close>, \<open>slice::binary_search\<close>, \<open>Iterator::position\<close> and
  \<open>find_map\<close>, \<open>Vec::insert\<close> and \<open>Vec::remove\<close>), and the generic lemmas about
  them. Collections of simplification rules:
  \<^item> \<open>rust_defs\<close>: definitions that component proofs unfold freely;
  \<^item> \<open>world_simps\<close>: how system calls act on the file system (filled by the
    theory \<open>File_World\<close>).
\<close>

named_theorems rust_defs
named_theorems world_simps

section \<open>Types\<close>

type_synonym byte = "8 word"
type_synonym bytes = "8 word list"
type_synonym u16 = "16 word"
type_synonym u32 = "32 word"
type_synonym u64 = "64 word"

text \<open>
  A Rust \<open>char\<close> is a Unicode scalar value, here its code point; a \<open>String\<close> is
  the list of its characters (its byte length is defined in the theory
  \<open>Text\<close>).
\<close>

type_synonym uchar = nat
type_synonym ustr = "nat list"

definition lit :: "string \<Rightarrow> ustr" where
  "lit s = map of_char s"

lemma length_lit [simp]: "length (lit s) = length s"
  by (simp add: lit_def)

text \<open>\<open>Result\<close> is the sum type with the error on the left; \<open>?\<close> is a case split.\<close>

type_synonym ('e, 'a) result = "'e + 'a"

fun is_ok :: "'e + 'a \<Rightarrow> bool" where
  "is_ok (Inl e) = False"
| "is_ok (Inr a) = True"

fun map_err :: "('e \<Rightarrow> 'f) \<Rightarrow> 'e + 'a \<Rightarrow> 'f + 'a" where
  "map_err f (Inl e) = Inl (f e)"
| "map_err f (Inr a) = Inr a"

lemma map_err_Inr_iff [simp]: "map_err f r = Inr a \<longleftrightarrow> r = Inr a"
  by (cases r) auto

lemma map_err_Inl_iff [simp]: "map_err f r = Inl e \<longleftrightarrow> (\<exists>d. r = Inl d \<and> f d = e)"
  by (cases r) auto

section \<open>Options and lists\<close>

definition or_else :: "'a option \<Rightarrow> 'a option \<Rightarrow> 'a option" where
  "or_else x y = (case x of None \<Rightarrow> y | Some a \<Rightarrow> Some a)"

lemma or_else_simps [simp]: "or_else None y = y" "or_else (Some a) y = Some a"
  by (simp_all add: or_else_def)

lemma or_else_None_iff [simp]: "or_else x y = None \<longleftrightarrow> x = None \<and> y = None"
  by (cases x) auto

fun find_map :: "('a \<Rightarrow> 'b option) \<Rightarrow> 'a list \<Rightarrow> 'b option" where
  "find_map f [] = None"
| "find_map f (x # xs) = or_else (f x) (find_map f xs)"

lemma find_map_None_iff [simp]: "find_map f xs = None \<longleftrightarrow> (\<forall>x\<in>set xs. f x = None)"
  by (induction xs) auto

lemma find_map_SomeD: "find_map f xs = Some y \<Longrightarrow> \<exists>x\<in>set xs. f x = Some y"
  by (induction xs) (auto simp: or_else_def split: option.splits)

text \<open>\<open>Iterator::position\<close>: the index of the first element that satisfies the predicate.\<close>

fun position :: "('a \<Rightarrow> bool) \<Rightarrow> 'a list \<Rightarrow> nat option" where
  "position P [] = None"
| "position P (x # xs) = (if P x then Some 0 else map_option Suc (position P xs))"

lemma position_None_iff: "position P xs = None \<longleftrightarrow> (\<forall>x\<in>set xs. \<not> P x)"
  by (induction xs) auto

lemma position_SomeD:
  "position P xs = Some i \<Longrightarrow> i < length xs \<and> P (xs ! i) \<and> (\<forall>j<i. \<not> P (xs ! j))"
proof (induction xs arbitrary: i)
  case Nil
  then show ?case by simp
next
  case (Cons x xs)
  show ?case
  proof (cases "P x")
    case True
    with Cons.prems show ?thesis by simp
  next
    case False
    with Cons.prems obtain k where k: "position P xs = Some k" and "i = Suc k" by auto
    with False Cons.IH [OF k] show ?thesis by (auto simp: nth_Cons split: nat.splits)
  qed
qed

lemma position_less: "position P xs = Some i \<Longrightarrow> i < length xs"
  by (simp add: position_SomeD)

lemma position_holds: "position P xs = Some i \<Longrightarrow> P (xs ! i)"
  by (simp add: position_SomeD)

text \<open>\<open>Vec::insert\<close> and \<open>Vec::remove\<close>, for an index in range.\<close>

definition vec_insert :: "nat \<Rightarrow> 'a \<Rightarrow> 'a list \<Rightarrow> 'a list" where
  "vec_insert i x xs = take i xs @ x # drop i xs"

definition vec_remove :: "nat \<Rightarrow> 'a list \<Rightarrow> 'a list" where
  "vec_remove i xs = take i xs @ drop (Suc i) xs"

lemma vec_insert_remove [simp]:
  "i < length xs \<Longrightarrow> vec_insert i (xs ! i) (vec_remove i xs) = xs"
  by (simp add: vec_insert_def vec_remove_def min_def id_take_nth_drop [symmetric])

lemma length_vec_remove [simp]: "i < length xs \<Longrightarrow> length (vec_remove i xs) = length xs - 1"
  by (simp add: vec_remove_def)

lemma set_vec_remove: "set (vec_remove i xs) \<subseteq> set xs"
  by (auto simp: vec_remove_def dest: in_set_takeD in_set_dropD)

section \<open>Byte order\<close>

text \<open>\<open>u32::to_le_bytes\<close>, \<open>from_le_bytes\<close> and their big-endian counterparts.\<close>

definition to_le_bytes :: "u32 \<Rightarrow> bytes" where
  "to_le_bytes x = map (\<lambda>i. word_of_nat (unat x div 256 ^ i)) [0, 1, 2, 3]"

fun le_value :: "bytes \<Rightarrow> nat" where
  "le_value [] = 0"
| "le_value (b # bs) = unat b + 256 * le_value bs"

definition from_le_bytes :: "bytes \<Rightarrow> u32" where
  "from_le_bytes bs = word_of_nat (le_value bs)"

definition to_be_bytes :: "u32 \<Rightarrow> bytes" where
  "to_be_bytes x = rev (to_le_bytes x)"

definition from_be_bytes :: "bytes \<Rightarrow> u32" where
  "from_be_bytes bs = from_le_bytes (rev bs)"

lemma length_to_le_bytes [simp]: "length (to_le_bytes x) = 4"
  by (simp add: to_le_bytes_def)

lemma length_to_be_bytes [simp]: "length (to_be_bytes x) = 4"
  by (simp add: to_be_bytes_def)

lemma le_value_bound: "le_value bs < 256 ^ length bs"
proof (induction bs)
  case (Cons b bs)
  have "unat b < 256" using unsigned_less [of b, where ?'a = nat] by simp
  with Cons.IH show ?case by simp
qed simp

lemma le_value_to_le_bytes: "le_value (to_le_bytes x) = unat x"
proof -
  define n where "n = unat x"
  have "n < 256 ^ 4" unfolding n_def using unsigned_less [of x, where ?'a = nat] by simp
  then have top: "n div 256 div 256 div 256 < 256"
    by (simp add: less_mult_imp_div_less)
  have split: "k mod 256 + 256 * (k div 256) = k" for k :: nat
    by (rule mod_mult_div_eq)
  have q: "n div 65536 = n div 256 div 256" "n div 16777216 = n div 256 div 256 div 256"
    by (simp_all flip: div_mult2_eq)
  have "le_value (to_le_bytes x) =
      n mod 256 + 256 * (n div 256 mod 256 + 256 * (n div 256 div 256 mod 256
        + 256 * (n div 256 div 256 div 256 mod 256)))"
    unfolding to_le_bytes_def n_def [symmetric]
    by (simp add: unat_of_nat q power2_eq_square power3_eq_cube)
  also have "\<dots> = n" using top by (simp add: split)
  finally show ?thesis by (simp add: n_def)
qed

lemma from_le_to_le [simp]: "from_le_bytes (to_le_bytes x) = x"
  by (simp add: from_le_bytes_def le_value_to_le_bytes)

lemma from_be_to_be [simp]: "from_be_bytes (to_be_bytes x) = x"
  by (simp add: from_be_bytes_def to_be_bytes_def)

text \<open>The \<open>n\<close> little-endian bytes of a number, for the other widths.\<close>

definition le_bytes :: "nat \<Rightarrow> nat \<Rightarrow> bytes" where
  "le_bytes n k = map (\<lambda>i. word_of_nat (k div 256 ^ i)) [0..<n]"

lemma length_le_bytes [simp]: "length (le_bytes n k) = n"
  by (simp add: le_bytes_def)

lemma le_bytes_Suc: "le_bytes (Suc n) k = word_of_nat k # le_bytes n (k div 256)"
proof -
  have "[0..<Suc n] = 0 # map Suc [0..<n]" by (simp add: map_Suc_upt upt_conv_Cons del: upt_Suc)
  then show ?thesis by (simp add: le_bytes_def o_def div_mult2_eq del: upt_Suc)
qed

lemma le_value_le_bytes: "k < 256 ^ n \<Longrightarrow> le_value (le_bytes n k) = k"
proof (induction n arbitrary: k)
  case 0
  then show ?case by (simp add: le_bytes_def)
next
  case (Suc n)
  then have "k div 256 < 256 ^ n" by (simp add: less_mult_imp_div_less mult.commute)
  with Suc.IH show ?case by (simp add: le_bytes_Suc unat_of_nat)
qed

section \<open>Binary search\<close>

text \<open>
  \<open>slice::binary_search\<close> of the standard library: halve the window until one
  candidate is left, then compare it.
\<close>

function bs_loop :: "'a::linorder list \<Rightarrow> 'a \<Rightarrow> nat \<Rightarrow> nat \<Rightarrow> nat" where
  "bs_loop xs x base sz =
     (if sz \<le> 1 then base
      else let half = sz div 2; mid = base + half
           in bs_loop xs x (if x < xs ! mid then base else mid) (sz - half))"
  by pat_completeness auto
termination
  by (relation "measure (\<lambda>(xs, x, base, sz). sz)") auto

declare bs_loop.simps [simp del]

definition binary_search :: "'a::linorder list \<Rightarrow> 'a \<Rightarrow> nat option" where
  "binary_search xs x =
     (if xs = [] then None
      else let base = bs_loop xs x 0 (length xs) in if xs ! base = x then Some base else None)"

lemma bs_loop_bounds:
  "0 < sz \<Longrightarrow> base + sz \<le> n \<Longrightarrow> bs_loop xs x base sz < n"
proof (induction xs x base sz rule: bs_loop.induct)
  case (1 xs x base sz)
  show ?case
  proof (cases "sz \<le> 1")
    case True
    with "1.prems" show ?thesis by (subst bs_loop.simps) simp
  next
    case False
    let ?half = "sz div 2"
    have "bs_loop xs x (if x < xs ! (base + ?half) then base else base + ?half) (sz - ?half) < n"
      using "1.IH" [OF False refl refl] "1.prems" False by (auto split: if_splits)
    with False show ?thesis by (subst bs_loop.simps) (simp add: Let_def)
  qed
qed

lemma bs_loop_finds:
  assumes "sorted xs" "base + sz \<le> length xs" "base \<le> i" "i < base + sz" "xs ! i = x"
  shows "xs ! bs_loop xs x base sz = x"
  using assms
proof (induction xs x base sz arbitrary: i rule: bs_loop.induct)
  case (1 xs x base sz)
  show ?case
  proof (cases "sz \<le> 1")
    case True
    with "1.prems" have "i = base" by simp
    with True "1.prems" show ?thesis by (subst bs_loop.simps) simp
  next
    case False
    let ?half = "sz div 2"
    let ?mid = "base + ?half"
    have mid: "?mid < length xs" using False "1.prems"(2) by auto
    show ?thesis
    proof (cases "x < xs ! ?mid")
      case True
      have "i < ?mid"
      proof (rule ccontr)
        assume "\<not> i < ?mid"
        then have "xs ! ?mid \<le> xs ! i"
          using "1.prems" by (intro sorted_nth_mono) auto
        with True "1.prems"(5) show False by simp
      qed
      then have "i < base + (sz - ?half)" by linarith
      with True False "1.prems" "1.IH" [OF False refl refl, of i] show ?thesis
        by (subst bs_loop.simps) (simp add: Let_def)
    next
      case ge: False
      define j where "j = (if i < ?mid then ?mid else i)"
      have "xs ! j = x"
      proof (cases "i < ?mid")
        case True
        then have "xs ! i \<le> xs ! ?mid"
          using "1.prems" mid by (intro sorted_nth_mono) auto
        with ge "1.prems"(5) True show ?thesis by (simp add: j_def)
      next
        case False
        with "1.prems"(5) show ?thesis by (simp add: j_def)
      qed
      moreover have "?mid \<le> j" "j < ?mid + (sz - ?half)"
        using "1.prems" False by (auto simp: j_def)
      ultimately show ?thesis
        using ge False "1.prems" "1.IH" [OF False refl refl, of j]
        by (subst bs_loop.simps) (simp add: Let_def)
    qed
  qed
qed

text \<open>On a sorted slice the search succeeds exactly for the members.\<close>

lemma binary_search_member:
  assumes "sorted xs"
  shows "binary_search xs x \<noteq> None \<longleftrightarrow> x \<in> set xs"
proof
  assume "binary_search xs x \<noteq> None"
  then have ne: "xs \<noteq> []" and eq: "xs ! bs_loop xs x 0 (length xs) = x"
    by (auto simp: binary_search_def Let_def split: if_splits)
  have "bs_loop xs x 0 (length xs) < length xs"
    using ne by (intro bs_loop_bounds) auto
  with eq show "x \<in> set xs" by (metis nth_mem)
next
  assume "x \<in> set xs"
  then obtain i where i: "i < length xs" "xs ! i = x" by (auto simp: in_set_conv_nth)
  then have "xs ! bs_loop xs x 0 (length xs) = x"
    using assms by (intro bs_loop_finds [where i = i]) auto
  with i show "binary_search xs x \<noteq> None"
    by (auto simp: binary_search_def Let_def)
qed

end
