(* ===== verification/Text.thy ===== *)
theory Text
  imports Prelude
begin

text \<open>
  Text handling: UTF-8 byte lengths of Rust strings, the renderer of peer
  text for terminals and dialogs (\<open>src/sanitize.rs\<close>), the excerpt of a label
  that an error message may carry (\<open>label_excerpt\<close> of \<open>src/vault/store.rs\<close>)
  and the derivation of a collection id from a label
  (\<open>collection_id_from_label\<close> of \<open>src/vault/mod.rs\<close>).
\<close>

section \<open>UTF-8\<close>

text \<open>\<open>char::encode_utf8\<close> and \<open>str::len\<close>.\<close>

definition encode_utf8 :: "uchar \<Rightarrow> nat list" where
  "encode_utf8 c =
     (if c < 0x80 then [c]
      else if c < 0x800 then [0xC0 + c div 64, 0x80 + c mod 64]
      else if c < 0x10000 then [0xE0 + c div 4096, 0x80 + c div 64 mod 64, 0x80 + c mod 64]
      else [0xF0 + c div 262144, 0x80 + c div 4096 mod 64, 0x80 + c div 64 mod 64, 0x80 + c mod 64])"

definition as_bytes :: "ustr \<Rightarrow> nat list" where
  "as_bytes s = concat (map encode_utf8 s)"

definition str_len :: "ustr \<Rightarrow> nat" where
  "str_len s = length (as_bytes s)"

text \<open>The values a Rust \<open>char\<close> can have.\<close>

definition is_scalar :: "uchar \<Rightarrow> bool" where
  "is_scalar c \<longleftrightarrow> c < 0xD800 \<or> (0xE000 \<le> c \<and> c < 0x110000)"

definition str_bytes :: "ustr \<Rightarrow> bytes" where
  "str_bytes s = map word_of_nat (as_bytes s)"

lemma encode_utf8_length [simp]: "1 \<le> length (encode_utf8 c)" "length (encode_utf8 c) \<le> 4"
  by (auto simp: encode_utf8_def)

lemma encode_utf8_nonempty [simp]: "encode_utf8 c \<noteq> []"
  by (simp add: encode_utf8_def)

lemma str_len_simps [simp]:
  "str_len [] = 0"
  "str_len (c # s) = length (encode_utf8 c) + str_len s"
  "str_len (s @ t) = str_len s + str_len t"
  by (simp_all add: str_len_def as_bytes_def)

lemma str_len_ascii: "\<forall>c\<in>set s. c < 0x80 \<Longrightarrow> str_len s = length s"
  by (induction s) (auto simp: encode_utf8_def)

lemma length_le_str_len: "length s \<le> str_len s"
proof (induction s)
  case (Cons c s)
  then show ?case using encode_utf8_length(1) [of c] by (simp del: encode_utf8_length)
qed simp

lemma encode_utf8_byte: "is_scalar c \<Longrightarrow> \<forall>b\<in>set (encode_utf8 c). b < 256"
  by (auto simp: encode_utf8_def is_scalar_def less_mult_imp_div_less)

lemma length_str_bytes [simp]: "length (str_bytes s) = str_len s"
  by (simp add: str_bytes_def str_len_def)

text \<open>
  UTF-8 is injective on strings: a character's encoding can be read back from
  the front of any byte sequence, its length being fixed by its first byte.
\<close>

fun decode_utf8 :: "nat list \<Rightarrow> uchar" where
  "decode_utf8 [a] = a"
| "decode_utf8 [a, b] = 64 * (a - 0xC0) + (b - 0x80)"
| "decode_utf8 [a, b, c] = 64 * (64 * (a - 0xE0) + (b - 0x80)) + (c - 0x80)"
| "decode_utf8 [a, b, c, d] = 64 * (64 * (64 * (a - 0xF0) + (b - 0x80)) + (c - 0x80)) + (d - 0x80)"
| "decode_utf8 _ = 0"

definition utf8_width :: "nat \<Rightarrow> nat" where
  "utf8_width b = (if b < 0x80 then 1 else if b < 0xE0 then 2 else if b < 0xF0 then 3 else 4)"

lemma decode_encode_utf8: "decode_utf8 (encode_utf8 c) = c"
proof -
  have q: "c div 4096 = c div 64 div 64" "c div 262144 = c div 64 div 64 div 64"
    by (simp_all flip: div_mult2_eq)
  have s: "64 * (k div 64) + k mod 64 = k" for k :: nat by (rule mult_div_mod_eq)
  show ?thesis unfolding encode_utf8_def q by (simp add: s)
qed

lemma utf8_width_encode: "utf8_width (hd (encode_utf8 c @ r)) = length (encode_utf8 c)"
proof -
  have "c < 0x800 \<Longrightarrow> c div 64 < 32" "c < 0x10000 \<Longrightarrow> c div 4096 < 16"
    by (auto simp: less_mult_imp_div_less)
  then show ?thesis by (auto simp: encode_utf8_def utf8_width_def)
qed

lemma encode_utf8_append_inj:
  assumes "encode_utf8 c @ r = encode_utf8 c' @ r'"
  shows "c = c' \<and> r = r'"
proof -
  have "length (encode_utf8 c) = length (encode_utf8 c')"
    using arg_cong [OF assms, of hd] utf8_width_encode by metis
  with assms have "encode_utf8 c = encode_utf8 c'" "r = r'" by auto
  with decode_encode_utf8 show ?thesis by metis
qed

lemma as_bytes_inj: "as_bytes s = as_bytes t \<Longrightarrow> s = t"
proof (induction s arbitrary: t)
  case Nil
  then show ?case by (cases t) (auto simp: as_bytes_def)
next
  case (Cons c s)
  then obtain d t' where t: "t = d # t'" by (cases t) (auto simp: as_bytes_def)
  with Cons.prems have "encode_utf8 c @ as_bytes s = encode_utf8 d @ as_bytes t'"
    by (simp add: as_bytes_def)
  then have "c = d" "as_bytes s = as_bytes t'" by (auto dest: encode_utf8_append_inj)
  with Cons.IH t show ?case by simp
qed

lemma str_bytes_inj:
  assumes "str_bytes s = str_bytes t" "\<forall>c\<in>set s. is_scalar c" "\<forall>c\<in>set t. is_scalar c"
  shows "s = t"
proof -
  have small: "\<forall>b\<in>set (as_bytes u). b < 256" if "\<forall>c\<in>set u. is_scalar c" for u
    using that encode_utf8_byte by (auto simp: as_bytes_def)
  have unb: "map unat (str_bytes u) = as_bytes u" if "\<forall>c\<in>set u. is_scalar c" for u
    using small [OF that] by (auto simp: str_bytes_def unat_of_nat intro!: map_idI)
  have "as_bytes s = as_bytes t" using unb [OF assms(2)] unb [OF assms(3)] assms(1) by simp
  then show ?thesis by (rule as_bytes_inj)
qed

text \<open>\<open>String::from_utf8\<close>: the string whose encoding the bytes are, if there is one.\<close>

function decode_chars :: "nat list \<Rightarrow> ustr" where
  "decode_chars [] = []"
| "decode_chars (b # bs) =
     decode_utf8 (take (utf8_width b) (b # bs)) # decode_chars (drop (utf8_width b) (b # bs))"
  by pat_completeness auto
termination
  by (relation "measure length") (auto simp: utf8_width_def)

definition from_utf8 :: "bytes \<Rightarrow> ustr option" where
  "from_utf8 bs =
     (let s = decode_chars (map unat bs)
      in if list_all is_scalar s \<and> str_bytes s = bs then Some s else None)"

lemma decode_chars_as_bytes: "decode_chars (as_bytes s) = s"
proof (induction s)
  case Nil
  show ?case by (simp add: as_bytes_def)
next
  case (Cons c s)
  obtain b bs where e: "encode_utf8 c = b # bs" by (cases "encode_utf8 c") auto
  have w: "utf8_width b = length (encode_utf8 c)" using utf8_width_encode [of c "[]"] e by simp
  have "as_bytes (c # s) = b # bs @ as_bytes s" by (simp add: as_bytes_def e)
  with Cons.IH w e decode_encode_utf8 [of c] show ?case by simp
qed

lemma unat_str_bytes:
  assumes "\<forall>c\<in>set s. is_scalar c"
  shows "map unat (str_bytes s) = as_bytes s"
proof -
  have "\<forall>b\<in>set (as_bytes s). b < 256" using assms encode_utf8_byte by (auto simp: as_bytes_def)
  then show ?thesis by (auto simp: str_bytes_def unat_of_nat intro!: map_idI)
qed

lemma from_utf8_str_bytes: "\<forall>c\<in>set s. is_scalar c \<Longrightarrow> from_utf8 (str_bytes s) = Some s"
  by (simp add: from_utf8_def unat_str_bytes decode_chars_as_bytes list_all_iff)

text \<open>\<open>str::is_char_boundary\<close> and the slice \<open>&s[..i]\<close> at such an index.\<close>

fun is_char_boundary :: "ustr \<Rightarrow> nat \<Rightarrow> bool" where
  "is_char_boundary [] i = (i = 0)"
| "is_char_boundary (c # s) i =
     (i = 0 \<or> (length (encode_utf8 c) \<le> i \<and> is_char_boundary s (i - length (encode_utf8 c))))"

fun slice_to :: "ustr \<Rightarrow> nat \<Rightarrow> ustr" where
  "slice_to [] i = []"
| "slice_to (c # s) i =
     (if length (encode_utf8 c) \<le> i then c # slice_to s (i - length (encode_utf8 c)) else [])"

lemma is_char_boundary_0 [simp]: "is_char_boundary s 0"
  by (cases s) auto

lemma str_len_slice_to: "str_len (slice_to s i) \<le> i"
  by (induction s i rule: slice_to.induct) auto

lemma slice_to_boundary: "is_char_boundary s i \<Longrightarrow> str_len (slice_to s i) = i"
  by (induction s i rule: is_char_boundary.induct) auto

lemma prefix_slice_to: "prefix (slice_to s i) s"
  by (induction s i rule: slice_to.induct) auto

lemma str_len_prefix: "prefix t s \<Longrightarrow> str_len t \<le> str_len s"
  by (elim prefixE) simp

lemma set_slice_to: "set (slice_to s i) \<subseteq> set s"
  by (rule set_mono_prefix [OF prefix_slice_to])

section \<open>Rendering peer text\<close>

text \<open>\<open>char::is_control\<close>: general category Cc.\<close>

definition is_control :: "uchar \<Rightarrow> bool" where
  "is_control c \<longleftrightarrow> c \<le> 0x1F \<or> (0x7F \<le> c \<and> c \<le> 0x9F)"

definition is_invisible_format :: "uchar \<Rightarrow> bool" where
  "is_invisible_format c \<longleftrightarrow>
     c = 0xAD
   \<or> (0x600 \<le> c \<and> c \<le> 0x605)
   \<or> c = 0x61C
   \<or> c = 0x6DD
   \<or> c = 0x70F
   \<or> c = 0x8E2
   \<or> c = 0x180E
   \<or> (0x200B \<le> c \<and> c \<le> 0x200F)
   \<or> (0x2028 \<le> c \<and> c \<le> 0x202E)
   \<or> (0x2060 \<le> c \<and> c \<le> 0x2064)
   \<or> (0x2066 \<le> c \<and> c \<le> 0x206F)
   \<or> (0xE000 \<le> c \<and> c \<le> 0xF8FF)
   \<or> c = 0xFEFF
   \<or> (0xFFF9 \<le> c \<and> c \<le> 0xFFFB)
   \<or> c = 0x110BD
   \<or> c = 0x110CD
   \<or> (0x1D173 \<le> c \<and> c \<le> 0x1D17A)
   \<or> c = 0xE0001
   \<or> (0xE0020 \<le> c \<and> c \<le> 0xE007F)
   \<or> (0xF0000 \<le> c \<and> c \<le> 0xFFFFD)
   \<or> (0x100000 \<le> c \<and> c \<le> 0x10FFFD)"

text \<open>Lower-case hexadecimal, as \<open>{b:02x}\<close> prints a byte.\<close>

definition hex_digit :: "nat \<Rightarrow> uchar" where
  "hex_digit d = (if d < 10 then 48 + d else 87 + d)"

definition hex_byte :: "nat \<Rightarrow> ustr" where
  "hex_byte b = [hex_digit (b div 16), hex_digit (b mod 16)]"

definition escape_byte :: "nat \<Rightarrow> ustr" where
  "escape_byte b = lit [CHR 0x5C, CHR ''x''] @ hex_byte b"

definition escape_char :: "uchar \<Rightarrow> ustr" where
  "escape_char ch =
     (if is_control ch \<or> is_invisible_format ch then concat (map escape_byte (encode_utf8 ch))
      else [ch])"

definition escape_control :: "ustr \<Rightarrow> ustr" where
  "escape_control s = concat (map escape_char s)"

text \<open>A character that can move a cursor, hide or reorder text.\<close>

definition unsafe_char :: "uchar \<Rightarrow> bool" where
  "unsafe_char c \<longleftrightarrow> is_control c \<or> is_invisible_format c"

lemma printable_ascii_safe: "0x20 \<le> c \<Longrightarrow> c < 0x7F \<Longrightarrow> \<not> unsafe_char c"
  by (simp add: unsafe_char_def is_control_def is_invisible_format_def)

lemma hex_digit_range: "d < 16 \<Longrightarrow> 48 \<le> hex_digit d \<and> hex_digit d \<le> 102"
  by (simp add: hex_digit_def)

lemma escape_byte_safe:
  assumes "b < 256" "c \<in> set (escape_byte b)"
  shows "\<not> unsafe_char c"
proof -
  have "b div 16 < 16" "b mod 16 < 16" using assms(1) by auto
  then have "0x20 \<le> c \<and> c < 0x7F"
    using assms(2) hex_digit_range [of "b div 16"] hex_digit_range [of "b mod 16"]
    by (auto simp: escape_byte_def hex_byte_def lit_def)
  then show ?thesis by (simp add: printable_ascii_safe)
qed

lemma escape_char_safe:
  assumes "is_scalar ch" "c \<in> set (escape_char ch)"
  shows "\<not> unsafe_char c"
proof (cases "unsafe_char ch")
  case False
  with assms(2) show ?thesis by (simp add: escape_char_def unsafe_char_def)
next
  case True
  then have "escape_char ch = concat (map escape_byte (encode_utf8 ch))"
    by (simp add: escape_char_def unsafe_char_def)
  with assms(2) obtain b where b: "b \<in> set (encode_utf8 ch)" and c: "c \<in> set (escape_byte b)"
    by auto
  from b assms(1) encode_utf8_byte have "b < 256" by blast
  then show ?thesis using c by (rule escape_byte_safe)
qed

lemma escape_control_append: "escape_control (s @ t) = escape_control s @ escape_control t"
  by (simp add: escape_control_def)

lemma escape_control_safe:
  assumes "\<forall>c\<in>set s. is_scalar c"
  shows "\<forall>c\<in>set (escape_control s). \<not> unsafe_char c"
  using assms escape_char_safe by (auto simp: escape_control_def)

lemma escape_control_clean: "\<forall>c\<in>set s. \<not> unsafe_char c \<Longrightarrow> escape_control s = s"
  by (induction s) (auto simp: escape_control_def escape_char_def unsafe_char_def)

lemma escape_control_idem:
  "\<forall>c\<in>set s. is_scalar c \<Longrightarrow> escape_control (escape_control s) = escape_control s"
  by (simp add: escape_control_clean escape_control_safe)

section \<open>The excerpt of a label in an error message\<close>

definition EXCERPT_MAX :: nat where
  "EXCERPT_MAX = 64"

text \<open>The largest index up to the bound that is a character boundary.\<close>

definition boundary_below :: "ustr \<Rightarrow> nat \<Rightarrow> nat" where
  "boundary_below s m =
     (case find (is_char_boundary s) (rev [0..<Suc m]) of Some i \<Rightarrow> i | None \<Rightarrow> 0)"

definition label_excerpt :: "ustr \<Rightarrow> ustr" where
  "label_excerpt label =
     (let escaped = escape_control label
      in if str_len escaped \<le> EXCERPT_MAX then escaped
         else slice_to escaped (boundary_below escaped EXCERPT_MAX) @ lit ''...'')"

lemma boundary_below_le: "boundary_below s m \<le> m"
  by (auto simp: boundary_below_def find_Some_iff rev_nth simp del: upt_Suc split: option.splits)

lemma boundary_below_boundary: "is_char_boundary s (boundary_below s m)"
  by (auto simp: boundary_below_def find_Some_iff simp del: upt_Suc split: option.splits)

lemma str_len_lit_ascii: "\<forall>c\<in>set s. of_char c < (0x80::nat) \<Longrightarrow> str_len (lit s) = length s"
  by (subst str_len_ascii) (auto simp: lit_def)

lemma label_excerpt_len: "str_len (label_excerpt label) \<le> EXCERPT_MAX + 3"
proof -
  let ?e = "escape_control label"
  have "str_len (slice_to ?e (boundary_below ?e EXCERPT_MAX)) \<le> EXCERPT_MAX"
    by (rule order_trans [OF str_len_slice_to boundary_below_le])
  moreover have "str_len (lit ''...'') = 3"
    by (simp add: lit_def encode_utf8_def)
  ultimately show ?thesis
    by (auto simp: label_excerpt_def Let_def)
qed

lemma label_excerpt_safe:
  assumes "\<forall>c\<in>set label. is_scalar c"
  shows "\<forall>c\<in>set (label_excerpt label). \<not> unsafe_char c"
proof -
  have dots: "\<forall>c\<in>set (lit ''...''). \<not> unsafe_char c"
    by (simp add: lit_def printable_ascii_safe)
  have "set (label_excerpt label) \<subseteq> set (escape_control label) \<union> set (lit ''...'')"
    using set_slice_to by (auto simp: label_excerpt_def Let_def simp del: lit_def)
  with escape_control_safe [OF assms] dots show ?thesis by blast
qed

section \<open>Collection ids\<close>

definition MAX_ID_LEN :: nat where
  "MAX_ID_LEN = 200"

definition to_ascii_lowercase :: "uchar \<Rightarrow> uchar" where
  "to_ascii_lowercase c = (if 65 \<le> c \<and> c \<le> 90 then c + 32 else c)"

definition is_ascii_alphanumeric :: "uchar \<Rightarrow> bool" where
  "is_ascii_alphanumeric c \<longleftrightarrow> (48 \<le> c \<and> c \<le> 57) \<or> (65 \<le> c \<and> c \<le> 90) \<or> (97 \<le> c \<and> c \<le> 122)"

definition underscore :: uchar where
  "underscore = 95"

text \<open>The loop over the label's characters, with the id built so far and \<open>last_underscore\<close>.\<close>

fun id_loop :: "ustr \<Rightarrow> bool \<Rightarrow> ustr \<Rightarrow> ustr" where
  "id_loop acc last_underscore [] = acc"
| "id_loop acc last_underscore (ch # chs) =
     (let c = to_ascii_lowercase ch
      in if is_ascii_alphanumeric c then id_loop (acc @ [c]) False chs
         else if \<not> last_underscore \<and> acc \<noteq> [] then id_loop (acc @ [underscore]) True chs
         else id_loop acc last_underscore chs)"

definition trim_end_matches :: "uchar \<Rightarrow> ustr \<Rightarrow> ustr" where
  "trim_end_matches c s = rev (dropWhile (\<lambda>x. x = c) (rev s))"

definition collection_id_from_label :: "ustr \<Rightarrow> ustr" where
  "collection_id_from_label label =
     (let i = id_loop [] False label;
          i' = trim_end_matches underscore (slice_to i (min (str_len i) MAX_ID_LEN))
      in if i' = [] then lit ''collection'' else i')"

text \<open>The alphabet of an id, and the shape the loop keeps.\<close>

definition id_char :: "uchar \<Rightarrow> bool" where
  "id_char c \<longleftrightarrow> (48 \<le> c \<and> c \<le> 57) \<or> (97 \<le> c \<and> c \<le> 122) \<or> c = underscore"

definition id_shape :: "ustr \<Rightarrow> bool" where
  "id_shape s \<longleftrightarrow> (\<forall>c\<in>set s. id_char c) \<and> (s \<noteq> [] \<longrightarrow> hd s \<noteq> underscore)
     \<and> \<not> sublist [underscore, underscore] s"

lemma lowercase_alnum:
  assumes "is_ascii_alphanumeric (to_ascii_lowercase ch)"
  shows "id_char (to_ascii_lowercase ch)" "to_ascii_lowercase ch \<noteq> underscore"
  using assms
  by (auto simp: is_ascii_alphanumeric_def to_ascii_lowercase_def id_char_def underscore_def)

lemma no_double_snoc:
  assumes "\<not> sublist [u, u] s" "c \<noteq> u \<or> s = [] \<or> last s \<noteq> u"
  shows "\<not> sublist [u, u] (s @ [c])"
proof
  assume "sublist [u, u] (s @ [c])"
  then obtain ps ss where eq: "s @ [c] = ps @ [u, u] @ ss" by (auto simp: sublist_def)
  show False
  proof (cases ss rule: rev_cases)
    case Nil
    with eq have "s = ps @ [u]" "c = u" by auto
    with assms(2) show False by auto
  next
    case (snoc ss' x)
    with eq have "s = ps @ [u, u] @ ss'" by auto
    then have "sublist [u, u] s" unfolding sublist_def by blast
    with assms(1) show False by simp
  qed
qed

lemma id_shape_snoc:
  assumes "id_shape s" "id_char c" "c = underscore \<longrightarrow> s \<noteq> [] \<and> last s \<noteq> underscore"
  shows "id_shape (s @ [c])"
  using assms no_double_snoc [of underscore s c]
  by (auto simp: id_shape_def hd_append)

lemma id_loop_shape:
  "id_shape acc \<Longrightarrow> (\<not> lu \<and> acc \<noteq> [] \<longrightarrow> last acc \<noteq> underscore) \<Longrightarrow> id_shape (id_loop acc lu chs)"
proof (induction acc lu chs rule: id_loop.induct)
  case (2 acc lu ch chs)
  let ?c = "to_ascii_lowercase ch"
  show ?case
  proof (cases "is_ascii_alphanumeric ?c")
    case True
    have "id_shape (acc @ [?c])"
      using "2.prems"(1) lowercase_alnum [OF True] by (intro id_shape_snoc) auto
    then show ?thesis
      using "2.IH"(1) [OF refl True] lowercase_alnum [OF True] True by simp
  next
    case False
    show ?thesis
    proof (cases "\<not> lu \<and> acc \<noteq> []")
      case True
      have "id_shape (acc @ [underscore])"
        using "2.prems" True by (intro id_shape_snoc) (auto simp: id_char_def)
      then show ?thesis
        using "2.IH"(2) [OF refl False True] False True by simp
    next
      case no: False
      have "id_loop acc lu (ch # chs) = id_loop acc lu chs"
        using False no by auto
      then show ?thesis
        using "2.IH"(3) [OF refl False no] "2.prems" by simp
    qed
  qed
qed simp

lemma sublist_prefix_mono: "prefix t s \<Longrightarrow> sublist u t \<Longrightarrow> sublist u s"
  using prefix_imp_sublist sublist_order.order_trans by blast

lemma id_shape_prefix: "id_shape s \<Longrightarrow> prefix t s \<Longrightarrow> id_shape t"
  using set_mono_prefix [of t s] sublist_prefix_mono [of t s]
  by (auto simp: id_shape_def prefix_def)

lemma trim_end_prefix: "prefix (trim_end_matches c s) s"
proof -
  let ?P = "\<lambda>x. x = c"
  have "rev (takeWhile ?P (rev s) @ dropWhile ?P (rev s)) = s"
    by (simp del: rev_append)
  then have "trim_end_matches c s @ rev (takeWhile ?P (rev s)) = s"
    by (simp only: rev_append trim_end_matches_def)
  then show ?thesis by (rule prefixI [OF sym])
qed

lemma trim_end_last:
  assumes "trim_end_matches c s \<noteq> []"
  shows "last (trim_end_matches c s) \<noteq> c"
proof -
  have "dropWhile (\<lambda>x. x = c) (rev s) \<noteq> []"
    using assms by (simp add: trim_end_matches_def)
  then have "hd (dropWhile (\<lambda>x. x = c) (rev s)) \<noteq> c" by (rule hd_dropWhile)
  then show ?thesis by (simp add: trim_end_matches_def last_rev)
qed

lemma id_char_ascii: "id_char c \<Longrightarrow> c < 0x80"
  by (auto simp: id_char_def underscore_def)

lemma collection_id_shape: "id_shape (collection_id_from_label label)"
proof -
  have lit: "id_shape (lit ''collection'')"
  proof -
    have "underscore \<notin> set (lit ''collection'')" by (simp add: lit_def underscore_def)
    then have "\<not> sublist [underscore, underscore] (lit ''collection'')"
      by (meson list.set_intros(1) set_mono_sublist subsetD)
    then show ?thesis by (simp add: id_shape_def lit_def id_char_def underscore_def)
  qed
  let ?i = "id_loop [] False label"
  have "id_shape ?i"
    by (rule id_loop_shape) (auto simp: id_shape_def)
  then have "id_shape (trim_end_matches underscore (slice_to ?i n))" for n
    by (blast intro: id_shape_prefix trim_end_prefix prefix_slice_to)
  with lit show ?thesis by (simp add: collection_id_from_label_def Let_def)
qed

lemma collection_id_bound: "str_len (collection_id_from_label label) \<le> MAX_ID_LEN"
proof -
  have "str_len (trim_end_matches underscore s) \<le> str_len s" for s
    by (rule str_len_prefix [OF trim_end_prefix])
  then have "str_len (trim_end_matches underscore (slice_to i (min n MAX_ID_LEN))) \<le> MAX_ID_LEN"
    for i n
    using str_len_slice_to [of i "min n MAX_ID_LEN"] by (meson min.cobounded2 order_trans)
  moreover have "str_len (lit ''collection'') \<le> MAX_ID_LEN"
    by (simp add: lit_def encode_utf8_def MAX_ID_LEN_def)
  ultimately show ?thesis by (simp add: collection_id_from_label_def Let_def)
qed

lemma collection_id_nonempty: "collection_id_from_label label \<noteq> []"
  by (simp add: collection_id_from_label_def Let_def lit_def)

lemma collection_id_last: "last (collection_id_from_label label) \<noteq> underscore"
  using trim_end_last
  by (simp add: collection_id_from_label_def Let_def lit_def underscore_def)

end
