(* ===== verification/Vault_Crypto.thy ===== *)
theory Vault_Crypto
  imports Text
begin

text \<open>
  Key derivation and authenticated encryption (\<open>src/vault/crypto.rs\<close>): the
  ceilings on Argon2 parameters, the derivation with its domain separation
  and the AEAD calls. The crates \<open>argon2\<close>, \<open>chacha20poly1305\<close> and \<open>sha2\<close> are
  the fields of the record \<open>crypto_lib\<close>; what the code relies on is stated by
  \<open>aead_correct\<close>.
\<close>

section \<open>Parameters and errors\<close>

definition KEY_LEN :: nat where "KEY_LEN = 32"
definition SALT_LEN :: nat where "SALT_LEN = 16"
definition NONCE_LEN :: nat where "NONCE_LEN = 24"

definition KDF_CONTEXT :: bytes where
  "KDF_CONTEXT = str_bytes (lit ''secret-manager vault key v1'') @ [0]"

record kdf_params =
  m_cost_kib :: u32
  t_cost :: u32
  p_cost :: u32

definition MAX_M_COST_KIB :: u32 where "MAX_M_COST_KIB = 256 * 1024"
definition MAX_T_COST :: u32 where "MAX_T_COST = 64"
definition MAX_P_COST :: u32 where "MAX_P_COST = 16"

text \<open>The reasons \<open>validate\<close> formats, as values.\<close>

datatype kdf_reason =
    PCostOutside u32
  | TCostOutside u32
  | MCostExceeds u32
  | MCostBelow u32 u32

datatype crypto_error =
    Kdf ustr
  | Auth
  | UnsafeKdf kdf_reason
  | Rng

definition validate :: "kdf_params \<Rightarrow> crypto_error + unit" where
  "validate p =
     (let reason =
        (if p_cost p = 0 \<or> p_cost p > MAX_P_COST then Some (PCostOutside (p_cost p))
         else if t_cost p = 0 \<or> t_cost p > MAX_T_COST then Some (TCostOutside (t_cost p))
         else if m_cost_kib p > MAX_M_COST_KIB then Some (MCostExceeds (m_cost_kib p))
         else if m_cost_kib p < 8 * p_cost p then Some (MCostBelow (m_cost_kib p) (8 * p_cost p))
         else None)
      in case reason of Some r \<Rightarrow> Inl (UnsafeKdf r) | None \<Rightarrow> Inr ())"

definition kdf_default :: kdf_params where
  "kdf_default = \<lparr>m_cost_kib = 65536, t_cost = 3, p_cost = 1\<rparr>"

section \<open>Primitives\<close>

type_synonym key = bytes

record crypto_lib =
  argon2_params :: "u32 \<Rightarrow> u32 \<Rightarrow> u32 \<Rightarrow> nat \<Rightarrow> ustr option"
    \<comment> \<open>\<open>Params::new\<close>: the error text, if it refuses\<close>
  argon2_hash :: "kdf_params \<Rightarrow> bytes \<Rightarrow> bytes \<Rightarrow> ustr + bytes"
    \<comment> \<open>\<open>hash_password_into\<close> of Argon2id, version 0x13\<close>
  aead_encrypt :: "key \<Rightarrow> bytes \<Rightarrow> bytes \<Rightarrow> bytes \<Rightarrow> bytes option"
    \<comment> \<open>XChaCha20-Poly1305: key, nonce, associated data, message\<close>
  aead_decrypt :: "key \<Rightarrow> bytes \<Rightarrow> bytes \<Rightarrow> bytes \<Rightarrow> bytes option"
  sha256 :: "bytes \<Rightarrow> bytes"

text \<open>What the AEAD promises: decrypting what was encrypted gives the message back.\<close>

definition aead_correct :: "'z crypto_lib_scheme \<Rightarrow> bool" where
  "aead_correct D \<longleftrightarrow>
     (\<forall>k n a m c. aead_encrypt D k n a m = Some c \<longrightarrow> aead_decrypt D k n a c = Some m)"

section \<open>Operations\<close>

definition derive_key ::
  "'z crypto_lib_scheme \<Rightarrow> bytes \<Rightarrow> bytes \<Rightarrow> kdf_params \<Rightarrow> crypto_error + key" where
  "derive_key D password salt params =
     (case validate params of
        Inl e \<Rightarrow> Inl e
      | Inr _ \<Rightarrow>
          (case argon2_params D (m_cost_kib params) (t_cost params) (p_cost params) KEY_LEN of
             Some e \<Rightarrow> Inl (Kdf e)
           | None \<Rightarrow>
               (case argon2_hash D params (KDF_CONTEXT @ password) salt of
                  Inl e \<Rightarrow> Inl (Kdf e)
                | Inr out \<Rightarrow> Inr out)))"

definition seal ::
  "'z crypto_lib_scheme \<Rightarrow> key \<Rightarrow> bytes \<Rightarrow> bytes \<Rightarrow> bytes \<Rightarrow> crypto_error + bytes" where
  "seal D k nonce aad plaintext =
     (case aead_encrypt D k nonce aad plaintext of None \<Rightarrow> Inl Auth | Some c \<Rightarrow> Inr c)"

definition crypto_open ::
  "'z crypto_lib_scheme \<Rightarrow> key \<Rightarrow> bytes \<Rightarrow> bytes \<Rightarrow> bytes \<Rightarrow> crypto_error + bytes" where
  "crypto_open D k nonce aad ciphertext =
     (case aead_decrypt D k nonce aad ciphertext of None \<Rightarrow> Inl Auth | Some m \<Rightarrow> Inr m)"

section \<open>Properties\<close>

lemma eight_p_cost_no_wrap:
  assumes "p_cost p \<le> MAX_P_COST"
  shows "unat (8 * p_cost p) = 8 * unat (p_cost p)"
proof -
  have "unat (p_cost p) \<le> 16" using assms by (simp add: MAX_P_COST_def word_le_nat_alt)
  then show ?thesis by (simp add: unat_word_ariths)
qed

lemma validate_Inr_iff:
  "validate p = Inr () \<longleftrightarrow>
     1 \<le> unat (p_cost p) \<and> unat (p_cost p) \<le> 16
   \<and> 1 \<le> unat (t_cost p) \<and> unat (t_cost p) \<le> 64
   \<and> 8 * unat (p_cost p) \<le> unat (m_cost_kib p) \<and> unat (m_cost_kib p) \<le> 262144"
proof -
  have zero: "(Suc 0 \<le> unat x) = (x \<noteq> 0)" for x :: u32
    by (simp add: Suc_le_eq unat_gt_0)
  show ?thesis
  proof (cases "p_cost p \<le> MAX_P_COST")
    case True
    with eight_p_cost_no_wrap [OF True] show ?thesis
      by (auto simp: validate_def zero MAX_P_COST_def MAX_T_COST_def MAX_M_COST_KIB_def
          word_le_nat_alt word_less_nat_alt split: if_splits)
  next
    case False
    then show ?thesis
      by (auto simp: validate_def MAX_P_COST_def word_le_nat_alt word_less_nat_alt)
  qed
qed

lemma validate_cases: "validate p = Inr () \<or> (\<exists>r. validate p = Inl (UnsafeKdf r))"
  by (auto simp: validate_def Let_def)

lemma kdf_default_valid: "validate kdf_default = Inr ()"
  by (simp add: validate_def kdf_default_def MAX_P_COST_def MAX_T_COST_def MAX_M_COST_KIB_def)

lemma derive_key_Inr_valid: "derive_key D pw salt p = Inr k \<Longrightarrow> validate p = Inr ()"
  using validate_cases [of p] by (auto simp: derive_key_def)

lemma seal_open:
  "aead_correct D \<Longrightarrow> seal D k n a m = Inr c \<Longrightarrow> crypto_open D k n a c = Inr m"
  by (auto simp: seal_def crypto_open_def aead_correct_def split: option.splits)

end
