(* ===== verification/Vault_Format.thy ===== *)
theory Vault_Format
  imports Vault_Crypto
begin

text \<open>
  The on-disk layout of a collection (\<open>src/vault/format.rs\<close>): the per-item
  caps, the hashed attribute index that answers searches while the vault is
  locked, and the file
  \<open>magic(8) | header_len u32 LE | header (postcard) | ciphertext\<close>, of which
  everything before the ciphertext is the AEAD's associated data. The crate
  \<open>postcard\<close> is a pair of functions per encoded type (record \<open>codec\<close>); what
  the code relies on is \<open>codec_correct\<close>: decoding the encoding of a value
  gives the value and leaves what followed it.
\<close>

section \<open>Limits\<close>

definition MAGIC :: bytes where
  "MAGIC = str_bytes (lit ''SMVAULT'') @ [0]"

definition VERSION :: u16 where "VERSION = 3"
definition MAX_HEADER :: nat where "MAX_HEADER = 16777216"
definition MAX_LABEL :: nat where "MAX_LABEL = 4096"
definition PREFIX_LEN :: nat where "PREFIX_LEN = 12"
definition MAX_VAULT_BYTES :: nat where "MAX_VAULT_BYTES = 268435456"

definition MAX_ITEM_SECRET :: nat where "MAX_ITEM_SECRET = 1048576"
definition MAX_ITEM_LABEL :: nat where "MAX_ITEM_LABEL = 4096"
definition MAX_ITEM_ATTRIBUTES :: nat where "MAX_ITEM_ATTRIBUTES = 64"
definition MAX_ATTRIBUTE_KEY :: nat where "MAX_ATTRIBUTE_KEY = 256"
definition MAX_ATTRIBUTE_VALUE :: nat where "MAX_ATTRIBUTE_VALUE = 512"
definition MAX_ITEM_CONTENT_TYPE :: nat where "MAX_ITEM_CONTENT_TYPE = 256"

lemma length_MAGIC [simp]: "length MAGIC = 8"
  by (simp add: MAGIC_def lit_def encode_utf8_def)

section \<open>Errors\<close>

text \<open>The errors of \<open>postcard\<close> the source names, and all others by a number.\<close>

datatype pc_error = SerializeBufferFull | DeserializeUnexpectedEnd | PcOther nat

datatype format_error =
    BadMagic
  | UnsupportedVersion u16
  | Truncated
  | Encoding pc_error
  | FUnsafeKdf crypto_error
  | HeaderTooLarge nat
  | VaultTooLarge nat
  | TrailingHeaderBytes nat

definition check_vault_size_against :: "nat \<Rightarrow> nat \<Rightarrow> format_error + unit" where
  "check_vault_size_against len limit = (if len > limit then Inl (VaultTooLarge len) else Inr ())"

definition check_vault_size :: "nat \<Rightarrow> format_error + unit" where
  "check_vault_size len = check_vault_size_against len MAX_VAULT_BYTES"

section \<open>Per-item caps\<close>

text \<open>
  A \<open>BTreeMap<String, String>\<close> is the list of its pairs in iteration order:
  strictly increasing keys (\<open>btree\<close>), so equal maps are equal lists.
\<close>

type_synonym attrs = "(ustr \<times> ustr) list"

definition btree :: "attrs \<Rightarrow> bool" where
  "btree m \<longleftrightarrow> sorted_wrt (<) (map fst m)"

datatype cap = Secret | Label | AttributeCount | AttributeKey | AttributeValue | ContentType

fun cap_limit :: "cap \<Rightarrow> nat" where
  "cap_limit Secret = MAX_ITEM_SECRET"
| "cap_limit Label = MAX_ITEM_LABEL"
| "cap_limit AttributeCount = MAX_ITEM_ATTRIBUTES"
| "cap_limit AttributeKey = MAX_ATTRIBUTE_KEY"
| "cap_limit AttributeValue = MAX_ATTRIBUTE_VALUE"
| "cap_limit ContentType = MAX_ITEM_CONTENT_TYPE"

fun cap_as_str :: "cap \<Rightarrow> ustr" where
  "cap_as_str Secret = lit ''secret''"
| "cap_as_str Label = lit ''label''"
| "cap_as_str AttributeCount = lit ''attribute count''"
| "cap_as_str AttributeKey = lit ''attribute name''"
| "cap_as_str AttributeValue = lit ''attribute value''"
| "cap_as_str ContentType = lit ''content type''"

record cap_violation =
  cv_cap :: cap
  cv_actual :: nat
  cv_limit :: nat

definition cap_check :: "cap \<Rightarrow> nat \<Rightarrow> cap_violation option" where
  "cap_check c actual =
     (if actual > cap_limit c then Some \<lparr>cv_cap = c, cv_actual = actual, cv_limit = cap_limit c\<rparr>
      else None)"

definition check_caps :: "ustr \<Rightarrow> attrs \<Rightarrow> nat \<Rightarrow> ustr \<Rightarrow> cap_violation option" where
  "check_caps label attributes secret_len content_type =
     or_else (cap_check Secret secret_len)
    (or_else (cap_check Label (str_len label))
    (or_else (cap_check ContentType (str_len content_type))
    (or_else (cap_check AttributeCount (length attributes))
      (find_map (\<lambda>(k, v). or_else (cap_check AttributeKey (str_len k))
                                   (cap_check AttributeValue (str_len v))) attributes))))"

lemma cap_check_None_iff [simp]: "cap_check c n = None \<longleftrightarrow> n \<le> cap_limit c"
  by (auto simp: cap_check_def)

lemma cap_check_SomeD:
  "cap_check c n = Some v \<Longrightarrow> cv_limit v < cv_actual v \<and> cv_limit v = cap_limit (cv_cap v)"
  by (auto simp: cap_check_def split: if_splits)

text \<open>An item passes exactly if each of the six measures is within its cap.\<close>

definition within_caps :: "ustr \<Rightarrow> attrs \<Rightarrow> nat \<Rightarrow> ustr \<Rightarrow> bool" where
  "within_caps label attributes secret_len content_type \<longleftrightarrow>
     secret_len \<le> MAX_ITEM_SECRET \<and> str_len label \<le> MAX_ITEM_LABEL
   \<and> str_len content_type \<le> MAX_ITEM_CONTENT_TYPE \<and> length attributes \<le> MAX_ITEM_ATTRIBUTES
   \<and> (\<forall>(k, v)\<in>set attributes. str_len k \<le> MAX_ATTRIBUTE_KEY \<and> str_len v \<le> MAX_ATTRIBUTE_VALUE)"

lemma check_caps_None_iff:
  "check_caps l a n ct = None \<longleftrightarrow> within_caps l a n ct"
  by (auto simp: check_caps_def within_caps_def)

lemma or_else_SomeD: "or_else x y = Some v \<Longrightarrow> x = Some v \<or> y = Some v"
  by (cases x) auto

lemma check_caps_SomeD:
  assumes "check_caps l a n ct = Some v"
  shows "cv_limit v < cv_actual v \<and> cv_limit v = cap_limit (cv_cap v)"
proof -
  have "\<exists>c m. cap_check c m = Some v"
    using assms unfolding check_caps_def
    by (auto dest!: or_else_SomeD find_map_SomeD)
  then show ?thesis by (blast dest: cap_check_SomeD)
qed

section \<open>Index, header and items\<close>

record index_entry =
  ie_id :: ustr
  attr_hashes :: "bytes list"

record header =
  h_version :: u16
  h_label :: ustr
  h_created :: u64
  h_modified :: u64
  h_kdf :: kdf_params
  h_salt :: bytes
  h_index_salt :: bytes
  h_nonce :: bytes
  h_index :: "index_entry list"

record item =
  it_id :: ustr
  it_label :: ustr
  it_attributes :: attrs
  it_secret :: bytes
  it_content_type :: ustr
  it_created :: u64
  it_modified :: u64

record 'a codec =
  to_vec :: "'a \<Rightarrow> pc_error + bytes"
  take_from_bytes :: "bytes \<Rightarrow> pc_error + ('a \<times> bytes)"

definition from_bytes :: "'a codec \<Rightarrow> bytes \<Rightarrow> pc_error + 'a" where
  "from_bytes c bs = (case take_from_bytes c bs of Inl e \<Rightarrow> Inl e | Inr (x, _) \<Rightarrow> Inr x)"

definition codec_correct :: "'a codec \<Rightarrow> bool" where
  "codec_correct c \<longleftrightarrow>
     (\<forall>x bs rest. to_vec c x = Inr bs \<longrightarrow> take_from_bytes c (bs @ rest) = Inr (x, rest))"

lemma codec_take: "codec_correct c \<Longrightarrow> to_vec c x = Inr bs \<Longrightarrow> take_from_bytes c (bs @ rest) = Inr (x, rest)"
  by (simp add: codec_correct_def)

lemma codec_take_exact: "codec_correct c \<Longrightarrow> to_vec c x = Inr bs \<Longrightarrow> take_from_bytes c bs = Inr (x, [])"
  using codec_take [of c x bs "[]"] by simp

lemma codec_from_bytes: "codec_correct c \<Longrightarrow> to_vec c x = Inr bs \<Longrightarrow> from_bytes c bs = Inr x"
  by (simp add: from_bytes_def codec_take_exact)

text \<open>Everything outside the source that the vault uses.\<close>

record vault_lib = crypto_lib +
  header_codec :: "header codec"
  items_codec :: "item list codec"

definition lib_correct :: "vault_lib \<Rightarrow> bool" where
  "lib_correct D \<longleftrightarrow>
     aead_correct D \<and> codec_correct (header_codec D) \<and> codec_correct (items_codec D)"

subsection \<open>The attribute index\<close>

definition attribute_preimage :: "bytes \<Rightarrow> ustr \<Rightarrow> ustr \<Rightarrow> bytes" where
  "attribute_preimage salt key value =
     salt @ to_le_bytes (word_of_nat (str_len key)) @ str_bytes key @ str_bytes value"

definition attribute_hash :: "'z crypto_lib_scheme \<Rightarrow> bytes \<Rightarrow> ustr \<Rightarrow> ustr \<Rightarrow> bytes" where
  "attribute_hash D salt key value = sha256 D (attribute_preimage salt key value)"

definition hash_query :: "'z crypto_lib_scheme \<Rightarrow> bytes \<Rightarrow> attrs \<Rightarrow> bytes list" where
  "hash_query D salt query = map (\<lambda>(k, v). attribute_hash D salt k v) query"

definition matches_hashes :: "index_entry \<Rightarrow> bytes list \<Rightarrow> bool" where
  "matches_hashes e query_hashes =
     (if query_hashes = [] then True
      else if attr_hashes e = [] then False
      else list_all (\<lambda>h. binary_search (attr_hashes e) h \<noteq> None) query_hashes)"

definition entry_matches :: "'z crypto_lib_scheme \<Rightarrow> index_entry \<Rightarrow> bytes \<Rightarrow> attrs \<Rightarrow> bool" where
  "entry_matches D e salt query = matches_hashes e (hash_query D salt query)"

definition index_entry_of :: "'z crypto_lib_scheme \<Rightarrow> bytes \<Rightarrow> bool \<Rightarrow> item \<Rightarrow> index_entry" where
  "index_entry_of D salt with_attributes i =
     \<lparr>ie_id = it_id i,
      attr_hashes = sort (if with_attributes
        then map (\<lambda>(k, v). attribute_hash D salt k v) (it_attributes i) else [])\<rparr>"

definition build_index :: "'z crypto_lib_scheme \<Rightarrow> bytes \<Rightarrow> item list \<Rightarrow> bool \<Rightarrow> index_entry list" where
  "build_index D salt its with_attributes = map (index_entry_of D salt with_attributes) its"

subsection \<open>The header and the file\<close>

definition header_prefix_len :: "bytes \<Rightarrow> format_error + nat" where
  "header_prefix_len pre =
     (if length pre < 8 then Inl Truncated
      else if take 8 pre \<noteq> MAGIC then Inl BadMagic
      else if length pre < PREFIX_LEN then Inl Truncated
      else let len = unat (from_le_bytes [pre ! 8, pre ! 9, pre ! 10, pre ! 11])
           in if len > MAX_HEADER then Inl Truncated else Inr (PREFIX_LEN + len))"

definition check_header :: "header \<Rightarrow> format_error + unit" where
  "check_header h =
     (if h_version h \<noteq> VERSION then Inl (UnsupportedVersion (h_version h))
      else map_err FUnsafeKdf (validate (h_kdf h)))"

definition decode_header_prefix :: "vault_lib \<Rightarrow> bytes \<Rightarrow> format_error + (header \<times> nat)" where
  "decode_header_prefix D bs =
     (case header_prefix_len bs of
        Inl e \<Rightarrow> Inl e
      | Inr need \<Rightarrow>
          if length bs < need then Inl Truncated
          else (case take_from_bytes (header_codec D) (drop PREFIX_LEN (take need bs)) of
                  Inl e \<Rightarrow> Inl (Encoding e)
                | Inr (h, rest) \<Rightarrow>
                    if rest \<noteq> [] then Inl (TrailingHeaderBytes (length rest))
                    else (case check_header h of Inl e \<Rightarrow> Inl e | Inr _ \<Rightarrow> Inr (h, need))))"

definition decode_header :: "vault_lib \<Rightarrow> bytes \<Rightarrow> format_error + header" where
  "decode_header D bs =
     (case decode_header_prefix D bs of Inl e \<Rightarrow> Inl e | Inr (h, _) \<Rightarrow> Inr h)"

record vault_file =
  vf_header :: header
  vf_aad :: bytes
  vf_ciphertext :: bytes

definition header_bytes :: "vault_lib \<Rightarrow> header \<Rightarrow> format_error + bytes" where
  "header_bytes D h =
     (case to_vec (header_codec D) h of
        Inl e \<Rightarrow> Inl (Encoding e)
      | Inr body \<Rightarrow>
          if length body > MAX_HEADER then Inl (HeaderTooLarge (length body))
          else Inr (MAGIC @ to_le_bytes (word_of_nat (length body)) @ body))"

definition vault_file_new :: "vault_lib \<Rightarrow> header \<Rightarrow> bytes \<Rightarrow> format_error + vault_file" where
  "vault_file_new D h ciphertext =
     (case header_bytes D h of
        Inl e \<Rightarrow> Inl e
      | Inr aad \<Rightarrow> Inr \<lparr>vf_header = h, vf_aad = aad, vf_ciphertext = ciphertext\<rparr>)"

definition vault_file_encode :: "vault_file \<Rightarrow> bytes" where
  "vault_file_encode f = vf_aad f @ vf_ciphertext f"

definition vault_file_decode :: "vault_lib \<Rightarrow> bytes \<Rightarrow> format_error + vault_file" where
  "vault_file_decode D bs =
     (case decode_header_prefix D bs of
        Inl e \<Rightarrow> Inl e
      | Inr (h, need) \<Rightarrow>
          Inr \<lparr>vf_header = h, vf_aad = take need bs, vf_ciphertext = drop need bs\<rparr>)"

definition encode_items :: "vault_lib \<Rightarrow> item list \<Rightarrow> format_error + bytes" where
  "encode_items D its = map_err Encoding (to_vec (items_codec D) its)"

definition decode_items :: "vault_lib \<Rightarrow> bytes \<Rightarrow> format_error + item list" where
  "decode_items D bs = map_err Encoding (from_bytes (items_codec D) bs)"

section \<open>Properties of the index\<close>

lemma map_ie_id_build_index [simp]: "map ie_id (build_index D salt its b) = map it_id its"
  by (simp add: build_index_def index_entry_of_def)

lemma attr_hashes_sorted: "e \<in> set (build_index D salt its b) \<Longrightarrow> sorted (attr_hashes e)"
  by (auto simp: build_index_def index_entry_of_def)

lemma matches_hashes_sorted:
  assumes "sorted (attr_hashes e)"
  shows "matches_hashes e qs \<longleftrightarrow> set qs \<subseteq> set (attr_hashes e)"
proof -
  have "list_all (\<lambda>h. binary_search (attr_hashes e) h \<noteq> None) qs \<longleftrightarrow> set qs \<subseteq> set (attr_hashes e)"
    unfolding binary_search_member [OF assms] by (auto simp: list_all_iff)
  then show ?thesis by (auto simp: matches_hashes_def)
qed

text \<open>An unlocked search compares the attribute pairs themselves.\<close>

definition item_matches :: "attrs \<Rightarrow> item \<Rightarrow> bool" where
  "item_matches query i = list_all (\<lambda>(k, v). map_of (it_attributes i) k = Some v) query"

text \<open>No pair of the query has the digest of a different pair of the item.\<close>

definition no_collision :: "'z crypto_lib_scheme \<Rightarrow> bytes \<Rightarrow> attrs \<Rightarrow> item \<Rightarrow> bool" where
  "no_collision D salt query i =
     list_all (\<lambda>(k, v). list_all (\<lambda>(k', v').
       attribute_hash D salt k v = attribute_hash D salt k' v' \<longrightarrow> k = k' \<and> v = v')
       (it_attributes i)) query"

lemma btree_distinct: "btree m \<Longrightarrow> distinct (map fst m)"
  by (simp add: btree_def strict_sorted_iff)

lemma item_matches_subset:
  "btree (it_attributes i) \<Longrightarrow> item_matches query i \<longleftrightarrow> set query \<subseteq> set (it_attributes i)"
  by (auto simp: item_matches_def list_all_iff btree_distinct)

lemma entry_matches_item:
  assumes "btree (it_attributes i)" "no_collision D salt query i"
  shows "entry_matches D (index_entry_of D salt True i) salt query \<longleftrightarrow> item_matches query i"
proof -
  let ?h = "\<lambda>(k, v). attribute_hash D salt k v"
  have "entry_matches D (index_entry_of D salt True i) salt query
      \<longleftrightarrow> ?h ` set query \<subseteq> ?h ` set (it_attributes i)"
    by (simp add: entry_matches_def matches_hashes_sorted index_entry_of_def hash_query_def)
  also have "\<dots> \<longleftrightarrow> set query \<subseteq> set (it_attributes i)"
    using assms(2) by (fastforce simp: no_collision_def list_all_iff)
  also have "\<dots> \<longleftrightarrow> item_matches query i"
    using assms(1) by (simp add: item_matches_subset)
  finally show ?thesis .
qed

lemma entry_matches_id_only:
  "entry_matches D (index_entry_of D salt False i) salt query \<longleftrightarrow> query = []"
  by (simp add: entry_matches_def matches_hashes_def index_entry_of_def hash_query_def)

lemma attribute_preimage_inj:
  assumes "attribute_preimage salt k v = attribute_preimage salt k' v'"
    and "str_len k < 2 ^ 32" "str_len k' < 2 ^ 32"
    and "\<forall>c\<in>set k. is_scalar c" "\<forall>c\<in>set k'. is_scalar c"
    and "\<forall>c\<in>set v. is_scalar c" "\<forall>c\<in>set v'. is_scalar c"
  shows "k = k' \<and> v = v'"
proof -
  let ?w = "\<lambda>s. word_of_nat (str_len s) :: u32"
  have "to_le_bytes (?w k) = to_le_bytes (?w k')"
    and rest: "str_bytes k @ str_bytes v = str_bytes k' @ str_bytes v'"
    using assms(1) by (simp_all add: attribute_preimage_def)
  then have "?w k = ?w k'" by (metis from_le_to_le)
  then have "unat (?w k) = unat (?w k')" by simp
  with assms(2,3) have "str_len k = str_len k'" by (simp add: unat_of_nat)
  with rest have "str_bytes k = str_bytes k'" "str_bytes v = str_bytes v'" by auto
  with assms(4-) show ?thesis by (blast intro: str_bytes_inj)
qed

section \<open>Properties of the file format\<close>

lemma header_prefix_len_bytes:
  assumes "length body \<le> MAX_HEADER"
  shows "header_prefix_len (MAGIC @ to_le_bytes (word_of_nat (length body)) @ rest)
    = Inr (PREFIX_LEN + length body)"
proof -
  let ?l = "to_le_bytes (word_of_nat (length body))"
  let ?bs = "MAGIC @ ?l @ rest"
  obtain a b c d where l: "?l = [a, b, c, d]"
    by (simp add: to_le_bytes_def)
  have "[?bs ! 8, ?bs ! 9, ?bs ! 10, ?bs ! 11] = ?l"
    by (simp add: l nth_append)
  then have "from_le_bytes [?bs ! 8, ?bs ! 9, ?bs ! 10, ?bs ! 11] = word_of_nat (length body)"
    by simp
  moreover have "unat (word_of_nat (length body) :: u32) = length body"
    using assms by (simp add: unat_of_nat MAX_HEADER_def)
  ultimately show ?thesis
    using assms by (simp add: header_prefix_len_def PREFIX_LEN_def)
qed

lemma header_prefix_len_InrD:
  "header_prefix_len bs = Inr need \<Longrightarrow>
     PREFIX_LEN \<le> need \<and> need \<le> PREFIX_LEN + MAX_HEADER \<and> take 8 bs = MAGIC \<and> PREFIX_LEN \<le> length bs"
  by (auto simp: header_prefix_len_def Let_def split: if_splits)

lemma header_bytes_InrD:
  "header_bytes D h = Inr aad \<Longrightarrow> \<exists>body. to_vec (header_codec D) h = Inr body
     \<and> length body \<le> MAX_HEADER \<and> aad = MAGIC @ to_le_bytes (word_of_nat (length body)) @ body"
  by (auto simp: header_bytes_def split: sum.splits if_splits)

lemma header_bytes_nonempty: "header_bytes D h = Inr aad \<Longrightarrow> aad \<noteq> []"
  by (auto dest!: header_bytes_InrD simp: MAGIC_def)

lemma decode_header_prefix_header_bytes:
  assumes "codec_correct (header_codec D)" "header_bytes D h = Inr aad" "check_header h = Inr ()"
  shows "decode_header_prefix D (aad @ rest) = Inr (h, length aad)"
proof -
  from assms(2) obtain body where body: "to_vec (header_codec D) h = Inr body"
    "length body \<le> MAX_HEADER" and aad: "aad = MAGIC @ to_le_bytes (word_of_nat (length body)) @ body"
    by (blast dest: header_bytes_InrD)
  have len: "length aad = PREFIX_LEN + length body" by (simp add: aad PREFIX_LEN_def)
  have "header_prefix_len (aad @ rest) = Inr (length aad)"
    using header_prefix_len_bytes [OF body(2), of "body @ rest"] by (simp add: aad len PREFIX_LEN_def)
  moreover have "drop PREFIX_LEN aad = body" by (simp add: aad PREFIX_LEN_def)
  ultimately show ?thesis
    using codec_take_exact [OF assms(1) body(1)] assms(3)
    by (simp add: decode_header_prefix_def)
qed

lemma decode_header_prefix_InrD:
  assumes "decode_header_prefix D bs = Inr (h, need)"
  shows "PREFIX_LEN \<le> need" "need \<le> PREFIX_LEN + MAX_HEADER" "need \<le> length bs"
    "take 8 bs = MAGIC" "check_header h = Inr ()"
  using assms
  by (auto simp: decode_header_prefix_def dest!: header_prefix_len_InrD
      split: sum.splits if_splits prod.splits)

lemma check_header_InrD: "check_header h = Inr () \<Longrightarrow> h_version h = VERSION \<and> validate (h_kdf h) = Inr ()"
  by (auto simp: check_header_def split: if_splits)

lemma vault_file_decode_header_bytes:
  assumes "codec_correct (header_codec D)" "header_bytes D h = Inr aad" "check_header h = Inr ()"
  shows "vault_file_decode D (aad @ ct) = Inr \<lparr>vf_header = h, vf_aad = aad, vf_ciphertext = ct\<rparr>"
  by (simp add: vault_file_decode_def decode_header_prefix_header_bytes [OF assms])

lemma decode_encode_items:
  "codec_correct (items_codec D) \<Longrightarrow> encode_items D its = Inr bs \<Longrightarrow> decode_items D bs = Inr its"
  by (simp add: encode_items_def decode_items_def codec_from_bytes)

end
