(* ===== verification/File_World.thy ===== *)
theory File_World
  imports Vault_Format "HOL-Library.AList"
begin

text \<open>
  The operating system as the program sees it, and the one atomic file write
  every writer shares (\<open>src/atomic.rs\<close>). A \<open>world\<close> is the file system, the
  number of effects performed so far (\<open>tick\<close>) and, for crash consistency,
  every file system that existed along the way (\<open>hist\<close>). The record \<open>env\<close> holds
  what the program does not control: the random number generator, the clock,
  fresh UUIDs and, for every effect, whether the kernel makes it fail. All
  theorems hold for every \<open>env\<close>, so every pattern of failures is covered.
\<close>

section \<open>State\<close>

type_synonym path = "ustr list"

datatype errno = EEXIST | ENOENT | EPERM | ENOSYS | EINVAL | EOPNOTSUPP | Errno nat

datatype io_error = Os errno | InvalidInput | RngBusy

record file_node =
  f_bytes :: bytes
  f_mode :: nat
  f_mtime :: u64
  f_regular :: bool

type_synonym file_system = "(path \<times> file_node) list"

record world =
  fs :: file_system
  dirs :: "(path \<times> nat) list"
  tick :: nat
  hist :: "file_system list"

record env =
  rng :: "nat \<Rightarrow> (nat \<Rightarrow> byte) option"
  clock :: "nat \<Rightarrow> u64"
  new_uuid :: "nat \<Rightarrow> ustr"
  fault :: "nat \<Rightarrow> errno option"
  short_write :: "nat \<Rightarrow> nat"

definition content :: "world \<Rightarrow> path \<Rightarrow> bytes option" where
  "content w p = map_option f_bytes (map_of (fs w) p)"

definition next_tick :: "world \<Rightarrow> world" where
  "next_tick w = w\<lparr>tick := Suc (tick w)\<rparr>"

definition set_fs :: "file_system \<Rightarrow> world \<Rightarrow> world" where
  "set_fs f w = w\<lparr>fs := f, hist := hist w @ [f]\<rparr>"

section \<open>Effects\<close>

definition try_random_bytes :: "env \<Rightarrow> nat \<Rightarrow> world \<Rightarrow> (crypto_error + bytes) \<times> world" where
  "try_random_bytes E n w =
     (case rng E (tick w) of
        None \<Rightarrow> (Inl Rng, next_tick w)
      | Some f \<Rightarrow> (Inr (map f [0..<n]), next_tick w))"

definition now :: "env \<Rightarrow> world \<Rightarrow> u64 \<times> world" where
  "now E w = (clock E (tick w), next_tick w)"

definition uuid_v4 :: "env \<Rightarrow> world \<Rightarrow> ustr \<times> world" where
  "uuid_v4 E w = (new_uuid E (tick w), next_tick w)"

text \<open>\<open>Path::parent\<close> and \<open>Path::file_name\<close>.\<close>

definition parent :: "path \<Rightarrow> path option" where
  "parent p = (if p = [] then None else Some (butlast p))"

definition file_name :: "path \<Rightarrow> ustr option" where
  "file_name p = (if p = [] then None else Some (last p))"

definition parent_or_dot :: "path \<Rightarrow> path" where
  "parent_or_dot p = (case parent p of Some d \<Rightarrow> d | None \<Rightarrow> [lit ''.''])"

text \<open>\<open>open(O_CREAT | O_EXCL)\<close>\<close>

definition sys_create_excl :: "env \<Rightarrow> path \<Rightarrow> nat \<Rightarrow> world \<Rightarrow> (errno + unit) \<times> world" where
  "sys_create_excl E p mode w =
     (case fault E (tick w) of
        Some e \<Rightarrow> (Inl e, next_tick w)
      | None \<Rightarrow>
          if map_of (fs w) p \<noteq> None \<or> map_of (dirs w) p \<noteq> None then (Inl EEXIST, next_tick w)
          else if map_of (dirs w) (parent_or_dot p) = None then (Inl ENOENT, next_tick w)
          else (Inr (), set_fs (AList.update p
                 \<lparr>f_bytes = [], f_mode = mode, f_mtime = clock E (tick w), f_regular = True\<rparr> (fs w))
                 (next_tick w)))"

text \<open>\<open>write_all\<close> on a file opened before; a failing write may leave a part of the data.\<close>

definition sys_write_all :: "env \<Rightarrow> path \<Rightarrow> bytes \<Rightarrow> world \<Rightarrow> (errno + unit) \<times> world" where
  "sys_write_all E p bs w =
     (case map_of (fs w) p of
        None \<Rightarrow> (case fault E (tick w) of Some e \<Rightarrow> Inl e | None \<Rightarrow> Inr (), next_tick w)
      | Some node \<Rightarrow>
          (case fault E (tick w) of
             Some e \<Rightarrow> (Inl e, set_fs (AList.update p
               (node\<lparr>f_bytes := take (short_write E (tick w)) bs\<rparr>) (fs w)) (next_tick w))
           | None \<Rightarrow> (Inr (), set_fs (AList.update p (node\<lparr>f_bytes := bs\<rparr>) (fs w)) (next_tick w))))"

definition sys_fsync :: "env \<Rightarrow> world \<Rightarrow> (errno + unit) \<times> world" where
  "sys_fsync E w = (case fault E (tick w) of Some e \<Rightarrow> Inl e | None \<Rightarrow> Inr (), next_tick w)"

definition sys_rename :: "env \<Rightarrow> path \<Rightarrow> path \<Rightarrow> world \<Rightarrow> (errno + unit) \<times> world" where
  "sys_rename E a b w =
     (case fault E (tick w) of
        Some e \<Rightarrow> (Inl e, next_tick w)
      | None \<Rightarrow>
          (case map_of (fs w) a of
             None \<Rightarrow> (Inl ENOENT, next_tick w)
           | Some node \<Rightarrow>
               (Inr (), set_fs (AList.update b node (AList.delete a (fs w))) (next_tick w))))"

text \<open>\<open>renameat2\<close> with \<open>RENAME_NOREPLACE\<close>\<close>

definition sys_rename_noreplace :: "env \<Rightarrow> path \<Rightarrow> path \<Rightarrow> world \<Rightarrow> (errno + unit) \<times> world" where
  "sys_rename_noreplace E a b w =
     (case fault E (tick w) of
        Some e \<Rightarrow> (Inl e, next_tick w)
      | None \<Rightarrow>
          (case map_of (fs w) a of
             None \<Rightarrow> (Inl ENOENT, next_tick w)
           | Some node \<Rightarrow>
               if map_of (fs w) b \<noteq> None \<or> map_of (dirs w) b \<noteq> None then (Inl EEXIST, next_tick w)
               else (Inr (), set_fs (AList.update b node (AList.delete a (fs w))) (next_tick w))))"

definition sys_unlink :: "env \<Rightarrow> path \<Rightarrow> world \<Rightarrow> (errno + unit) \<times> world" where
  "sys_unlink E p w =
     (case fault E (tick w) of
        Some e \<Rightarrow> (Inl e, next_tick w)
      | None \<Rightarrow>
          if map_of (fs w) p = None then (Inl ENOENT, next_tick w)
          else (Inr (), set_fs (AList.delete p (fs w)) (next_tick w)))"

definition sys_metadata :: "env \<Rightarrow> path \<Rightarrow> world \<Rightarrow> (errno + file_node) \<times> world" where
  "sys_metadata E p w =
     (case fault E (tick w) of
        Some e \<Rightarrow> (Inl e, next_tick w)
      | None \<Rightarrow>
          (case map_of (fs w) p of None \<Rightarrow> Inl ENOENT | Some n \<Rightarrow> Inr n, next_tick w))"

definition sys_read :: "env \<Rightarrow> path \<Rightarrow> world \<Rightarrow> (errno + bytes) \<times> world" where
  "sys_read E p w =
     (case fault E (tick w) of
        Some e \<Rightarrow> (Inl e, next_tick w)
      | None \<Rightarrow>
          (case content w p of None \<Rightarrow> Inl ENOENT | Some bs \<Rightarrow> Inr bs, next_tick w))"

section \<open>How effects act\<close>

text \<open>
  \<open>keeps p w w'\<close>: the file at \<open>p\<close> is the same before and after, and was the same
  in every file system in between. \<open>between p cs w w'\<close>: at every moment in
  between the content of \<open>p\<close> was one of \<open>cs\<close>.
\<close>

definition content_of :: "file_system \<Rightarrow> path \<Rightarrow> bytes option" where
  "content_of f p = map_option f_bytes (map_of f p)"

definition between :: "path \<Rightarrow> bytes option set \<Rightarrow> world \<Rightarrow> world \<Rightarrow> bool" where
  "between p cs w w' \<longleftrightarrow>
     (\<exists>hs. hist w' = hist w @ hs \<and> (\<forall>f\<in>set hs. content_of f p \<in> cs))
     \<and> (content w p \<in> cs \<longrightarrow> content w' p \<in> cs)"

definition keeps :: "path \<Rightarrow> world \<Rightarrow> world \<Rightarrow> bool" where
  "keeps p w w' \<longleftrightarrow> map_of (fs w') p = map_of (fs w) p \<and> between p {content w p} w w'"

lemma content_content_of: "content w p = content_of (fs w) p"
  by (simp add: content_def content_of_def)

lemma keeps_content: "keeps p w w' \<Longrightarrow> content w' p = content w p"
  by (simp add: keeps_def content_def)

lemma keeps_refl [simp]: "keeps p w w"
  by (simp add: keeps_def between_def)

lemma between_refl [simp]: "between p cs w w"
  by (simp add: between_def)

lemma between_trans: "between p cs w w1 \<Longrightarrow> between p cs w1 w2 \<Longrightarrow> between p cs w w2"
  unfolding between_def by (metis (no_types, lifting) UnE append.assoc set_append)

lemma between_mono: "between p cs w w1 \<Longrightarrow> cs \<subseteq> cs' \<Longrightarrow> content w p \<in> cs \<Longrightarrow> between p cs' w w1"
  unfolding between_def by blast

lemma keeps_between: "keeps p w w1 \<Longrightarrow> content w p \<in> cs \<Longrightarrow> between p cs w w1"
  using between_mono [of p "{content w p}" w w1 cs] by (simp add: keeps_def)

lemma keeps_trans: "keeps p w w1 \<Longrightarrow> keeps p w1 w2 \<Longrightarrow> keeps p w w2"
  using between_trans [of p "{content w p}" w w1 w2] keeps_content [of p w w1]
  by (auto simp: keeps_def)

lemma keeps_next_tick [simp]: "keeps p w (next_tick w)"
  by (simp add: keeps_def between_def next_tick_def content_def)

lemma keeps_set_fs:
  "map_of f p = map_of (fs w) p \<Longrightarrow> keeps p w (set_fs f (next_tick w))"
  by (simp add: keeps_def between_def next_tick_def set_fs_def content_def content_of_def)

lemma between_set_fs:
  "content_of f p \<in> cs \<Longrightarrow> between p cs w (set_fs f (next_tick w))"
  by (simp add: between_def next_tick_def set_fs_def content_def content_of_def)

lemma world_unchanged [world_simps]:
  "fs (next_tick w) = fs w" "dirs (next_tick w) = dirs w"
  "fs (set_fs f w) = f" "dirs (set_fs f w) = dirs w"
  by (simp_all add: next_tick_def set_fs_def)

text \<open>Effects that do not write leave every file as it is.\<close>

lemma try_random_bytes_keeps: "keeps p w (snd (try_random_bytes E n w))"
  by (simp add: try_random_bytes_def split: option.splits)

lemma try_random_bytes_world: "snd (try_random_bytes E n w) = next_tick w"
  by (simp add: try_random_bytes_def split: option.splits)

lemma try_random_bytes_length: "try_random_bytes E n w = (Inr bs, w') \<Longrightarrow> length bs = n"
  by (auto simp: try_random_bytes_def split: option.splits)

lemma sys_fsync_keeps: "keeps p w (snd (sys_fsync E w))"
  by (simp add: sys_fsync_def)

lemma sys_metadata_world: "snd (sys_metadata E p w) = next_tick w"
  by (simp add: sys_metadata_def split: option.splits)

lemma sys_read_world: "snd (sys_read E p w) = next_tick w"
  by (simp add: sys_read_def split: option.splits)

text \<open>Effects that write leave every other file as it is.\<close>

lemma sys_create_excl_keeps: "q \<noteq> p \<Longrightarrow> keeps q w (snd (sys_create_excl E p m w))"
  by (auto simp: sys_create_excl_def update_conv' intro!: keeps_set_fs split: option.splits)

lemma sys_write_all_keeps: "q \<noteq> p \<Longrightarrow> keeps q w (snd (sys_write_all E p bs w))"
  by (auto simp: sys_write_all_def update_conv' intro!: keeps_set_fs split: option.splits)

lemma sys_unlink_keeps: "q \<noteq> p \<Longrightarrow> keeps q w (snd (sys_unlink E p w))"
  by (auto simp: sys_unlink_def delete_conv' intro!: keeps_set_fs split: option.splits)

lemma sys_rename_keeps: "q \<noteq> a \<Longrightarrow> q \<noteq> b \<Longrightarrow> keeps q w (snd (sys_rename E a b w))"
  by (auto simp: sys_rename_def update_conv' delete_conv' intro!: keeps_set_fs split: option.splits)

lemma sys_rename_noreplace_keeps:
  "q \<noteq> a \<Longrightarrow> q \<noteq> b \<Longrightarrow> keeps q w (snd (sys_rename_noreplace E a b w))"
  by (auto simp: sys_rename_noreplace_def update_conv' delete_conv' intro!: keeps_set_fs
      split: option.splits)

text \<open>A failing system call on a name leaves that name alone (a failing write apart).\<close>

lemma sys_create_excl_Inl: "sys_create_excl E p m w = (Inl e, w') \<Longrightarrow> w' = next_tick w"
  by (auto simp: sys_create_excl_def split: option.splits if_splits)

lemma sys_create_excl_existing:
  "map_of (fs w) p \<noteq> None \<Longrightarrow> \<exists>e. sys_create_excl E p m w = (Inl e, next_tick w)"
  by (cases "fault E (tick w)") (simp_all add: sys_create_excl_def)

lemma sys_create_excl_Inr:
  "sys_create_excl E p m w = (Inr u, w') \<Longrightarrow> map_of (fs w) p = None \<and>
     map_of (fs w') p = Some \<lparr>f_bytes = [], f_mode = m, f_mtime = clock E (tick w), f_regular = True\<rparr>"
  by (auto simp: sys_create_excl_def update_conv' world_simps split: option.splits if_splits)

lemma sys_write_all_Inr:
  "sys_write_all E p bs w = (Inr u, w') \<Longrightarrow> map_of (fs w) p = Some n \<Longrightarrow>
     map_of (fs w') p = Some (n\<lparr>f_bytes := bs\<rparr>)"
  by (auto simp: sys_write_all_def update_conv' world_simps split: option.splits)

lemma sys_fsync_world: "sys_fsync E w = (r, w') \<Longrightarrow> w' = next_tick w"
  by (auto simp: sys_fsync_def)

lemma sys_rename_Inl: "sys_rename E a b w = (Inl e, w') \<Longrightarrow> w' = next_tick w"
  by (auto simp: sys_rename_def split: option.splits)

lemma sys_rename_Inr:
  "sys_rename E a b w = (Inr u, w') \<Longrightarrow> a \<noteq> b \<Longrightarrow>
     \<exists>n. map_of (fs w) a = Some n \<and> map_of (fs w') b = Some n \<and> map_of (fs w') a = None
       \<and> between b {content w b, Some (f_bytes n)} w w'"
  by (auto simp: sys_rename_def update_conv' delete_conv' world_simps content_of_def
      intro!: between_set_fs split: option.splits)

lemma sys_rename_noreplace_Inl: "sys_rename_noreplace E a b w = (Inl e, w') \<Longrightarrow> w' = next_tick w"
  by (auto simp: sys_rename_noreplace_def split: option.splits if_splits)

lemma sys_rename_noreplace_Inr:
  "sys_rename_noreplace E a b w = (Inr u, w') \<Longrightarrow> a \<noteq> b \<Longrightarrow>
     \<exists>n. map_of (fs w) a = Some n \<and> map_of (fs w) b = None \<and> map_of (fs w') b = Some n
       \<and> map_of (fs w') a = None"
  by (auto simp: sys_rename_noreplace_def update_conv' delete_conv' world_simps
      split: option.splits if_splits)

lemma sys_unlink_Inl: "sys_unlink E p w = (Inl e, w') \<Longrightarrow> w' = next_tick w"
  by (auto simp: sys_unlink_def split: option.splits if_splits)

lemma sys_unlink_Inr:
  "sys_unlink E p w = (Inr u, w') \<Longrightarrow> map_of (fs w) p \<noteq> None \<and> map_of (fs w') p = None"
  by (auto simp: sys_unlink_def delete_conv' world_simps split: option.splits if_splits)

text \<open>Composing effects: the shape every sequence of fallible calls has.\<close>

lemma keeps_case_sum:
  assumes "keeps q w (snd m)"
    and "\<And>e w1. keeps q w1 (snd (f e w1))" and "\<And>a w1. keeps q w1 (snd (g a w1))"
  shows "keeps q w (snd (case m of (r, w1) \<Rightarrow> (case r of Inl e \<Rightarrow> f e w1 | Inr a \<Rightarrow> g a w1)))"
proof (cases m)
  case (Pair r w1)
  with assms(1) have "keeps q w w1" by simp
  with assms(2,3) Pair show ?thesis by (cases r) (auto intro: keeps_trans)
qed

lemma keeps_case_bool:
  assumes "keeps q w (snd m)"
    and "\<And>w1. keeps q w1 (snd (f w1))" and "\<And>w1. keeps q w1 (snd (g w1))"
  shows "keeps q w (snd (case m of (r, w1) \<Rightarrow> (case r of True \<Rightarrow> f w1 | False \<Rightarrow> g w1)))"
proof (cases m)
  case (Pair r w1)
  with assms(1) have "keeps q w w1" by simp
  with assms(2,3) Pair show ?thesis by (cases r) (auto intro: keeps_trans)
qed

lemma keeps_if: "keeps q w (snd a) \<Longrightarrow> keeps q w (snd b) \<Longrightarrow> keeps q w (snd (if c then a else b))"
  by simp

lemmas keeps_compose = keeps_case_sum keeps_case_bool keeps_if

section \<open>The atomic write\<close>

definition temp_name :: "ustr \<Rightarrow> bytes \<Rightarrow> ustr" where
  "temp_name name suf =
     name @ lit ''.'' @ concat (map (\<lambda>b. hex_byte (unat b)) suf) @ lit ''.tmp''"

text \<open>The closure \<open>write\<close>: create, write, \<open>fsync\<close>, rename over the target.\<close>

definition write_steps :: "env \<Rightarrow> path \<Rightarrow> path \<Rightarrow> bytes \<Rightarrow> nat \<Rightarrow> world \<Rightarrow> (errno + unit) \<times> world" where
  "write_steps E temp p bs mode w =
     (case sys_create_excl E temp mode w of
        (Inl e, w1) \<Rightarrow> (Inl e, w1)
      | (Inr _, w1) \<Rightarrow>
          (case sys_write_all E temp bs w1 of
             (Inl e, w2) \<Rightarrow> (Inl e, w2)
           | (Inr _, w2) \<Rightarrow>
               (case sys_fsync E w2 of
                  (Inl e, w3) \<Rightarrow> (Inl e, w3)
                | (Inr _, w3) \<Rightarrow> sys_rename E temp p w3)))"

definition write_atomic :: "env \<Rightarrow> path \<Rightarrow> bytes \<Rightarrow> nat \<Rightarrow> world \<Rightarrow> (io_error + unit) \<times> world" where
  "write_atomic E p bs mode w =
     (let dir = parent_or_dot p;
          name = (case file_name p of Some n \<Rightarrow> n | None \<Rightarrow> lit ''tmp'')
      in case try_random_bytes E 8 w of
           (Inl _, w1) \<Rightarrow> (Inl RngBusy, w1)
         | (Inr suf, w1) \<Rightarrow>
             let temp = dir @ [temp_name name suf]
             in case write_steps E temp p bs mode w1 of
                  (Inr _, w2) \<Rightarrow> (Inr (), snd (sys_fsync E w2))
                | (Inl e, w2) \<Rightarrow> (Inl (Os e), snd (sys_unlink E temp w2)))"

lemma temp_name_longer: "length (temp_name name suf) > length name"
  by (simp add: temp_name_def)

lemma temp_path_neq: "parent_or_dot p @ [temp_name (case file_name p of Some n \<Rightarrow> n | None \<Rightarrow> d) suf] \<noteq> p"
proof (cases "p = []")
  case False
  have "temp_name (last p) suf \<noteq> last p"
    using temp_name_longer [of "last p" suf] by auto
  with False show ?thesis
    by (metis file_name_def last_snoc option.case(2))
qed simp

lemma write_steps_Inl:
  assumes "write_steps E temp p bs mode w = (Inl e, w')" "temp \<noteq> p"
  shows "keeps p w w'"
proof -
  obtain r1 w1 where c: "sys_create_excl E temp mode w = (r1, w1)" by fastforce
  obtain r2 w2 where wr: "sys_write_all E temp bs w1 = (r2, w2)" by fastforce
  obtain r3 w3 where f: "sys_fsync E w2 = (r3, w3)" by fastforce
  have k1: "keeps p w w1" using sys_create_excl_keeps [of p temp w E mode] assms(2) c by simp
  have k2: "keeps p w1 w2" using sys_write_all_keeps [of p temp w1 E bs] assms(2) wr by simp
  have k3: "keeps p w2 w3" using sys_fsync_keeps [of p w2 E] f by simp
  have k4: "sys_rename E temp p w3 = (Inl e, w') \<Longrightarrow> keeps p w3 w'"
    by (auto dest: sys_rename_Inl)
  note ks = k1 keeps_trans [OF k1 k2] keeps_trans [OF keeps_trans [OF k1 k2] k3]
  show ?thesis
    using assms(1) c wr f ks keeps_trans [OF ks(3) k4]
    by (auto simp: write_steps_def split: sum.splits)
qed

lemma write_steps_Inr:
  assumes "write_steps E temp p bs mode w = (Inr u, w')" "temp \<noteq> p"
  shows "map_of (fs w') p
      = Some \<lparr>f_bytes = bs, f_mode = mode, f_mtime = clock E (tick w), f_regular = True\<rparr>"
    and "map_of (fs w') temp = None"
    and "between p {content w p, Some bs} w w'"
proof -
  obtain r1 w1 where c: "sys_create_excl E temp mode w = (r1, w1)" by fastforce
  obtain r2 w2 where wr: "sys_write_all E temp bs w1 = (r2, w2)" by fastforce
  obtain r3 w3 where f: "sys_fsync E w2 = (r3, w3)" by fastforce
  from assms(1) c wr f have ok: "r1 = Inr ()" "r2 = Inr ()" "r3 = Inr ()"
    and rn: "sys_rename E temp p w3 = (Inr u, w')"
    by (auto simp: write_steps_def split: sum.splits)
  let ?n = "\<lparr>f_bytes = bs, f_mode = mode, f_mtime = clock E (tick w), f_regular = True\<rparr>"
  have "map_of (fs w2) temp = Some ?n"
    using sys_create_excl_Inr [of E temp mode w] sys_write_all_Inr [of E temp bs w1] c wr ok by simp
  moreover have w3: "w3 = next_tick w2" using f by (rule sys_fsync_world)
  ultimately have n: "map_of (fs w3) temp = Some ?n" by (simp add: world_simps)
  have "keeps p w w1" using sys_create_excl_keeps [of p temp w E mode] assms(2) c by simp
  moreover have "keeps p w1 w2" using sys_write_all_keeps [of p temp w1 E bs] assms(2) wr by simp
  ultimately have k: "keeps p w w3" unfolding w3 by (metis keeps_trans keeps_next_tick)
  from sys_rename_Inr [OF rn assms(2)] n
  show "map_of (fs w') p = Some ?n" "map_of (fs w') temp = None" by auto
  have "between p {content w p, Some bs} w3 w'"
    using sys_rename_Inr [OF rn assms(2)] n keeps_content [OF k] by auto
  with keeps_between [OF k] show "between p {content w p, Some bs} w w'"
    by (blast intro: between_trans)
qed

lemma write_atomic_Inl:
  assumes "write_atomic E p bs mode w = (Inl e, w')"
  shows "keeps p w w'"
proof -
  obtain r1 w1 where r: "try_random_bytes E 8 w = (r1, w1)" by fastforce
  have k1: "keeps p w w1" using try_random_bytes_keeps [of p w E 8] r by simp
  show ?thesis
  proof (cases r1)
    case (Inl c)
    with assms r k1 show ?thesis by (simp add: write_atomic_def)
  next
    case (Inr suf)
    define temp where
      "temp = parent_or_dot p @ [temp_name (case file_name p of Some n \<Rightarrow> n | None \<Rightarrow> lit ''tmp'') suf]"
    have ne: "temp \<noteq> p" unfolding temp_def by (rule temp_path_neq)
    obtain e' w2 where ws: "write_steps E temp p bs mode w1 = (Inl e', w2)"
      and w': "w' = snd (sys_unlink E temp w2)"
      using assms r Inr by (auto simp: write_atomic_def Let_def temp_def split: prod.splits sum.splits)
    have "keeps p w1 w2" using ws ne by (rule write_steps_Inl)
    moreover have "keeps p w2 w'" unfolding w' using ne by (intro sys_unlink_keeps) simp
    ultimately show ?thesis using k1 by (blast intro: keeps_trans)
  qed
qed

lemma write_atomic_Inr:
  assumes "write_atomic E p bs mode w = (Inr u, w')"
  shows "content w' p = Some bs" and "between p {content w p, Some bs} w w'"
    and "map_option f_mode (map_of (fs w') p) = Some mode"
proof -
  obtain suf w1 where r: "try_random_bytes E 8 w = (Inr suf, w1)"
    using assms by (auto simp: write_atomic_def Let_def split: prod.splits sum.splits)
  have k1: "keeps p w w1" using try_random_bytes_keeps [of p w E 8] r by simp
  define temp where
    "temp = parent_or_dot p @ [temp_name (case file_name p of Some n \<Rightarrow> n | None \<Rightarrow> lit ''tmp'') suf]"
  have ne: "temp \<noteq> p" unfolding temp_def by (rule temp_path_neq)
  obtain v w2 where ws: "write_steps E temp p bs mode w1 = (Inr v, w2)"
    and w': "w' = snd (sys_fsync E w2)"
    using assms r by (auto simp: write_atomic_def Let_def temp_def split: prod.splits sum.splits)
  have k2: "keeps p w2 w'" unfolding w' by (rule sys_fsync_keeps)
  note ws' = write_steps_Inr [OF ws ne]
  from ws'(1) k2 show "content w' p = Some bs" and m: "map_option f_mode (map_of (fs w') p) = Some mode"
    by (simp_all add: keeps_def content_def)
  have c2: "content w2 p = Some bs" using ws'(1) by (simp add: content_def)
  have "between p {content w p, Some bs} w w1" using keeps_between [OF k1] by simp
  moreover have "between p {content w p, Some bs} w1 w2" using ws'(3) keeps_content [OF k1] by simp
  ultimately have "between p {content w p, Some bs} w w2" by (rule between_trans)
  moreover have "between p {content w p, Some bs} w2 w'"
    using keeps_between [OF k2] c2 by simp
  ultimately show "between p {content w p, Some bs} w w'" by (rule between_trans)
qed

end
