(* ===== verification/Vault_Files.thy ===== *)
theory Vault_Files
  imports File_World
begin

text \<open>
  The file half of \<open>src/vault/store.rs\<close>: creating the vault directory, the
  temp files a save leaves behind when it is interrupted and the sweep that
  removes them, and the two ways a finished vault is published at its path -
  \<open>write_atomic\<close> replaces what is there, \<open>publish_new\<close> refuses to. Both are
  instances of the interface \<open>publisher\<close>, which is all that \<open>Vault::save_with\<close>
  relies on.
\<close>

section \<open>Errors\<close>

datatype vault_error =
    VLocked
  | VRetired
  | WrongPassword
  | NoSuchItem ustr
  | AlreadyExists path
  | SaltReused
  | LabelTooLong nat nat
  | ItemTooLarge ustr nat nat
  | ImportTooLarge nat ustr ustr nat nat
  | VFormat format_error
  | VCrypto crypto_error
  | VIo path io_error

definition io_err :: "path \<Rightarrow> io_error \<Rightarrow> vault_error" where
  "io_err p e = VIo p e"

section \<open>Temp files\<close>

definition strip_suffix :: "ustr \<Rightarrow> ustr \<Rightarrow> ustr option" where
  "strip_suffix suf s =
     (let n = length s - length suf
      in if length suf \<le> length s \<and> drop n s = suf then Some (take n s) else None)"

definition rsplit_once :: "uchar \<Rightarrow> ustr \<Rightarrow> (ustr \<times> ustr) option" where
  "rsplit_once c s =
     (case position (\<lambda>x. x = c) (rev s) of
        None \<Rightarrow> None
      | Some i \<Rightarrow> let n = length s - Suc i in Some (take n s, drop (Suc n) s))"

definition lower_hex_byte :: "nat \<Rightarrow> bool" where
  "lower_hex_byte b \<longleftrightarrow> (48 \<le> b \<and> b \<le> 57) \<or> (97 \<le> b \<and> b \<le> 102)"

definition is_write_atomic_temp_name :: "ustr \<Rightarrow> bool" where
  "is_write_atomic_temp_name name =
     (case strip_suffix (lit ''.tmp'') name of
        None \<Rightarrow> False
      | Some rest \<Rightarrow>
          (case rsplit_once (of_char CHR ''.'') rest of
             None \<Rightarrow> False
           | Some (stem, hex) \<Rightarrow>
               (case strip_suffix (lit ''.vault'') stem of Some base \<Rightarrow> base \<noteq> [] | None \<Rightarrow> False)
               \<and> (str_len hex = 16 \<and> list_all lower_hex_byte (as_bytes hex))))"

definition STALE_TEMP_AGE :: u64 where
  "STALE_TEMP_AGE = 5 * 60"

text \<open>The names of a directory, as \<open>read_dir\<close> lists them.\<close>

definition read_dir :: "world \<Rightarrow> path \<Rightarrow> path list" where
  "read_dir w dir = filter (\<lambda>p. p \<noteq> [] \<and> butlast p = dir) (map fst (fs w))"

text \<open>The sweep's loop over directory entries; an entry that cannot be read is skipped.\<close>

fun sweep_loop :: "env \<Rightarrow> u64 \<Rightarrow> u64 \<Rightarrow> path list \<Rightarrow> nat \<Rightarrow> world \<Rightarrow> nat \<times> world" where
  "sweep_loop E t min_age [] removed w = (removed, w)"
| "sweep_loop E t min_age (p # ps) removed w =
     (case fault E (tick w) of
        Some _ \<Rightarrow> sweep_loop E t min_age ps removed (next_tick w)
      | None \<Rightarrow>
          if \<not> is_write_atomic_temp_name (last p)
          then sweep_loop E t min_age ps removed (next_tick w)
          else (case sys_metadata E p (next_tick w) of
                  (Inl _, w1) \<Rightarrow> sweep_loop E t min_age ps removed w1
                | (Inr meta, w1) \<Rightarrow>
                    if \<not> f_regular meta then sweep_loop E t min_age ps removed w1
                    else let stale = (if f_mtime meta \<le> t then t - f_mtime meta \<ge> min_age else True)
                         in if stale
                            then (case sys_unlink E p w1 of
                                    (Inr _, w2) \<Rightarrow> sweep_loop E t min_age ps (Suc removed) w2
                                  | (Inl _, w2) \<Rightarrow> sweep_loop E t min_age ps removed w2)
                            else sweep_loop E t min_age ps removed w1))"

definition sweep_temp_files :: "env \<Rightarrow> path \<Rightarrow> u64 \<Rightarrow> world \<Rightarrow> nat \<times> world" where
  "sweep_temp_files E dir min_age w =
     (case fault E (tick w) of
        Some _ \<Rightarrow> (0, next_tick w)
      | None \<Rightarrow>
          let (t, w1) = now E (next_tick w)
          in sweep_loop E t min_age (read_dir w dir) 0 w1)"

definition sweep_stale_temp_files :: "env \<Rightarrow> path \<Rightarrow> world \<Rightarrow> nat \<times> world" where
  "sweep_stale_temp_files E dir w = sweep_temp_files E dir STALE_TEMP_AGE w"

section \<open>Writing\<close>

definition MODE_DIR :: nat where "MODE_DIR = 448"
definition MODE_FILE :: nat where "MODE_FILE = 384"

text \<open>\<open>DirBuilder::recursive(true).mode(0o700).create\<close>: only missing directories are made.\<close>

definition add_dir :: "(path \<times> nat) list \<Rightarrow> path \<Rightarrow> (path \<times> nat) list" where
  "add_dir ds d = (if map_of ds d = None then AList.update d MODE_DIR ds else ds)"

definition ensure_vault_dir :: "env \<Rightarrow> path \<Rightarrow> world \<Rightarrow> (io_error + unit) \<times> world" where
  "ensure_vault_dir E dir w =
     (case fault E (tick w) of
        Some e \<Rightarrow> (Inl (Os e), next_tick w)
      | None \<Rightarrow>
          if map_of (fs w) dir \<noteq> None then (Inl (Os EEXIST), next_tick w)
          else let w1 = (next_tick w)\<lparr>dirs := foldl add_dir (dirs w) (prefixes dir)\<rparr>
               in case fault E (tick w1) of
                    Some _ \<Rightarrow> (Inr (), next_tick w1)
                  | None \<Rightarrow> (Inr (), next_tick (w1\<lparr>dirs := AList.update dir MODE_DIR (dirs w1)\<rparr>)))"

definition write_temp :: "env \<Rightarrow> path \<Rightarrow> bytes \<Rightarrow> world \<Rightarrow> (vault_error + path) \<times> world" where
  "write_temp E p bs w =
     (let dir = parent_or_dot p
      in case ensure_vault_dir E dir w of
           (Inl e, w1) \<Rightarrow> (Inl (io_err dir e), w1)
         | (Inr _, w1) \<Rightarrow>
             let stem = (case file_name p of Some n \<Rightarrow> n | None \<Rightarrow> lit ''vault'')
             in case try_random_bytes E 8 w1 of
                  (Inl e, w2) \<Rightarrow> (Inl (VCrypto e), w2)
                | (Inr suf, w2) \<Rightarrow>
                    let tmp = dir @ [temp_name stem suf]
                    in case sys_create_excl E tmp MODE_FILE w2 of
                         (Inl e, w3) \<Rightarrow> (Inl (io_err tmp (Os e)), w3)
                       | (Inr _, w3) \<Rightarrow>
                           (case sys_write_all E tmp bs w3 of
                              (Inl e, w4) \<Rightarrow> (Inl (io_err tmp (Os e)), snd (sys_unlink E tmp w4))
                            | (Inr _, w4) \<Rightarrow>
                                (case sys_fsync E w4 of
                                   (Inl e, w5) \<Rightarrow> (Inl (io_err tmp (Os e)), snd (sys_unlink E tmp w5))
                                 | (Inr _, w5) \<Rightarrow> (Inr tmp, w5))))"

definition sync_dir :: "env \<Rightarrow> world \<Rightarrow> world" where
  "sync_dir E w = snd (sys_fsync E w)"

definition vault_write_atomic :: "env \<Rightarrow> path \<Rightarrow> bytes \<Rightarrow> world \<Rightarrow> (vault_error + unit) \<times> world" where
  "vault_write_atomic E p bs w =
     (let dir = parent_or_dot p
      in case ensure_vault_dir E dir w of
           (Inl e, w1) \<Rightarrow> (Inl (io_err dir e), w1)
         | (Inr _, w1) \<Rightarrow>
             (case write_atomic E p bs MODE_FILE w1 of
                (Inl e, w2) \<Rightarrow> (Inl (io_err p e), w2)
              | (Inr _, w2) \<Rightarrow> (Inr (), w2)))"

text \<open>\<open>CString::new\<close> refuses an interior NUL.\<close>

definition rename_noreplace :: "env \<Rightarrow> path \<Rightarrow> path \<Rightarrow> world \<Rightarrow> (io_error + unit) \<times> world" where
  "rename_noreplace E a b w =
     (if 0 \<in> set (concat a) \<or> 0 \<in> set (concat b) then (Inl InvalidInput, w)
      else case sys_rename_noreplace E a b w of
             (Inl e, w1) \<Rightarrow> (Inl (Os e), w1)
           | (Inr _, w1) \<Rightarrow> (Inr (), w1))"

definition is_empty_file :: "env \<Rightarrow> path \<Rightarrow> world \<Rightarrow> bool \<times> world" where
  "is_empty_file E p w =
     (case sys_metadata E p w of
        (Inl _, w1) \<Rightarrow> (False, w1)
      | (Inr m, w1) \<Rightarrow> (f_regular m \<and> f_bytes m = [], w1))"

text \<open>\<open>is_empty_file(path) && remove_file(path).is_ok()\<close>\<close>

definition reclaim_empty :: "env \<Rightarrow> path \<Rightarrow> world \<Rightarrow> bool \<times> world" where
  "reclaim_empty E p w =
     (case is_empty_file E p w of
        (False, w1) \<Rightarrow> (False, w1)
      | (True, w1) \<Rightarrow> (case sys_unlink E p w1 of (Inr _, w2) \<Rightarrow> (True, w2) | (Inl _, w2) \<Rightarrow> (False, w2)))"

definition publish_new_via_reservation ::
  "env \<Rightarrow> path \<Rightarrow> path \<Rightarrow> world \<Rightarrow> (vault_error + unit) \<times> world" where
  "publish_new_via_reservation E tmp p w =
     (let claim = (\<lambda>w1. case sys_rename E tmp p w1 of
            (Inr _, w2) \<Rightarrow> (Inr (), w2)
          | (Inl e, w2) \<Rightarrow> (Inl (io_err p (Os e)), snd (sys_unlink E p w2)))
      in case sys_create_excl E p MODE_FILE w of
           (Inr _, w1) \<Rightarrow> claim w1
         | (Inl e, w1) \<Rightarrow>
             if e = EEXIST
             then (case reclaim_empty E p w1 of
                     (False, w2) \<Rightarrow> (Inl (AlreadyExists p), w2)
                   | (True, w2) \<Rightarrow>
                       (case sys_create_excl E p MODE_FILE w2 of
                          (Inl _, w3) \<Rightarrow> (Inl (AlreadyExists p), w3)
                        | (Inr _, w3) \<Rightarrow> claim w3))
             else (Inl (io_err p (Os e)), w1))"

text \<open>The closure \<open>finish\<close> of \<open>publish_new\<close>.\<close>

definition publish_finish ::
  "env \<Rightarrow> path \<Rightarrow> (vault_error + unit) \<times> world \<Rightarrow> (vault_error + unit) \<times> world" where
  "publish_finish E tmp rw =
     (case rw of
        (Inr _, w) \<Rightarrow> (Inr (), sync_dir E w)
      | (Inl e, w) \<Rightarrow> (Inl e, snd (sys_unlink E tmp w)))"

definition publish_new :: "env \<Rightarrow> path \<Rightarrow> bytes \<Rightarrow> world \<Rightarrow> (vault_error + unit) \<times> world" where
  "publish_new E p bs w =
     (case write_temp E p bs w of
        (Inl e, w1) \<Rightarrow> (Inl e, w1)
      | (Inr tmp, w1) \<Rightarrow>
          (case rename_noreplace E tmp p w1 of
             (Inr _, w2) \<Rightarrow> publish_finish E tmp (Inr (), w2)
           | (Inl e, w2) \<Rightarrow>
               if e = Os EEXIST
               then (case reclaim_empty E p w2 of
                       (True, w3) \<Rightarrow>
                         publish_finish E tmp
                           (case rename_noreplace E tmp p w3 of
                              (Inr _, w4) \<Rightarrow> (Inr (), w4)
                            | (Inl e', w4) \<Rightarrow>
                                (Inl (if e' = Os EEXIST then AlreadyExists p else io_err p e'), w4))
                     | (False, w3) \<Rightarrow> publish_finish E tmp (Inl (AlreadyExists p), w3))
               else if e \<in> {Os ENOSYS, Os EINVAL, Os EOPNOTSUPP, Os EPERM}
               then publish_finish E tmp (publish_new_via_reservation E tmp p w2)
               else publish_finish E tmp (Inl (io_err p e), w2)))"

section \<open>The names of temp files\<close>

lemma strip_suffix_Some_iff: "strip_suffix suf s = Some r \<longleftrightarrow> s = r @ suf"
proof
  assume "strip_suffix suf s = Some r"
  then have "drop (length s - length suf) s = suf" "r = take (length s - length suf) s"
    by (auto simp: strip_suffix_def Let_def split: if_splits)
  then show "s = r @ suf" using append_take_drop_id [of "length s - length suf" s] by simp
qed (simp add: strip_suffix_def)

lemma position_append_None:
  "\<forall>x\<in>set xs. \<not> P x \<Longrightarrow> position P (xs @ ys) = map_option (\<lambda>i. i + length xs) (position P ys)"
  by (induction xs) (auto simp: option.map_comp comp_def option.map_ident)

lemma rsplit_once_Some_iff: "rsplit_once c s = Some (a, b) \<longleftrightarrow> s = a @ c # b \<and> c \<notin> set b"
proof
  assume "rsplit_once c s = Some (a, b)"
  then obtain i where i: "position (\<lambda>x. x = c) (rev s) = Some i"
    and a: "a = take (length s - Suc i) s" and b: "b = drop (Suc (length s - Suc i)) s"
    by (auto simp: rsplit_once_def Let_def split: option.splits)
  from position_SomeD [OF i] have lt: "i < length s" and at: "rev s ! i = c"
    and before: "\<And>j. j < i \<Longrightarrow> rev s ! j \<noteq> c" by auto
  let ?k = "length s - Suc i"
  have "s ! ?k = c" using at lt by (simp add: rev_nth)
  moreover have "s = take ?k s @ s ! ?k # drop (Suc ?k) s" using lt by (intro id_take_nth_drop) simp
  ultimately have "s = a @ c # b" by (simp only: a b)
  moreover have "c \<notin> set b"
  proof
    assume "c \<in> set b"
    then obtain k where k: "k < length b" "b ! k = c" by (auto simp: in_set_conv_nth)
    let ?n = "Suc (length s - Suc i) + k"
    have n: "?n < length s" "s ! ?n = c" using k lt by (auto simp: b)
    have "rev s ! (length s - Suc ?n) = c" using n by (simp add: rev_nth)
    moreover have "length s - Suc ?n < i" using n(1) lt by linarith
    ultimately show False using before by blast
  qed
  ultimately show "s = a @ c # b \<and> c \<notin> set b" by simp
next
  assume s: "s = a @ c # b \<and> c \<notin> set b"
  then have "\<forall>x\<in>set (rev b). x \<noteq> c" by auto
  from position_append_None [OF this, of "c # rev a"] s
  have "position (\<lambda>x. x = c) (rev s) = Some (length b)" by simp
  with s show "rsplit_once c s = Some (a, b)" by (simp add: rsplit_once_def Let_def)
qed

definition temp_shape :: "ustr \<Rightarrow> ustr \<Rightarrow> ustr" where
  "temp_shape base hex = base @ lit ''.vault'' @ lit ''.'' @ hex @ lit ''.tmp''"

lemma lower_hex_ascii: "lower_hex_byte b \<Longrightarrow> b < 0x80 \<and> b \<noteq> 46"
  by (auto simp: lower_hex_byte_def)

lemma as_bytes_ascii: "\<forall>c\<in>set s. c < 0x80 \<Longrightarrow> as_bytes s = s"
  by (induction s) (auto simp: as_bytes_def encode_utf8_def)

lemma encode_utf8_high: "\<not> c < 0x80 \<Longrightarrow> 0x80 \<le> hd (encode_utf8 c)"
  by (simp add: encode_utf8_def)

lemma encode_utf8_ascii: "\<forall>b\<in>set (encode_utf8 c). b < 0x80 \<Longrightarrow> c < 0x80"
  using encode_utf8_high [of c] hd_in_set [of "encode_utf8 c"] by fastforce

lemma as_bytes_all_ascii:
  assumes "\<forall>b\<in>set (as_bytes s). b < 0x80"
  shows "as_bytes s = s"
proof (rule as_bytes_ascii, rule ballI)
  fix c
  assume "c \<in> set s"
  with assms have "\<forall>b\<in>set (encode_utf8 c). b < 0x80" by (auto simp: as_bytes_def)
  then show "c < 0x80" by (rule encode_utf8_ascii)
qed

lemma hex_condition_iff:
  "str_len hex = 16 \<and> list_all lower_hex_byte (as_bytes hex)
     \<longleftrightarrow> length hex = 16 \<and> list_all lower_hex_byte hex"
proof
  assume l: "str_len hex = 16 \<and> list_all lower_hex_byte (as_bytes hex)"
  then have "as_bytes hex = hex"
    by (intro as_bytes_all_ascii) (auto simp: list_all_iff dest: lower_hex_ascii)
  with l show "length hex = 16 \<and> list_all lower_hex_byte hex" by (simp add: str_len_def)
next
  assume r: "length hex = 16 \<and> list_all lower_hex_byte hex"
  then have "as_bytes hex = hex"
    by (intro as_bytes_ascii) (auto simp: list_all_iff dest: lower_hex_ascii)
  with r show "str_len hex = 16 \<and> list_all lower_hex_byte (as_bytes hex)" by (simp add: str_len_def)
qed

text \<open>The recogniser accepts exactly the names of the form a save gives its temp file.\<close>

lemma temp_name_recognised_iff:
  "is_write_atomic_temp_name name \<longleftrightarrow>
     (\<exists>base hex. base \<noteq> [] \<and> length hex = 16 \<and> list_all lower_hex_byte hex
        \<and> name = temp_shape base hex)"
proof
  assume "is_write_atomic_temp_name name"
  then obtain rest stem hex base where "name = rest @ lit ''.tmp''"
    and "rsplit_once (of_char CHR ''.'') rest = Some (stem, hex)" and "stem = base @ lit ''.vault''"
    and "base \<noteq> []" and "length hex = 16 \<and> list_all lower_hex_byte hex"
    by (auto simp: is_write_atomic_temp_name_def hex_condition_iff strip_suffix_Some_iff
        split: option.splits)
  then show "\<exists>base hex. base \<noteq> [] \<and> length hex = 16 \<and> list_all lower_hex_byte hex
      \<and> name = temp_shape base hex"
    by (auto simp: rsplit_once_Some_iff temp_shape_def lit_def)
next
  assume "\<exists>base hex. base \<noteq> [] \<and> length hex = 16 \<and> list_all lower_hex_byte hex
    \<and> name = temp_shape base hex"
  then obtain base hex where b: "base \<noteq> []" and h: "length hex = 16" "list_all lower_hex_byte hex"
    and n: "name = temp_shape base hex" by blast
  let ?rest = "(base @ lit ''.vault'') @ of_char CHR ''.'' # hex"
  have "strip_suffix (lit ''.tmp'') name = Some ?rest"
    by (simp add: strip_suffix_Some_iff n temp_shape_def lit_def)
  moreover have "46 \<notin> set hex" using h(2) by (auto simp: list_all_iff dest: lower_hex_ascii)
  then have "rsplit_once (of_char CHR ''.'') ?rest = Some (base @ lit ''.vault'', hex)"
    by (simp add: rsplit_once_Some_iff)
  moreover have "strip_suffix (lit ''.vault'') (base @ lit ''.vault'') = Some base"
    by (simp add: strip_suffix_Some_iff)
  ultimately show "is_write_atomic_temp_name name"
    using b h hex_condition_iff by (simp add: is_write_atomic_temp_name_def)
qed

lemma hex_byte_lower: "b < 256 \<Longrightarrow> list_all lower_hex_byte (hex_byte b)"
  by (auto simp: hex_byte_def hex_digit_def lower_hex_byte_def)

lemma length_hex_bytes: "length (concat (map (\<lambda>b. hex_byte (unat b)) suf)) = 2 * length suf"
  by (induction suf) (auto simp: hex_byte_def)

lemma temp_name_is_recognised:
  assumes "base \<noteq> []" "length suf = 8"
  shows "is_write_atomic_temp_name (temp_name (base @ lit ''.vault'') suf)"
proof -
  let ?hex = "concat (map (\<lambda>b. hex_byte (unat b)) suf)"
  have small: "unat b < 256" for b :: byte using unsigned_less [of b, where ?'a = nat] by simp
  have "list_all lower_hex_byte ?hex"
    using hex_byte_lower [OF small] by (auto simp: list_all_iff)
  moreover have "length ?hex = 16" using assms(2) by (simp add: length_hex_bytes)
  moreover have "temp_name (base @ lit ''.vault'') suf = temp_shape base ?hex"
    by (simp add: temp_name_def temp_shape_def)
  ultimately show ?thesis using assms(1) temp_name_recognised_iff by blast
qed

section \<open>What the writers leave alone\<close>

definition is_temp_path :: "path \<Rightarrow> bool" where
  "is_temp_path q \<longleftrightarrow> q \<noteq> [] \<and> strip_suffix (lit ''.tmp'') (last q) \<noteq> None"

lemma temp_name_is_temp_path [simp]: "is_temp_path (d @ [temp_name n suf])"
proof -
  have "strip_suffix (lit ''.tmp'') (temp_name n suf)
      = Some (n @ lit ''.'' @ concat (map (\<lambda>b. hex_byte (unat b)) suf))"
    by (simp add: strip_suffix_Some_iff temp_name_def)
  then show ?thesis by (simp add: is_temp_path_def)
qed

lemma vault_path_not_temp: "\<not> is_temp_path (d @ [n @ lit ''.vault''])"
proof
  assume "is_temp_path (d @ [n @ lit ''.vault''])"
  then obtain r where "n @ lit ''.vault'' = r @ lit ''.tmp''"
    by (auto simp: is_temp_path_def strip_suffix_Some_iff)
  then have "last (n @ lit ''.vault'') = last (r @ lit ''.tmp'')" by simp
  then show False by (simp add: lit_def)
qed

lemma ensure_vault_dir_fs:
  "fs (snd (ensure_vault_dir E d w)) = fs w" "hist (snd (ensure_vault_dir E d w)) = hist w"
  by (auto simp: ensure_vault_dir_def next_tick_def Let_def split: option.splits)

lemma ensure_vault_dir_keeps: "keeps q w (snd (ensure_vault_dir E d w))"
  by (simp add: keeps_def between_def content_def ensure_vault_dir_fs)

lemma temp_neq: "\<not> is_temp_path q \<Longrightarrow> q \<noteq> d @ [temp_name n suf]"
  by auto

lemmas keeps_effects = ensure_vault_dir_keeps try_random_bytes_keeps sys_fsync_keeps
  sys_create_excl_keeps sys_write_all_keeps sys_unlink_keeps sys_rename_keeps
  sys_rename_noreplace_keeps keeps_refl

lemma write_temp_keeps:
  assumes "\<not> is_temp_path q"
  shows "keeps q w (snd (write_temp E p bs w))"
  unfolding write_temp_def Let_def snd_conv
  by (intro keeps_compose keeps_effects temp_neq [OF assms])
    (auto simp: sys_unlink_keeps temp_neq [OF assms])

lemma write_steps_keeps: "q \<noteq> t \<Longrightarrow> q \<noteq> p \<Longrightarrow> keeps q w (snd (write_steps E t p bs m w))"
  unfolding write_steps_def by (intro keeps_compose keeps_effects) (simp_all add: sys_rename_keeps)

lemma write_atomic_keeps:
  assumes "\<not> is_temp_path q" "q \<noteq> p"
  shows "keeps q w (snd (write_atomic E p bs m w))"
  unfolding write_atomic_def Let_def
  by (intro keeps_compose keeps_effects write_steps_keeps temp_neq [OF assms(1)] assms(2))
    (simp_all add: sys_unlink_keeps sys_fsync_keeps temp_neq [OF assms(1)])

lemma vault_write_atomic_keeps:
  assumes "\<not> is_temp_path q" "q \<noteq> p"
  shows "keeps q w (snd (vault_write_atomic E p bs w))"
  unfolding vault_write_atomic_def Let_def
  using assms by (intro keeps_case_sum ensure_vault_dir_keeps write_atomic_keeps) simp_all

lemma rename_noreplace_keeps: "q \<noteq> a \<Longrightarrow> q \<noteq> b \<Longrightarrow> keeps q w (snd (rename_noreplace E a b w))"
  unfolding rename_noreplace_def
  by (intro keeps_compose sys_rename_noreplace_keeps) simp_all

lemma is_empty_file_world: "snd (is_empty_file E p w) = next_tick w"
  using sys_metadata_world [of E p w]
  by (auto simp: is_empty_file_def split: prod.splits sum.splits)

lemma reclaim_empty_keeps:
  assumes "q \<noteq> p"
  shows "keeps q w (snd (reclaim_empty E p w))"
proof -
  have "keeps q w (snd (is_empty_file E p w))" by (simp add: is_empty_file_world)
  then show ?thesis
    unfolding reclaim_empty_def
    using assms by (intro keeps_compose sys_unlink_keeps) simp_all
qed

lemma publish_new_via_reservation_keeps:
  assumes "q \<noteq> p" "q \<noteq> tmp"
  shows "keeps q w (snd (publish_new_via_reservation E tmp p w))"
  unfolding publish_new_via_reservation_def Let_def
  using assms
  by (intro keeps_compose sys_create_excl_keeps sys_rename_keeps reclaim_empty_keeps)
    (simp_all add: sys_unlink_keeps)

lemma publish_finish_keeps:
  "q \<noteq> tmp \<Longrightarrow> keeps q w (snd rw) \<Longrightarrow> keeps q w (snd (publish_finish E tmp rw))"
  unfolding publish_finish_def sync_dir_def
  by (intro keeps_case_sum) (simp_all add: sys_unlink_keeps sys_fsync_keeps)

lemma write_temp_Inr_temp:
  "write_temp E p bs w = (Inr tmp, w') \<Longrightarrow> is_temp_path tmp"
  by (auto simp: write_temp_def Let_def split: prod.splits sum.splits)

lemma write_temp_target_keeps: "keeps p w (snd (write_temp E p bs w))"
  unfolding write_temp_def Let_def
  by (intro keeps_compose keeps_effects temp_path_neq [symmetric])
    (auto simp: sys_unlink_keeps temp_path_neq [symmetric])

lemma write_temp_Inr:
  assumes "write_temp E p bs w = (Inr tmp, w')"
  shows "content w' tmp = Some bs" "tmp \<noteq> p" "keeps p w w'"
proof -
  let ?name = "case file_name p of Some n \<Rightarrow> n | None \<Rightarrow> lit ''vault''"
  obtain suf w2 w3 w4 where tmp: "tmp = parent_or_dot p @ [temp_name ?name suf]"
    and c: "sys_create_excl E tmp MODE_FILE w2 = (Inr (), w3)"
    and wr: "sys_write_all E tmp bs w3 = (Inr (), w4)" and f: "sys_fsync E w4 = (Inr (), w')"
    using assms by (auto simp: write_temp_def Let_def split: prod.splits sum.splits)
  show "content w' tmp = Some bs"
    using sys_write_all_Inr [OF wr] sys_create_excl_Inr [OF c] sys_fsync_world [OF f]
    by (auto simp: content_def world_simps)
  show "tmp \<noteq> p" unfolding tmp by (rule temp_path_neq)
  show "keeps p w w'" using write_temp_target_keeps [of p w E bs] assms by simp
qed

lemma publish_new_keeps:
  assumes "\<not> is_temp_path q" "q \<noteq> p"
  shows "keeps q w (snd (publish_new E p bs w))"
proof (cases "write_temp E p bs w")
  case (Pair r w1)
  have k1: "keeps q w w1" using write_temp_keeps [OF assms(1), of w E p bs] Pair by simp
  show ?thesis
  proof (cases r)
    case (Inl e)
    with Pair k1 show ?thesis by (simp add: publish_new_def)
  next
    case (Inr tmp)
    have ne: "q \<noteq> tmp" using write_temp_Inr_temp [of E p bs w tmp w1] Pair Inr assms(1) by auto
    note rules = keeps_compose rename_noreplace_keeps reclaim_empty_keeps publish_finish_keeps
      publish_new_via_reservation_keeps
    have "keeps q w1 (snd (publish_new E p bs w))"
      unfolding publish_new_def Pair Inr prod.case sum.case
      by (intro rules) (simp_all add: ne assms(2))
    with k1 show ?thesis by (rule keeps_trans)
  qed
qed

text \<open>A collection that is already there is never replaced by \<open>publish_new\<close>.\<close>

lemma rename_noreplace_existing:
  assumes "map_of (fs w) b \<noteq> None"
  shows "\<exists>e w'. rename_noreplace E a b w = (Inl e, w') \<and> keeps q w w'"
  using assms by (auto simp: rename_noreplace_def sys_rename_noreplace_def split: option.splits)

lemma reclaim_empty_nonempty:
  assumes "map_of (fs w) p = Some n" "f_bytes n \<noteq> []"
  shows "\<exists>w'. reclaim_empty E p w = (False, w') \<and> keeps q w w'"
  using assms
  by (auto simp: reclaim_empty_def is_empty_file_def sys_metadata_def split: option.splits)

lemma reservation_existing:
  assumes "map_of (fs w) p = Some n" "f_bytes n \<noteq> []"
  shows "\<exists>e w'. publish_new_via_reservation E tmp p w = (Inl e, w') \<and> keeps p w w'"
proof -
  obtain e w1 where c: "sys_create_excl E p MODE_FILE w = (Inl e, w1)" and w1: "w1 = next_tick w"
    using sys_create_excl_existing [of w p E MODE_FILE] assms(1) by auto
  have "map_of (fs w1) p = Some n" using assms(1) by (simp add: w1 world_simps)
  from reclaim_empty_nonempty [OF this assms(2), of E p] obtain w2
    where r: "reclaim_empty E p w1 = (False, w2)" and k: "keeps p w1 w2" by blast
  have "keeps p w w2" using k unfolding w1 by (rule keeps_trans [OF keeps_next_tick])
  with c r show ?thesis
    by (simp add: publish_new_via_reservation_def Let_def w1)
qed

lemma publish_new_existing:
  assumes "content w p = Some b" "b \<noteq> []"
  shows "\<exists>e w'. publish_new E p bs w = (Inl e, w') \<and> keeps p w w'"
proof (cases "write_temp E p bs w")
  case (Pair r w1)
  have k1: "keeps p w w1" using write_temp_target_keeps [of p w E bs] Pair by simp
  show ?thesis
  proof (cases r)
    case (Inl e)
    with Pair k1 show ?thesis by (simp add: publish_new_def)
  next
    case (Inr tmp)
    have ne: "p \<noteq> tmp" using write_temp_Inr(2) [of E p bs w tmp w1] Pair Inr by auto
    obtain n where n: "map_of (fs w1) p = Some n" "f_bytes n \<noteq> []"
      using assms k1 by (auto simp: keeps_def content_def)
    from rename_noreplace_existing [of w1 p E tmp p] n obtain e w2
      where rn: "rename_noreplace E tmp p w1 = (Inl e, w2)" and k2: "keeps p w1 w2" by auto
    have n2: "map_of (fs w2) p = Some n" using k2 n by (simp add: keeps_def)
    from reclaim_empty_nonempty [OF n2 n(2), of E p] obtain w3
      where rc: "reclaim_empty E p w2 = (False, w3)" and k3: "keeps p w2 w3" by blast
    from reservation_existing [OF n2 n(2), of E tmp] obtain e4 w4
      where rv: "publish_new_via_reservation E tmp p w2 = (Inl e4, w4)" and k4: "keeps p w2 w4" by blast
    have fin: "\<exists>e'' w'. publish_finish E tmp (Inl e', w5) = (Inl e'', w') \<and> keeps p w w'"
      if "keeps p w2 w5" for e' w5
    proof -
      have "keeps p w w5" using k1 k2 that by (blast intro: keeps_trans)
      moreover have "keeps p w5 (snd (sys_unlink E tmp w5))" using ne by (rule sys_unlink_keeps)
      ultimately show ?thesis by (auto simp: publish_finish_def intro: keeps_trans)
    qed
    show ?thesis
      using Pair Inr rn rc rv fin [OF k3] fin [OF k4] fin [OF keeps_refl]
      by (simp add: publish_new_def)
  qed
qed

text \<open>What \<open>publish_new\<close> reports as published is complete at its path.\<close>

lemma rename_noreplace_Inr:
  assumes "rename_noreplace E a b w = (Inr u, w')" "a \<noteq> b" "content w a = Some bs"
  shows "content w' b = Some bs"
  using assms sys_rename_noreplace_Inr [of E a b w]
  by (auto simp: rename_noreplace_def content_def split: if_splits prod.splits sum.splits)

lemma sys_rename_content:
  "sys_rename E a b w = (Inr u, w') \<Longrightarrow> a \<noteq> b \<Longrightarrow> content w a = Some bs \<Longrightarrow> content w' b = Some bs"
  using sys_rename_Inr [of E a b w u w'] by (auto simp: content_def)

lemma reservation_Inr:
  assumes "publish_new_via_reservation E tmp p w = (Inr u, w')" "tmp \<noteq> p" "content w tmp = Some bs"
  shows "content w' p = Some bs"
proof -
  have claim: "\<exists>w1. keeps tmp w w1 \<and> sys_rename E tmp p w1 = (Inr (), w')"
  proof (cases "sys_create_excl E p MODE_FILE w")
    case (Pair r w1)
    have k1: "keeps tmp w w1"
      using sys_create_excl_keeps [of tmp p w E MODE_FILE] Pair assms(2) by simp
    show ?thesis
    proof (cases r)
      case (Inr v)
      with assms(1) Pair k1 show ?thesis
        by (auto simp: publish_new_via_reservation_def Let_def split: prod.splits sum.splits)
    next
      case (Inl e)
      with assms(1) Pair obtain w2 w3 where rc: "reclaim_empty E p w1 = (True, w2)"
        and cr: "sys_create_excl E p MODE_FILE w2 = (Inr (), w3)"
        and rn: "sys_rename E tmp p w3 = (Inr (), w')"
        by (auto simp: publish_new_via_reservation_def Let_def
            split: prod.splits sum.splits if_splits bool.splits)
      have "keeps tmp w1 w2" using reclaim_empty_keeps [of tmp p w1 E] rc assms(2) by simp
      moreover have "keeps tmp w2 w3"
        using sys_create_excl_keeps [of tmp p w2 E MODE_FILE] cr assms(2) by simp
      ultimately show ?thesis using k1 rn by (blast intro: keeps_trans)
    qed
  qed
  then show ?thesis
    using assms(2,3) by (auto dest!: keeps_content intro: sys_rename_content)
qed

lemma publish_finish_Inr:
  "publish_finish E tmp (r, w) = (Inr u, w') \<Longrightarrow> is_ok r \<and> content w' q = content w q"
  using keeps_content [OF sys_fsync_keeps [of q w E]]
  by (auto simp: publish_finish_def sync_dir_def split: sum.splits)

lemma publish_new_Inr:
  assumes "publish_new E p bs w = (Inr u, w')"
  shows "content w' p = Some bs"
proof -
  obtain tmp w1 where wt: "write_temp E p bs w = (Inr tmp, w1)"
    using assms by (auto simp: publish_new_def split: prod.splits sum.splits)
  note tmp = write_temp_Inr [OF wt]
  obtain r2 w2 where rn: "rename_noreplace E tmp p w1 = (r2, w2)" by fastforce
  show ?thesis
  proof (cases r2)
    case (Inr v)
    have "content w2 p = Some bs"
      using rn Inr tmp by (auto intro: rename_noreplace_Inr)
    with assms wt rn Inr show ?thesis
      using publish_finish_Inr [of E tmp "Inr ()" w2 u w' p] by (simp add: publish_new_def)
  next
    case (Inl e)
    have "keeps tmp w1 w2"
      using rn Inl by (auto simp: rename_noreplace_def dest: sys_rename_noreplace_Inl
          split: if_splits prod.splits sum.splits)
    then have t2: "content w2 tmp = Some bs" using tmp(1) by (simp add: keeps_content)
    show ?thesis
    proof (cases "e = Os EEXIST")
      case True
      with assms wt rn Inl obtain w3 w4 where rc: "reclaim_empty E p w2 = (True, w3)"
        and rn2: "rename_noreplace E tmp p w3 = (Inr (), w4)"
        and fin: "publish_finish E tmp (Inr (), w4) = (Inr u, w')"
        by (auto simp: publish_new_def publish_finish_def split: prod.splits sum.splits bool.splits)
      have "keeps tmp w2 w3" using reclaim_empty_keeps [of tmp p w2 E] rc tmp(2) by simp
      then have "content w3 tmp = Some bs" using t2 by (simp add: keeps_content)
      then have "content w4 p = Some bs" using rn2 tmp(2) by (auto intro: rename_noreplace_Inr)
      with publish_finish_Inr [OF fin] show ?thesis by simp
    next
      case False
      with assms wt rn Inl obtain r3 w3 where rv: "publish_new_via_reservation E tmp p w2 = (r3, w3)"
        and fin: "publish_finish E tmp (r3, w3) = (Inr u, w')"
        by (auto simp: publish_new_def publish_finish_def split: prod.splits sum.splits if_splits)
      from publish_finish_Inr [OF fin] obtain v where "r3 = Inr v" by (cases r3) auto
      with rv tmp(2) t2 have "content w3 p = Some bs" by (blast intro: reservation_Inr)
      with publish_finish_Inr [OF fin] show ?thesis by simp
    qed
  qed
qed

section \<open>The interface of a publisher\<close>

text \<open>
  What \<open>Vault::save_with\<close> relies on in the step that puts the finished bytes
  at the vault's path: success means the path holds exactly those bytes,
  failure means that a collection already there is untouched, and in either
  case no file but the path and temp files changes.
\<close>

locale publisher =
  fixes publish :: "path \<Rightarrow> bytes \<Rightarrow> world \<Rightarrow> (vault_error + unit) \<times> world"
  assumes publish_ok: "publish p bs w = (Inr u, w') \<Longrightarrow> content w' p = Some bs"
    and publish_err:
      "publish p bs w = (Inl e, w') \<Longrightarrow> content w p = Some b \<Longrightarrow> b \<noteq> [] \<Longrightarrow> content w' p = Some b"
    and publish_frame: "\<not> is_temp_path q \<Longrightarrow> q \<noteq> p \<Longrightarrow> keeps q w (snd (publish p bs w))"
begin

lemma publish_frame_content:
  "publish p bs w = (r, w') \<Longrightarrow> \<not> is_temp_path q \<Longrightarrow> q \<noteq> p \<Longrightarrow> content w' q = content w q"
  using publish_frame [of q p w bs] by (simp add: keeps_content)

end

interpretation replacing: publisher "vault_write_atomic E" for E
proof unfold_locales
  fix p bs w u w'
  assume "vault_write_atomic E p bs w = (Inr u, w')"
  then show "content w' p = Some bs"
    by (auto simp: vault_write_atomic_def Let_def dest: write_atomic_Inr(1)
        split: prod.splits sum.splits)
next
  fix p bs w e w' b
  assume e: "vault_write_atomic E p bs w = (Inl e, w')" and c: "content w p = Some b"
  obtain r w1 where d: "ensure_vault_dir E (parent_or_dot p) w = (r, w1)" by fastforce
  have "keeps p w w1" using ensure_vault_dir_keeps [of p w E "parent_or_dot p"] d by simp
  then have c1: "content w1 p = Some b" using c by (simp add: keeps_content)
  show "content w' p = Some b"
    using e d c1 by (auto simp: vault_write_atomic_def Let_def dest!: write_atomic_Inl keeps_content
        split: prod.splits sum.splits)
qed (rule vault_write_atomic_keeps)

interpretation creating: publisher "publish_new E" for E
proof unfold_locales
  fix p bs w e w' b
  assume "publish_new E p bs w = (Inl e, w')" "content w p = Some b" "b \<noteq> []"
  then show "content w' p = Some b"
    using publish_new_existing [of w p b E bs] by (auto dest: keeps_content)
qed (auto intro: publish_new_Inr publish_new_keeps)

section \<open>The sweep\<close>

lemma sys_metadata_Inr: "sys_metadata E p w = (Inr m, w') \<Longrightarrow> map_of (fs w) p = Some m \<and> w' = next_tick w"
  by (auto simp: sys_metadata_def split: option.splits)

lemma sys_metadata_Inl: "sys_metadata E p w = (Inl e, w') \<Longrightarrow> w' = next_tick w"
  by (auto simp: sys_metadata_def split: option.splits)

lemma map_le_Some: "m \<subseteq>\<^sub>m m' \<Longrightarrow> m x = Some y \<Longrightarrow> m' x = Some y"
  by (auto simp: map_le_def dom_def)

lemma sys_unlink_shrinks: "map_of (fs (snd (sys_unlink E p w))) \<subseteq>\<^sub>m map_of (fs w)"
  by (auto simp: sys_unlink_def world_simps delete_conv' map_le_def split: option.splits)

text \<open>One turn of the loop: it goes on with the rest of the list in a smaller file system.\<close>

lemma sweep_loop_Cons:
  "\<exists>n1 w1. sweep_loop E t a (p # ps) n w = sweep_loop E t a ps n1 w1
     \<and> map_of (fs w1) \<subseteq>\<^sub>m map_of (fs w)
     \<and> (\<forall>q. \<not> is_write_atomic_temp_name (last q) \<longrightarrow> keeps q w w1)"
proof (cases "fault E (tick w) \<noteq> None \<or> \<not> is_write_atomic_temp_name (last p)")
  case True
  then have "sweep_loop E t a (p # ps) n w = sweep_loop E t a ps n (next_tick w)"
    by (cases "fault E (tick w)") auto
  then show ?thesis by (intro exI conjI) (auto simp: world_simps)
next
  case False
  obtain r w1 where md: "sys_metadata E p (next_tick w) = (r, w1)" by fastforce
  then have w1: "w1 = next_tick (next_tick w)"
    using sys_metadata_world [of E p "next_tick w"] by simp
  obtain r2 w2 where u: "sys_unlink E p w1 = (r2, w2)" by fastforce
  have k1: "keeps q w w1" for q unfolding w1 by (rule keeps_trans [OF keeps_next_tick keeps_next_tick])
  have k2: "keeps q w w2" if "\<not> is_write_atomic_temp_name (last q)" for q
  proof -
    have "q \<noteq> p" using that False by auto
    then have "keeps q w1 w2" using sys_unlink_keeps [of q p w1 E] u by simp
    with k1 show ?thesis by (rule keeps_trans)
  qed
  have m: "map_of (fs w1) \<subseteq>\<^sub>m map_of (fs w)" "map_of (fs w2) \<subseteq>\<^sub>m map_of (fs w)"
    using sys_unlink_shrinks [of E p w1] u by (simp_all add: w1 world_simps)
  have "\<exists>n1. sweep_loop E t a (p # ps) n w = sweep_loop E t a ps n1 w1
      \<or> sweep_loop E t a (p # ps) n w = sweep_loop E t a ps n1 w2"
    using False md u by (cases r; cases r2) (auto simp: Let_def)
  with m k1 k2 show ?thesis by blast
qed

lemma sweep_loop_keeps:
  "\<not> is_write_atomic_temp_name (last q) \<Longrightarrow> keeps q w (snd (sweep_loop E t a ps n w))"
proof (induction ps arbitrary: n w)
  case (Cons p ps)
  with sweep_loop_Cons [of E t a p ps n w] show ?case by (metis keeps_trans)
qed simp

lemma sweep_temp_files_keeps:
  "\<not> is_write_atomic_temp_name (last q) \<Longrightarrow> keeps q w (snd (sweep_temp_files E d a w))"
  by (auto simp: sweep_temp_files_def now_def Let_def split: option.splits
      intro: keeps_trans [OF keeps_trans [OF keeps_next_tick keeps_next_tick] sweep_loop_keeps])

lemma sweep_loop_shrinks: "map_of (fs (snd (sweep_loop E t a ps n w))) \<subseteq>\<^sub>m map_of (fs w)"
proof (induction ps arbitrary: n w)
  case (Cons p ps)
  with sweep_loop_Cons [of E t a p ps n w] show ?case by (metis map_le_trans)
qed simp

lemma sweep_temp_files_shrinks: "map_of (fs (snd (sweep_temp_files E d a w))) \<subseteq>\<^sub>m map_of (fs w)"
proof -
  have "fs (snd (now E (next_tick w))) = fs w" by (simp add: now_def next_tick_def)
  with sweep_loop_shrinks [of E _ a "read_dir w d" 0 "snd (now E (next_tick w))"] show ?thesis
    by (auto simp: sweep_temp_files_def now_def next_tick_def Let_def split: option.splits prod.splits)
qed

text \<open>With no failing system call and no age threshold, no temp file of the list survives.\<close>

lemma sweep_loop_removes:
  assumes "\<And>i. fault E i = None" "p \<in> set ps" "is_write_atomic_temp_name (last p)"
    and "map_of (fs (snd (sweep_loop E t 0 ps n w))) p = Some m"
  shows "\<not> f_regular m"
  using assms(2,4)
proof (induction ps arbitrary: n w)
  case (Cons x ps)
  let ?w' = "snd (sweep_loop E t 0 (x # ps) n w)"
  show ?case
  proof (cases "p = x")
    case False
    then have p: "p \<in> set ps" using Cons.prems(1) by simp
    obtain n1 w1 where "sweep_loop E t 0 (x # ps) n w = sweep_loop E t 0 ps n1 w1"
      using sweep_loop_Cons by blast
    with Cons.IH [OF p] Cons.prems(2) show ?thesis by simp
  next
    case True
    show ?thesis
    proof (cases "map_of (fs w) p")
      case None
      with map_le_Some [OF sweep_loop_shrinks Cons.prems(2)] show ?thesis by simp
    next
      case (Some m0)
      show ?thesis
      proof (cases "f_regular m0")
        case False
        have "map_of (fs w) p = Some m"
          by (rule map_le_Some [OF sweep_loop_shrinks Cons.prems(2)])
        with Some False show ?thesis by simp
      next
        case reg: True
        let ?w2 = "set_fs (AList.delete p (fs w)) (next_tick (next_tick (next_tick w)))"
        have "sweep_loop E t 0 (x # ps) n w = sweep_loop E t 0 ps (Suc n) ?w2"
          using assms(1,3) True Some reg
          by (simp add: Let_def sys_metadata_def sys_unlink_def world_simps)
        then have "map_of (fs (snd (sweep_loop E t 0 ps (Suc n) ?w2))) p = Some m"
          using Cons.prems(2) by simp
        then have "map_of (fs ?w2) p = Some m" by (rule map_le_Some [OF sweep_loop_shrinks])
        then show ?thesis by (simp add: world_simps delete_conv')
      qed
    qed
  qed
qed simp

lemma sweep_temp_files_removes:
  assumes "\<And>i. fault E i = None" "is_write_atomic_temp_name name"
    and "map_of (fs (snd (sweep_temp_files E dir 0 w))) (dir @ [name]) = Some m"
  shows "\<not> f_regular m"
proof -
  obtain t w1 where t: "now E (next_tick w) = (t, w1)" by fastforce
  then have w1: "fs w1 = fs w" by (auto simp: now_def world_simps)
  have eq: "sweep_temp_files E dir 0 w = sweep_loop E t 0 (read_dir w dir) 0 w1"
    using assms(1) t by (simp add: sweep_temp_files_def)
  with assms(3) have "map_of (fs (snd (sweep_loop E t 0 (read_dir w dir) 0 w1))) (dir @ [name]) = Some m"
    by simp
  then have "map_of (fs w1) (dir @ [name]) = Some m" by (rule map_le_Some [OF sweep_loop_shrinks])
  then have "dir @ [name] \<in> set (read_dir w dir)"
    by (auto simp: read_dir_def w1 dest!: map_of_SomeD intro: rev_image_eqI)
  moreover have "is_write_atomic_temp_name (last (dir @ [name]))" using assms(2) by simp
  moreover have "map_of (fs (snd (sweep_loop E t 0 (read_dir w dir) 0 w1))) (dir @ [name]) = Some m"
    using assms(3) eq by simp
  ultimately show ?thesis by (intro sweep_loop_removes [OF assms(1)])
qed

end
