(* ===== verification/Vault_Store.thy ===== *)
theory Vault_Store
  imports Vault_Files
begin

text \<open>
  A collection: load, unlock, edit, save atomically (\<open>struct Vault\<close> of
  \<open>src/vault/store.rs\<close>). Every operation takes the vault and the world and
  returns its result with both updated, so that what a failing operation leaves
  behind is part of the model. The header is changed and put back on failure
  exactly where the source does it. Log lines are not modelled; the text of
  \<open>index_warning\<close> is represented by the error it renders.
\<close>

section \<open>State\<close>

datatype vault_state = Locked | Unlocked key "item list"

record vault =
  v_path :: path
  v_header :: header
  v_aad :: bytes
  v_ciphertext :: bytes
  v_state :: vault_state
  index_attributes :: bool
  index_warning :: "vault_error option"
  size_limit :: nat
  retired :: bool
  pinned :: bool

datatype item_delta =
    Pushed
  | Replaced nat item
  | Removed nat item
  | RemovedMany "(nat \<times> item) list"

record import_item =
  im_label :: ustr
  im_attributes :: attrs
  im_secret :: bytes
  im_content_type :: ustr
  im_created :: u64
  im_modified :: u64

type_synonym 'a outcome = "(vault_error + 'a) \<times> vault \<times> world"

section \<open>Checks\<close>

definition check_label :: "ustr \<Rightarrow> vault_error + unit" where
  "check_label label =
     (if str_len label > MAX_LABEL then Inl (LabelTooLong (str_len label) MAX_LABEL) else Inr ())"

definition check_item_caps :: "ustr \<Rightarrow> attrs \<Rightarrow> nat \<Rightarrow> ustr \<Rightarrow> vault_error + unit" where
  "check_item_caps label attributes secret_len content_type =
     (case check_caps label attributes secret_len content_type of
        None \<Rightarrow> Inr ()
      | Some v \<Rightarrow> Inl (ItemTooLarge (cap_as_str (cv_cap v)) (cv_actual v) (cv_limit v)))"

definition check_import_item :: "nat \<Rightarrow> import_item \<Rightarrow> vault_error + unit" where
  "check_import_item index i =
     (case check_caps (im_label i) (im_attributes i) (length (im_secret i)) (im_content_type i) of
        None \<Rightarrow> Inr ()
      | Some v \<Rightarrow> Inl (ImportTooLarge index (label_excerpt (im_label i))
          (cap_as_str (cv_cap v)) (cv_actual v) (cv_limit v)))"

section \<open>Saving\<close>

definition save_with ::
  "vault_lib \<Rightarrow> env \<Rightarrow> (path \<Rightarrow> bytes \<Rightarrow> world \<Rightarrow> (vault_error + unit) \<times> world) \<Rightarrow> vault \<Rightarrow> world
   \<Rightarrow> unit outcome" where
  "save_with D E publish v w =
     (if retired v then (Inl VRetired, v, w)
      else case v_state v of
        Locked \<Rightarrow> (Inl VLocked, v, w)
      | Unlocked k its \<Rightarrow>
          (case try_random_bytes E NONCE_LEN w of
             (Inl e, w1) \<Rightarrow> (Inl (VCrypto e), v, w1)
           | (Inr nonce, w1) \<Rightarrow>
               let saved_header = v_header v;
                   (t, w2) = now E w1;
                   h = saved_header\<lparr>h_modified := t, h_nonce := nonce,
                         h_index := build_index D (h_index_salt saved_header) its (index_attributes v)\<rparr>;
                   v1 = v\<lparr>v_header := h\<rparr>;
                   rolled_back = v1\<lparr>v_header := saved_header\<rparr>
               in case header_bytes D h of
                    Inl e \<Rightarrow> (Inl (VFormat e), rolled_back, w2)
                  | Inr aad \<Rightarrow>
                      (case encode_items D its of
                         Inl e \<Rightarrow> (Inl (VFormat e), rolled_back, w2)
                       | Inr plain \<Rightarrow>
                           (case seal D k (h_nonce h) aad plain of
                              Inl e \<Rightarrow> (Inl (VCrypto e), rolled_back, w2)
                            | Inr ciphertext \<Rightarrow>
                                let bs = aad @ ciphertext
                                in case check_vault_size_against (length bs) (size_limit v) of
                                     Inl e \<Rightarrow> (Inl (VFormat e), rolled_back, w2)
                                   | Inr _ \<Rightarrow>
                                       (case publish (v_path v) bs w2 of
                                          (Inl e, w3) \<Rightarrow> (Inl e, rolled_back, w3)
                                        | (Inr _, w3) \<Rightarrow>
                                            (Inr (), v1\<lparr>v_aad := aad, v_ciphertext := ciphertext\<rparr>, w3))))))"

definition save :: "vault_lib \<Rightarrow> env \<Rightarrow> vault \<Rightarrow> world \<Rightarrow> unit outcome" where
  "save D E v w = save_with D E (vault_write_atomic E) v w"

definition save_or_restore ::
  "vault_lib \<Rightarrow> env \<Rightarrow> 't \<Rightarrow> ('t \<Rightarrow> vault \<Rightarrow> vault) \<Rightarrow> vault \<Rightarrow> world \<Rightarrow> unit outcome" where
  "save_or_restore D E before restore v w =
     (case save D E v w of
        (Inr _, v1, w1) \<Rightarrow> (Inr (), v1, w1)
      | (Inl e, v1, w1) \<Rightarrow> (Inl e, restore before v1, w1))"

section \<open>Creating and opening\<close>

definition build ::
  "vault_lib \<Rightarrow> env \<Rightarrow> path \<Rightarrow> ustr \<Rightarrow> bytes \<Rightarrow> kdf_params \<Rightarrow> world \<Rightarrow> (vault_error + vault) \<times> world" where
  "build D E p label password kdf w =
     (case check_label label of
        Inl e \<Rightarrow> (Inl e, w)
      | Inr _ \<Rightarrow>
          (case try_random_bytes E SALT_LEN w of
             (Inl e, w1) \<Rightarrow> (Inl (VCrypto e), w1)
           | (Inr salt, w1) \<Rightarrow>
               (case try_random_bytes E SALT_LEN w1 of
                  (Inl e, w2) \<Rightarrow> (Inl (VCrypto e), w2)
                | (Inr index_salt, w2) \<Rightarrow>
                    (case derive_key D password salt kdf of
                       Inl e \<Rightarrow> (Inl (VCrypto e), w2)
                     | Inr k \<Rightarrow>
                         let (t, w3) = now E w2
                         in (Inr \<lparr>v_path = p,
                              v_header = \<lparr>h_version = VERSION, h_label = label, h_created = t,
                                h_modified = t, h_kdf = kdf, h_salt = salt, h_index_salt = index_salt,
                                h_nonce = replicate NONCE_LEN 0, h_index = []\<rparr>,
                              v_aad = [], v_ciphertext = [], v_state = Unlocked k [],
                              index_attributes = True, index_warning = None,
                              size_limit = MAX_VAULT_BYTES, retired = False, pinned = False\<rparr>, w3)))))"

definition create ::
  "vault_lib \<Rightarrow> env \<Rightarrow> path \<Rightarrow> ustr \<Rightarrow> bytes \<Rightarrow> kdf_params \<Rightarrow> world \<Rightarrow> (vault_error + vault) \<times> world" where
  "create D E p label password kdf w =
     (let dir = parent_or_dot p
      in case ensure_vault_dir E dir w of
           (Inl e, w1) \<Rightarrow> (Inl (io_err dir e), w1)
         | (Inr _, w1) \<Rightarrow>
             (case build D E p label password kdf w1 of
                (Inl e, w2) \<Rightarrow> (Inl e, w2)
              | (Inr v, w2) \<Rightarrow>
                  (case save_with D E (publish_new E) v w2 of
                     (Inl e, _, w3) \<Rightarrow> (Inl e, w3)
                   | (Inr _, v', w3) \<Rightarrow> (Inr v', w3))))"

definition open_vault :: "vault_lib \<Rightarrow> env \<Rightarrow> path \<Rightarrow> world \<Rightarrow> (vault_error + vault) \<times> world" where
  "open_vault D E p w =
     (case sys_metadata E p w of
        (Inl e, w1) \<Rightarrow> (Inl (io_err p (Os e)), w1)
      | (Inr meta, w1) \<Rightarrow>
          (case check_vault_size (length (f_bytes meta)) of
             Inl e \<Rightarrow> (Inl (VFormat e), w1)
           | Inr _ \<Rightarrow>
               (case sys_read E p w1 of
                  (Inl e, w2) \<Rightarrow> (Inl (io_err p (Os e)), w2)
                | (Inr bs, w2) \<Rightarrow>
                    (case vault_file_decode D bs of
                       Inl e \<Rightarrow> (Inl (VFormat e), w2)
                     | Inr f \<Rightarrow>
                         (Inr \<lparr>v_path = p, v_header = vf_header f, v_aad = vf_aad f,
                           v_ciphertext = vf_ciphertext f, v_state = Locked,
                           index_attributes = True, index_warning = None,
                           size_limit = MAX_VAULT_BYTES, retired = False, pinned = False\<rparr>, w2)))))"

section \<open>Reading\<close>

definition is_locked :: "vault \<Rightarrow> bool" where
  "is_locked v = (v_state v = Locked)"

definition index_has_attributes :: "vault \<Rightarrow> bool" where
  "index_has_attributes v = list_ex (\<lambda>e. attr_hashes e \<noteq> []) (h_index (v_header v))"

definition item_ids :: "vault \<Rightarrow> ustr list" where
  "item_ids v = map ie_id (h_index (v_header v))"

definition has_item :: "vault \<Rightarrow> ustr \<Rightarrow> bool" where
  "has_item v i = list_ex (\<lambda>e. ie_id e = i) (h_index (v_header v))"

definition search_ids :: "vault_lib \<Rightarrow> vault \<Rightarrow> attrs \<Rightarrow> ustr list" where
  "search_ids D v query =
     (if query \<noteq> [] \<and> \<not> index_has_attributes v then []
      else let query_hashes = hash_query D (h_index_salt (v_header v)) query
           in map ie_id (filter (\<lambda>e. matches_hashes e query_hashes) (h_index (v_header v))))"

definition items :: "vault \<Rightarrow> vault_error + item list" where
  "items v = (case v_state v of Unlocked _ its \<Rightarrow> Inr its | Locked \<Rightarrow> Inl VLocked)"

definition vault_item :: "vault \<Rightarrow> ustr \<Rightarrow> vault_error + item" where
  "vault_item v i =
     (case items v of
        Inl e \<Rightarrow> Inl e
      | Inr its \<Rightarrow> (case find (\<lambda>x. it_id x = i) its of None \<Rightarrow> Inl (NoSuchItem i) | Some x \<Rightarrow> Inr x))"

definition search :: "vault \<Rightarrow> attrs \<Rightarrow> vault_error + item list" where
  "search v query =
     (case items v of Inl e \<Rightarrow> Inl e | Inr its \<Rightarrow> Inr (filter (item_matches query) its))"

section \<open>Locking\<close>

definition set_index_attributes :: "bool \<Rightarrow> vault \<Rightarrow> vault" where
  "set_index_attributes enabled v = v\<lparr>index_attributes := enabled\<rparr>"

definition retire :: "vault \<Rightarrow> vault" where
  "retire v = v\<lparr>retired := True\<rparr>"

definition unretire :: "vault \<Rightarrow> vault" where
  "unretire v = v\<lparr>retired := False\<rparr>"

definition set_pinned :: "bool \<Rightarrow> vault \<Rightarrow> vault" where
  "set_pinned p v = v\<lparr>pinned := p\<rparr>"

definition lock :: "vault \<Rightarrow> vault" where
  "lock v = v\<lparr>v_state := Locked, pinned := False\<rparr>"

definition verify_key :: "vault_lib \<Rightarrow> vault \<Rightarrow> key \<Rightarrow> bool" where
  "verify_key D v k =
     (case v_state v of
        Unlocked current _ \<Rightarrow> current = k
      | Locked \<Rightarrow> is_ok (crypto_open D k (h_nonce (v_header v)) (v_aad v) (v_ciphertext v)))"

definition verify_password :: "vault_lib \<Rightarrow> vault \<Rightarrow> bytes \<Rightarrow> vault_error + bool" where
  "verify_password D v password =
     (case derive_key D password (h_salt (v_header v)) (h_kdf (v_header v)) of
        Inl e \<Rightarrow> Inl (VCrypto e)
      | Inr k \<Rightarrow> Inr (verify_key D v k))"

definition unlock_with_key :: "vault_lib \<Rightarrow> env \<Rightarrow> key \<Rightarrow> vault \<Rightarrow> world \<Rightarrow> unit outcome" where
  "unlock_with_key D E k v w =
     (if retired v then (Inl VRetired, v, w)
      else if \<not> is_locked v then (if verify_key D v k then (Inr (), v, w) else (Inl WrongPassword, v, w))
      else (case crypto_open D k (h_nonce (v_header v)) (v_aad v) (v_ciphertext v) of
              Inl _ \<Rightarrow> (Inl WrongPassword, v, w)
            | Inr plain \<Rightarrow>
                (case decode_items D plain of
                   Inl e \<Rightarrow> (Inl (VFormat e), v, w)
                 | Inr its \<Rightarrow>
                     let v1 = v\<lparr>v_state := Unlocked k its\<rparr>;
                         wants_attributes =
                           (index_attributes v1 \<and> list_ex (\<lambda>i. it_attributes i \<noteq> []) its)
                     in if index_has_attributes v1 \<noteq> wants_attributes
                        then (case save D E v1 w of
                                (Inr _, v2, w2) \<Rightarrow> (Inr (), v2\<lparr>index_warning := None\<rparr>, w2)
                              | (Inl e, v2, w2) \<Rightarrow> (Inr (), v2\<lparr>index_warning := Some e\<rparr>, w2))
                        else (Inr (), v1\<lparr>index_warning := None\<rparr>, w))))"

definition unlock :: "vault_lib \<Rightarrow> env \<Rightarrow> bytes \<Rightarrow> vault \<Rightarrow> world \<Rightarrow> unit outcome" where
  "unlock D E password v w =
     (case derive_key D password (h_salt (v_header v)) (h_kdf (v_header v)) of
        Inl e \<Rightarrow> (Inl (VCrypto e), v, w)
      | Inr k \<Rightarrow> unlock_with_key D E k v w)"

section \<open>Editing items\<close>

definition truncate_items :: "nat \<Rightarrow> vault \<Rightarrow> vault" where
  "truncate_items n v =
     (case v_state v of Unlocked k its \<Rightarrow> v\<lparr>v_state := Unlocked k (take n its)\<rparr> | Locked \<Rightarrow> v)"

fun reinsert :: "(nat \<times> item) list \<Rightarrow> item list \<Rightarrow> item list" where
  "reinsert [] its = its"
| "reinsert ((i, prior) # rs) its =
     reinsert rs (if i \<le> length its then vec_insert i prior its else its)"

fun restore_items :: "item_delta \<Rightarrow> item list \<Rightarrow> item list" where
  "restore_items Pushed its = butlast its"
| "restore_items (Replaced i prior) its = (if i < length its then its[i := prior] else its)"
| "restore_items (Removed i prior) its = (if i \<le> length its then vec_insert i prior its else its)"
| "restore_items (RemovedMany rs) its = reinsert rs its"

definition restore_delta :: "item_delta \<Rightarrow> vault \<Rightarrow> vault" where
  "restore_delta d v =
     (case v_state v of
        Unlocked k its \<Rightarrow> v\<lparr>v_state := Unlocked k (restore_items d its)\<rparr>
      | Locked \<Rightarrow> v)"

definition insert_item_unchecked ::
  "vault_lib \<Rightarrow> env \<Rightarrow> ustr \<Rightarrow> attrs \<Rightarrow> bytes \<Rightarrow> ustr \<Rightarrow> bool \<Rightarrow> vault \<Rightarrow> world \<Rightarrow> (ustr \<times> bool) outcome" where
  "insert_item_unchecked D E label attributes secret content_type replace v w =
     (let (t, w1) = now E w
      in case v_state v of
           Locked \<Rightarrow> (Inl VLocked, v, w1)
         | Unlocked k its \<Rightarrow>
             (case (if replace then position (\<lambda>i. it_attributes i = attributes) its else None) of
                Some p \<Rightarrow>
                  let prior = its ! p;
                      existing = prior\<lparr>it_label := label, it_secret := secret,
                                       it_content_type := content_type, it_modified := t\<rparr>
                  in (case save_or_restore D E (Replaced p prior) restore_delta
                             (v\<lparr>v_state := Unlocked k (its[p := existing])\<rparr>) w1 of
                        (Inl e, v', w') \<Rightarrow> (Inl e, v', w')
                      | (Inr _, v', w') \<Rightarrow> (Inr (it_id existing, True), v', w'))
              | None \<Rightarrow>
                  let (i, w2) = uuid_v4 E w1;
                      x = \<lparr>it_id = i, it_label = label, it_attributes = attributes, it_secret = secret,
                           it_content_type = content_type, it_created = t, it_modified = t\<rparr>
                  in (case save_or_restore D E Pushed restore_delta
                             (v\<lparr>v_state := Unlocked k (its @ [x])\<rparr>) w2 of
                        (Inl e, v', w') \<Rightarrow> (Inl e, v', w')
                      | (Inr _, v', w') \<Rightarrow> (Inr (i, False), v', w'))))"

definition insert_item ::
  "vault_lib \<Rightarrow> env \<Rightarrow> ustr \<Rightarrow> attrs \<Rightarrow> bytes \<Rightarrow> ustr \<Rightarrow> bool \<Rightarrow> vault \<Rightarrow> world \<Rightarrow> (ustr \<times> bool) outcome" where
  "insert_item D E label attributes secret content_type replace v w =
     (case items v of
        Inl e \<Rightarrow> (Inl e, v, w)
      | Inr _ \<Rightarrow>
          (case check_item_caps label attributes (length secret) content_type of
             Inl e \<Rightarrow> (Inl e, v, w)
           | Inr _ \<Rightarrow> insert_item_unchecked D E label attributes secret content_type replace v w))"

definition update_item ::
  "vault_lib \<Rightarrow> env \<Rightarrow> ustr \<Rightarrow> (item \<Rightarrow> item) \<Rightarrow> vault \<Rightarrow> world \<Rightarrow> unit outcome" where
  "update_item D E i f v w =
     (case v_state v of
        Locked \<Rightarrow> (Inl VLocked, v, w)
      | Unlocked k its \<Rightarrow>
          (case position (\<lambda>x. it_id x = i) its of
             None \<Rightarrow> (Inl (NoSuchItem i), v, w)
           | Some index \<Rightarrow>
               let prior = its ! index;
                   (t, w1) = now E w;
                   x = (f prior)\<lparr>it_modified := t\<rparr>;
                   its1 = its[index := x]
               in case check_caps (it_label x) (it_attributes x) (length (it_secret x)) (it_content_type x) of
                    Some c \<Rightarrow>
                      (Inl (ItemTooLarge (cap_as_str (cv_cap c)) (cv_actual c) (cv_limit c)),
                       v\<lparr>v_state := Unlocked k (its1[index := prior])\<rparr>, w1)
                  | None \<Rightarrow>
                      save_or_restore D E (Replaced index prior) restore_delta
                        (v\<lparr>v_state := Unlocked k its1\<rparr>) w1))"

definition delete_item :: "vault_lib \<Rightarrow> env \<Rightarrow> ustr \<Rightarrow> vault \<Rightarrow> world \<Rightarrow> unit outcome" where
  "delete_item D E i v w =
     (case v_state v of
        Locked \<Rightarrow> (Inl VLocked, v, w)
      | Unlocked k its \<Rightarrow>
          (case position (\<lambda>x. it_id x = i) its of
             None \<Rightarrow> (Inl (NoSuchItem i), v, w)
           | Some index \<Rightarrow>
               save_or_restore D E (Removed index (its ! index)) restore_delta
                 (v\<lparr>v_state := Unlocked k (vec_remove index its)\<rparr>) w))"

text \<open>The pass of \<open>delete_items\<close>: survivors, and what was removed with its old index.\<close>

fun split_doomed :: "(item \<Rightarrow> bool) \<Rightarrow> nat \<Rightarrow> item list \<Rightarrow> item list \<times> (nat \<times> item) list" where
  "split_doomed P n [] = ([], [])"
| "split_doomed P n (x # xs) =
     (let (kept, removed) = split_doomed P (Suc n) xs
      in if P x then (kept, (n, x) # removed) else (x # kept, removed))"

definition delete_items :: "vault_lib \<Rightarrow> env \<Rightarrow> ustr list \<Rightarrow> vault \<Rightarrow> world \<Rightarrow> unit outcome" where
  "delete_items D E ids v w =
     (if ids = [] then (Inr (), v, w)
      else case v_state v of
        Locked \<Rightarrow> (Inl VLocked, v, w)
      | Unlocked k its \<Rightarrow>
          (case find (\<lambda>i. i \<notin> it_id ` set its) ids of
             Some i \<Rightarrow> (Inl (NoSuchItem i), v, w)
           | None \<Rightarrow>
               let (kept, removed) = split_doomed (\<lambda>x. it_id x \<in> set ids) 0 its
               in save_or_restore D E (RemovedMany removed) restore_delta
                    (v\<lparr>v_state := Unlocked k kept\<rparr>) w))"

text \<open>The checks of \<open>import_items\<close>, in order, and the loop that pushes the batch.\<close>

fun check_import_items :: "nat \<Rightarrow> import_item list \<Rightarrow> vault_error + unit" where
  "check_import_items n [] = Inr ()"
| "check_import_items n (x # xs) =
     (case check_import_item n x of Inl e \<Rightarrow> Inl e | Inr _ \<Rightarrow> check_import_items (Suc n) xs)"

fun push_imports :: "env \<Rightarrow> import_item list \<Rightarrow> item list \<Rightarrow> world \<Rightarrow> item list \<times> world" where
  "push_imports E [] acc w = (acc, w)"
| "push_imports E (x # xs) acc w =
     (let (i, w1) = uuid_v4 E w
      in push_imports E xs (acc @ [\<lparr>it_id = i, it_label = im_label x, it_attributes = im_attributes x,
           it_secret = im_secret x, it_content_type = im_content_type x, it_created = im_created x,
           it_modified = im_modified x\<rparr>]) w1)"

definition import_items :: "vault_lib \<Rightarrow> env \<Rightarrow> import_item list \<Rightarrow> vault \<Rightarrow> world \<Rightarrow> unit outcome" where
  "import_items D E batch v w =
     (if batch = [] then (Inr (), v, w)
      else case v_state v of
        Locked \<Rightarrow> (Inl VLocked, v, w)
      | Unlocked k its \<Rightarrow>
          (case check_import_items 0 batch of
             Inl e \<Rightarrow> (Inl e, v, w)
           | Inr _ \<Rightarrow>
               let before_len = length its;
                   (its1, w1) = push_imports E batch its w
               in save_or_restore D E before_len truncate_items (v\<lparr>v_state := Unlocked k its1\<rparr>) w1))"

section \<open>The collection itself\<close>

definition set_label :: "vault_lib \<Rightarrow> env \<Rightarrow> ustr \<Rightarrow> vault \<Rightarrow> world \<Rightarrow> unit outcome" where
  "set_label D E label v w =
     (case check_label label of
        Inl e \<Rightarrow> (Inl e, v, w)
      | Inr _ \<Rightarrow>
          (case v_state v of
             Locked \<Rightarrow> (Inl VLocked, v, w)
           | Unlocked _ _ \<Rightarrow>
               let old_label = h_label (v_header v)
               in save_or_restore D E old_label (\<lambda>old u. u\<lparr>v_header := (v_header u)\<lparr>h_label := old\<rparr>\<rparr>)
                    (v\<lparr>v_header := (v_header v)\<lparr>h_label := label\<rparr>\<rparr>) w))"

definition sweep_dir_now :: "env \<Rightarrow> vault \<Rightarrow> world \<Rightarrow> world" where
  "sweep_dir_now E v w =
     (case parent (v_path v) of Some dir \<Rightarrow> snd (sweep_temp_files E dir 0 w) | None \<Rightarrow> w)"

definition set_key :: "key \<Rightarrow> vault \<Rightarrow> vault" where
  "set_key k v = (case v_state v of Unlocked _ its \<Rightarrow> v\<lparr>v_state := Unlocked k its\<rparr> | Locked \<Rightarrow> v)"

text \<open>From the point of \<open>change_key\<close> where the old key is known to open the vault.\<close>

definition rotate_key ::
  "vault_lib \<Rightarrow> env \<Rightarrow> bool \<Rightarrow> key \<Rightarrow> bytes \<Rightarrow> kdf_params \<Rightarrow> key \<Rightarrow> bytes \<Rightarrow> vault \<Rightarrow> world \<Rightarrow> unit outcome"
  where
  "rotate_key D E was_locked old_key new_salt new_kdf new_key new_index_salt v w =
     (let old_salt = h_salt (v_header v);
          old_kdf = h_kdf (v_header v);
          old_index_salt = h_index_salt (v_header v);
          v1 = set_key new_key (v\<lparr>v_header := (v_header v)\<lparr>h_salt := new_salt, h_kdf := new_kdf,
                 h_index_salt := new_index_salt\<rparr>\<rparr>);
          relock = (\<lambda>u. if was_locked then lock u else u)
      in case save D E v1 w of
           (Inl e, v2, w2) \<Rightarrow>
             (Inl e, relock (set_key old_key (v2\<lparr>v_header := (v_header v2)\<lparr>h_salt := old_salt,
                h_kdf := old_kdf, h_index_salt := old_index_salt\<rparr>\<rparr>)), w2)
         | (Inr _, v2, w2) \<Rightarrow> (Inr (), relock v2, sweep_dir_now E v2 w2))"

definition change_key ::
  "vault_lib \<Rightarrow> env \<Rightarrow> key \<Rightarrow> bytes \<Rightarrow> kdf_params \<Rightarrow> key \<Rightarrow> vault \<Rightarrow> world \<Rightarrow> unit outcome" where
  "change_key D E old_key new_salt new_kdf new_key v w =
     (case validate new_kdf of
        Inl e \<Rightarrow> (Inl (VCrypto e), v, w)
      | Inr _ \<Rightarrow>
          if new_salt = h_salt (v_header v) then (Inl SaltReused, v, w)
          else (case try_random_bytes E SALT_LEN w of
                  (Inl e, w1) \<Rightarrow> (Inl (VCrypto e), v, w1)
                | (Inr new_index_salt, w1) \<Rightarrow>
                    let w2 = sweep_dir_now E v w1;
                        was_locked = is_locked v
                    in if was_locked
                       then (case unlock_with_key D E old_key v w2 of
                               (Inl e, v1, w3) \<Rightarrow> (Inl e, v1, w3)
                             | (Inr _, v1, w3) \<Rightarrow>
                                 rotate_key D E was_locked old_key new_salt new_kdf new_key
                                   new_index_salt v1 w3)
                       else if \<not> verify_key D v old_key then (Inl WrongPassword, v, w2)
                       else rotate_key D E was_locked old_key new_salt new_kdf new_key
                              new_index_salt v w2))"

definition change_password ::
  "vault_lib \<Rightarrow> env \<Rightarrow> bytes \<Rightarrow> bytes \<Rightarrow> kdf_params \<Rightarrow> vault \<Rightarrow> world \<Rightarrow> unit outcome" where
  "change_password D E old new kdf v w =
     (case derive_key D old (h_salt (v_header v)) (h_kdf (v_header v)) of
        Inl e \<Rightarrow> (Inl (VCrypto e), v, w)
      | Inr old_key \<Rightarrow>
          (case try_random_bytes E SALT_LEN w of
             (Inl e, w1) \<Rightarrow> (Inl (VCrypto e), v, w1)
           | (Inr new_salt, w1) \<Rightarrow>
               (case derive_key D new new_salt kdf of
                  Inl e \<Rightarrow> (Inl (VCrypto e), v, w1)
                | Inr new_key \<Rightarrow> change_key D E old_key new_salt kdf new_key v w1)))"

definition delete_file :: "env \<Rightarrow> vault \<Rightarrow> world \<Rightarrow> (vault_error + unit) \<times> world" where
  "delete_file E v w =
     (case sys_unlink E (v_path v) w of
        (Inl e, w1) \<Rightarrow> (Inl (io_err (v_path v) (Os e)), w1)
      | (Inr _, w1) \<Rightarrow>
          (case parent (v_path v) of
             Some dir \<Rightarrow> (Inr (), snd (sweep_stale_temp_files E dir w1))
           | None \<Rightarrow> (Inr (), w1)))"

end
