(* ===== verification/Vault_Store_Proofs.thy ===== *)
theory Vault_Store_Proofs
  imports Vault_Store
begin

text \<open>
  The correctness of the vault's operations. The invariant \<open>vault_ok\<close> says that
  memory and disk describe the same collection: the file at the vault's path is
  the associated data followed by the ciphertext held in memory, it decodes to
  the header held in memory, and, while unlocked, the key held in memory
  decrypts it to exactly the items held in memory. Every operation keeps it,
  whatever fails, and an item operation that reports an error leaves the vault
  exactly as it was.
\<close>

section \<open>Saving\<close>

definition saved_header :: "vault_lib \<Rightarrow> vault \<Rightarrow> item list \<Rightarrow> u64 \<Rightarrow> bytes \<Rightarrow> header" where
  "saved_header D v its t nonce = (v_header v)\<lparr>h_modified := t, h_nonce := nonce,
     h_index := build_index D (h_index_salt (v_header v)) its (index_attributes v)\<rparr>"

lemma save_with_Inl: "save_with D E publish v w = (Inl e, v', w') \<Longrightarrow> v' = v"
  by (auto simp: save_with_def Let_def split: if_splits vault_state.splits prod.splits sum.splits)

lemma save_with_Inr:
  assumes "save_with D E publish v w = (Inr u, v', w')"
  obtains k its t nonce aad ct plain w2 where
    "v_state v = Unlocked k its" "\<not> retired v"
    "header_bytes D (saved_header D v its t nonce) = Inr aad"
    "encode_items D its = Inr plain" "seal D k nonce aad plain = Inr ct"
    "length (aad @ ct) \<le> size_limit v"
    "publish (v_path v) (aad @ ct) w2 = (Inr (), w')"
    "keeps q w w2" "length nonce = NONCE_LEN"
    "v' = v\<lparr>v_header := saved_header D v its t nonce, v_aad := aad, v_ciphertext := ct\<rparr>"
proof -
  obtain k its where st: "v_state v = Unlocked k its" and nr: "\<not> retired v"
    using assms by (auto simp: save_with_def split: if_splits vault_state.splits)
  obtain nonce w1 where r: "try_random_bytes E NONCE_LEN w = (Inr nonce, w1)"
    using assms st nr by (auto simp: save_with_def split: prod.splits sum.splits)
  obtain t w2 where n: "now E w1 = (t, w2)" by fastforce
  let ?h = "saved_header D v its t nonce"
  have hn: "h_nonce ?h = nonce" by (simp add: saved_header_def)
  obtain aad plain ct where
    "header_bytes D ?h = Inr aad" "encode_items D its = Inr plain" "seal D k nonce aad plain = Inr ct"
    "check_vault_size_against (length (aad @ ct)) (size_limit v) = Inr ()"
    "publish (v_path v) (aad @ ct) w2 = (Inr (), w')"
    "v' = v\<lparr>v_header := ?h, v_aad := aad, v_ciphertext := ct\<rparr>"
    using assms st nr r n
    by (auto simp: save_with_def saved_header_def Let_def split: prod.splits sum.splits)
  moreover have "keeps q w w2"
    using try_random_bytes_keeps [of q w E NONCE_LEN] r n by (auto simp: now_def intro: keeps_trans)
  moreover have "length nonce = NONCE_LEN" using r by (rule try_random_bytes_length)
  ultimately show ?thesis
    using that st nr by (auto simp: check_vault_size_against_def split: if_splits)
qed

context publisher
begin

lemma save_with_err_content:
  assumes "save_with D E publish v w = (Inl e, v', w')" "content w (v_path v) = Some b" "b \<noteq> []"
  shows "content w' (v_path v) = Some b"
proof -
  obtain r w1 where r: "try_random_bytes E NONCE_LEN w = (r, w1)" by fastforce
  then have w1: "content w1 (v_path v) = Some b"
    using keeps_content [OF try_random_bytes_keeps [of "v_path v" w E NONCE_LEN]] assms(2) by simp
  have tick: "content (next_tick x) q = content x q" for x q
    by (rule keeps_content) simp
  show ?thesis
    using assms r w1 tick
    by (auto simp: save_with_def Let_def now_def
        split: if_splits vault_state.splits prod.splits sum.splits dest!: publish_err)
qed

lemma save_with_frame:
  assumes "\<not> is_temp_path q" "q \<noteq> v_path v"
  shows "content (snd (snd (save_with D E publish v w))) q = content w q"
proof -
  obtain r w1 where r: "try_random_bytes E NONCE_LEN w = (r, w1)" by fastforce
  then have w1: "content w1 q = content w q"
    using keeps_content [OF try_random_bytes_keeps [of q w E NONCE_LEN]] by simp
  have tick: "content (next_tick x) q = content x q" for x
    by (rule keeps_content) simp
  show ?thesis
    using assms tick r w1
    by (auto simp: save_with_def Let_def now_def split: vault_state.splits prod.splits sum.splits
        dest!: publish_frame_content)
qed

end

section \<open>The invariant\<close>

definition unseals :: "vault_lib \<Rightarrow> vault \<Rightarrow> key \<Rightarrow> item list \<Rightarrow> bool" where
  "unseals D v k its \<longleftrightarrow>
     (\<exists>plain. crypto_open D k (h_nonce (v_header v)) (v_aad v) (v_ciphertext v) = Inr plain
            \<and> decode_items D plain = Inr its)"

definition on_disk :: "vault \<Rightarrow> bytes" where
  "on_disk v = v_aad v @ v_ciphertext v"

definition vault_path :: "path \<Rightarrow> bool" where
  "vault_path p \<longleftrightarrow> p \<noteq> [] \<and> \<not> is_temp_path p"

definition vault_ok :: "vault_lib \<Rightarrow> vault \<Rightarrow> world \<Rightarrow> bool" where
  "vault_ok D v w \<longleftrightarrow>
     (\<not> retired v \<longrightarrow> content w (v_path v) = Some (on_disk v))
   \<and> vault_file_decode D (on_disk v)
       = Inr \<lparr>vf_header = v_header v, vf_aad = v_aad v, vf_ciphertext = v_ciphertext v\<rparr>
   \<and> length (on_disk v) \<le> MAX_VAULT_BYTES \<and> size_limit v = MAX_VAULT_BYTES
   \<and> vault_path (v_path v)
   \<and> (\<forall>k its. v_state v = Unlocked k its \<longrightarrow> unseals D v k its)"

lemma vault_file_decode_InrD:
  assumes "vault_file_decode D bs = Inr f"
  shows "PREFIX_LEN \<le> length (vf_aad f)" "check_header (vf_header f) = Inr ()" "bs = vf_aad f @ vf_ciphertext f"
  using assms decode_header_prefix_InrD
  by (auto simp: vault_file_decode_def split: sum.splits prod.splits)

lemma vault_okD:
  assumes "vault_ok D v w"
  shows "on_disk v \<noteq> []" "check_header (v_header v) = Inr ()"
    "\<not> retired v \<Longrightarrow> content w (v_path v) = Some (on_disk v)" "vault_path (v_path v)"
    "size_limit v = MAX_VAULT_BYTES" "v_state v = Unlocked k its \<Longrightarrow> unseals D v k its"
  using assms vault_file_decode_InrD [of D "on_disk v"]
  by (auto simp: vault_ok_def on_disk_def PREFIX_LEN_def)

lemma vault_ok_world:
  "vault_ok D v w \<Longrightarrow> (\<not> retired v \<Longrightarrow> content w' (v_path v) = content w (v_path v)) \<Longrightarrow> vault_ok D v w'"
  by (auto simp: vault_ok_def)

lemma vault_ok_keeps: "vault_ok D v w \<Longrightarrow> keeps (v_path v) w w' \<Longrightarrow> vault_ok D v w'"
  by (erule vault_ok_world) (rule keeps_content)

lemma check_header_saved: "check_header (saved_header D v its t n) = check_header (v_header v)"
  by (simp add: check_header_def saved_header_def)

lemma save_with_ok:
  assumes "publisher publish" "lib_correct D" "save_with D E publish v w = (Inr u, v', w')"
    and "size_limit v = MAX_VAULT_BYTES" "vault_path (v_path v)" "check_header (v_header v) = Inr ()"
  shows "vault_ok D v' w'" "v_state v' = v_state v" "v_path v' = v_path v"
proof -
  from assms(3) obtain k its t nonce aad ct plain w2 where st: "v_state v = Unlocked k its"
    and nr: "\<not> retired v" and hb: "header_bytes D (saved_header D v its t nonce) = Inr aad"
    and en: "encode_items D its = Inr plain" and se: "seal D k nonce aad plain = Inr ct"
    and sz: "length (aad @ ct) \<le> size_limit v"
    and pb: "publish (v_path v) (aad @ ct) w2 = (Inr (), w')"
    and v': "v' = v\<lparr>v_header := saved_header D v its t nonce, v_aad := aad, v_ciphertext := ct\<rparr>"
    by (rule save_with_Inr)
  have lib: "aead_correct D" "codec_correct (header_codec D)" "codec_correct (items_codec D)"
    using assms(2) by (auto simp: lib_correct_def)
  have "vault_file_decode D (aad @ ct)
      = Inr \<lparr>vf_header = saved_header D v its t nonce, vf_aad = aad, vf_ciphertext = ct\<rparr>"
    using lib(2) hb assms(6) by (intro vault_file_decode_header_bytes) (simp_all add: check_header_saved)
  moreover have "content w' (v_path v) = Some (aad @ ct)"
    using publisher.publish_ok [OF assms(1) pb] .
  moreover have "unseals D v' k its"
    using seal_open [OF lib(1) se] decode_encode_items [OF lib(3) en]
    by (auto simp: unseals_def v' saved_header_def)
  ultimately show "vault_ok D v' w'"
    using sz assms(4,5) st by (auto simp: vault_ok_def v' on_disk_def unseals_def)
  show "v_state v' = v_state v" "v_path v' = v_path v" by (simp_all add: v')
qed

lemma save_ok:
  assumes "lib_correct D" "save D E v w = (Inr u, v', w')"
    and "size_limit v = MAX_VAULT_BYTES" "vault_path (v_path v)" "check_header (v_header v) = Inr ()"
  shows "vault_ok D v' w'" "v_state v' = v_state v" "v_path v' = v_path v"
  by (rule save_with_ok [OF replacing.publisher_axioms assms(1) assms(2) [unfolded save_def] assms(3-)])+

section \<open>Transactions\<close>

text \<open>
  A draft is a vault after the in-memory half of an edit: only its items, its
  key, its label or its salts may differ from the vault it came from.
\<close>

definition draft :: "vault \<Rightarrow> vault \<Rightarrow> bool" where
  "draft v v1 \<longleftrightarrow> v_path v1 = v_path v \<and> size_limit v1 = size_limit v \<and> retired v1 = retired v
     \<and> check_header (v_header v1) = check_header (v_header v)"

lemma save_err:
  assumes "save D E v1 w = (Inl e, v', w')" "vault_ok D v w" "draft v v1"
  shows "v' = v1" "vault_ok D v w'"
proof -
  show "v' = v1" using assms(1) unfolding save_def by (rule save_with_Inl)
  have "content w' (v_path v) = content w (v_path v)" if "\<not> retired v"
    using replacing.save_with_err_content [of D E E v1 w e v' w' "on_disk v"]
      assms vault_okD(1,3) [OF assms(2)] that
    by (simp add: save_def draft_def)
  with assms(2) show "vault_ok D v w'" by (rule vault_ok_world)
qed

lemma save_or_restore_ok:
  assumes "lib_correct D" "vault_ok D v w" "draft v v1" "restore before v1 = v"
    and "save_or_restore D E before restore v1 w = (r, v', w')"
  shows "vault_ok D v' w'"
    and "r = Inl e \<Longrightarrow> v' = v"
    and "r = Inr () \<Longrightarrow> v_state v' = v_state v1"
proof -
  obtain r1 v2 w2 where s: "save D E v1 w = (r1, v2, w2)" by (metis prod_cases3)
  have "vault_ok D v' w' \<and> (r = Inl e \<longrightarrow> v' = v) \<and> (r = Inr () \<longrightarrow> v_state v' = v_state v1)"
  proof (cases r1)
    case (Inl e)
    from save_err [OF s [unfolded Inl] assms(2,3)] assms(4,5) s Inl show ?thesis
      by (auto simp: save_or_restore_def)
  next
    case (Inr u)
    have "size_limit v1 = MAX_VAULT_BYTES" "vault_path (v_path v1)" "check_header (v_header v1) = Inr ()"
      using assms(3) vault_okD [OF assms(2)] by (simp_all add: draft_def)
    from save_ok [OF assms(1) s [unfolded Inr] this] assms(5) s Inr show ?thesis
      by (auto simp: save_or_restore_def)
  qed
  then show "vault_ok D v' w'" "r = Inl e \<Longrightarrow> v' = v" "r = Inr () \<Longrightarrow> v_state v' = v_state v1" by auto
qed

text \<open>
  The contract of \<open>ItemDelta\<close>: what an edit does to the item list, recorded as a
  delta, is undone by \<open>restore_items\<close>. Every item operation is an instance.
\<close>

locale reversible_edit =
  fixes guard :: "item list \<Rightarrow> bool"
    and edit :: "item list \<Rightarrow> item list"
    and delta :: "item list \<Rightarrow> item_delta"
  assumes restores: "guard its \<Longrightarrow> restore_items (delta its) (edit its) = its"
begin

lemma restore_edit:
  assumes "v_state v = Unlocked k its" "guard its"
  shows "restore_delta (delta its) (v\<lparr>v_state := Unlocked k (edit its)\<rparr>) = v"
  using assms restores by (simp add: restore_delta_def)

lemma transaction:
  assumes "lib_correct D" "vault_ok D v w" "v_state v = Unlocked k its" "guard its"
    and "save_or_restore D E (delta its) restore_delta (v\<lparr>v_state := Unlocked k (edit its)\<rparr>) w = (r, v', w')"
  shows "vault_ok D v' w'" "r = Inl e \<Longrightarrow> v' = v" "r = Inr () \<Longrightarrow> v_state v' = Unlocked k (edit its)"
  using save_or_restore_ok [OF assms(1,2) _ restore_edit [OF assms(3,4)] assms(5)]
  by (auto simp: draft_def)

end

interpretation push: reversible_edit "\<lambda>_. True" "\<lambda>its. its @ [x]" "\<lambda>_. Pushed" for x
  by unfold_locales simp

interpretation replace: reversible_edit "\<lambda>its. i < length its" "\<lambda>its. its[i := x]"
  "\<lambda>its. Replaced i (its ! i)" for i x
  by unfold_locales simp

interpretation remove: reversible_edit "\<lambda>its. i < length its" "vec_remove i"
  "\<lambda>its. Removed i (its ! i)" for i
  by unfold_locales auto

lemma split_doomed_kept: "fst (split_doomed P n xs) = filter (\<lambda>x. \<not> P x) xs"
  by (induction P n xs rule: split_doomed.induct) (auto simp: Let_def split: prod.splits)

text \<open>Reinserting in ascending order of the old indices rebuilds the list.\<close>

lemma reinsert_split_doomed:
  "split_doomed P n xs = (kept, removed) \<Longrightarrow> length pre = n \<Longrightarrow> reinsert removed (pre @ kept) = pre @ xs"
proof (induction xs arbitrary: n pre kept removed)
  case (Cons x xs)
  obtain kept' removed' where s: "split_doomed P (Suc n) xs = (kept', removed')" by fastforce
  have IH: "reinsert removed' ((pre @ [x]) @ kept') = (pre @ [x]) @ xs"
    using Cons.prems(2) by (intro Cons.IH [OF s]) simp
  show ?case
    using Cons.prems s IH by (auto simp: vec_insert_def split: if_splits)
qed simp

interpretation remove_many: reversible_edit "\<lambda>_. True" "\<lambda>its. fst (split_doomed P 0 its)"
  "\<lambda>its. RemovedMany (snd (split_doomed P 0 its))" for P
  using reinsert_split_doomed [of P 0 _ _ _ "[]"] by unfold_locales simp

section \<open>The item operations\<close>

lemma vault_ok_tick: "vault_ok D v w \<Longrightarrow> vault_ok D v (next_tick w)"
  by (erule vault_ok_keeps) simp

lemma vault_ok_now: "vault_ok D v w \<Longrightarrow> now E w = (t, w') \<Longrightarrow> vault_ok D v w'"
  by (auto simp: now_def vault_ok_tick)

lemma vault_ok_uuid: "vault_ok D v w \<Longrightarrow> uuid_v4 E w = (i, w') \<Longrightarrow> vault_ok D v w'"
  by (auto simp: uuid_v4_def vault_ok_tick)

lemma vault_ok_random: "vault_ok D v w \<Longrightarrow> try_random_bytes E n w = (r, w') \<Longrightarrow> vault_ok D v w'"
  using try_random_bytes_world [of E n w] by (simp add: vault_ok_tick)

text \<open>What an insert does to the item list, with the clock reading and the fresh id.\<close>

definition inserted ::
  "ustr \<Rightarrow> attrs \<Rightarrow> bytes \<Rightarrow> ustr \<Rightarrow> bool \<Rightarrow> u64 \<Rightarrow> ustr \<Rightarrow> item list \<Rightarrow> item list \<times> ustr \<times> bool" where
  "inserted label attributes secret content_type replace t fresh its =
     (case (if replace then position (\<lambda>i. it_attributes i = attributes) its else None) of
        Some p \<Rightarrow>
          (its[p := (its ! p)\<lparr>it_label := label, it_secret := secret,
                        it_content_type := content_type, it_modified := t\<rparr>], it_id (its ! p), True)
      | None \<Rightarrow>
          (its @ [\<lparr>it_id = fresh, it_label = label, it_attributes = attributes, it_secret = secret,
                 it_content_type = content_type, it_created = t, it_modified = t\<rparr>], fresh, False))"

text \<open>
  The contract every item operation keeps: the invariant survives whatever
  happens, an error leaves the vault exactly as it was, and success means the
  vault is unlocked and its item list went through \<open>effect\<close>.
\<close>

definition contract ::
  "vault_lib \<Rightarrow> vault \<Rightarrow> 'a outcome \<Rightarrow> ('a \<Rightarrow> item list \<Rightarrow> item list \<Rightarrow> bool) \<Rightarrow> bool" where
  "contract D v out effect \<longleftrightarrow>
     (case out of (r, v', w') \<Rightarrow> vault_ok D v' w'
        \<and> (case r of Inl _ \<Rightarrow> v' = v
           | Inr x \<Rightarrow> \<exists>k its its'. v_state v = Unlocked k its \<and> v_state v' = Unlocked k its'
               \<and> effect x its its'))"

lemma contract_Inl [simp]: "contract D v (Inl e, v', w') f \<longleftrightarrow> vault_ok D v' w' \<and> v' = v"
  by (simp add: contract_def)

lemma contract_Inr [simp]: "contract D v (Inr x, v', w') f \<longleftrightarrow> vault_ok D v' w' \<and>
    (\<exists>k its its'. v_state v = Unlocked k its \<and> v_state v' = Unlocked k its' \<and> f x its its')"
  by (simp add: contract_def)

context reversible_edit
begin

lemma transaction_contract:
  assumes "lib_correct D" "vault_ok D v w" "v_state v = Unlocked k its" "guard its"
  shows "contract D v (save_or_restore D E (delta its) restore_delta
      (v\<lparr>v_state := Unlocked k (edit its)\<rparr>) w) (\<lambda>_ a b. a = its \<and> b = edit its)"
proof -
  obtain r v' w' where s: "save_or_restore D E (delta its) restore_delta
      (v\<lparr>v_state := Unlocked k (edit its)\<rparr>) w = (r, v', w')" by (metis prod_cases3)
  from transaction [OF assms s] assms(3) s show ?thesis by (cases r) auto
qed

end

lemma contract_bind:
  assumes "contract D v out f" "\<And>its its'. f () its its' \<Longrightarrow> g x its its'"
  shows "contract D v (case out of
      (Inl e, v', w') \<Rightarrow> (Inl e, v', w')
    | (Inr _, v', w') \<Rightarrow> (Inr x, v', w')) g"
  using assms by (auto simp: contract_def split: prod.splits sum.splits)

lemma contract_mono:
  "contract D v out f \<Longrightarrow> (\<And>x its its'. f x its its' \<Longrightarrow> g x its its') \<Longrightarrow> contract D v out g"
  by (fastforce simp: contract_def split: prod.splits sum.splits)


lemma insert_item_unchecked_contract:
  assumes "lib_correct D" "vault_ok D v w"
  shows "contract D v (insert_item_unchecked D E label attributes secret content_type replace v w)
    (\<lambda>x its its'. \<exists>t fresh. inserted label attributes secret content_type replace t fresh its = (its', x))"
proof -
  obtain t w1 where n: "now E w = (t, w1)" by fastforce
  have ok1: "vault_ok D v w1" by (rule vault_ok_now [OF assms(2) n])
  show ?thesis
  proof (cases "v_state v")
    case Locked
    with n ok1 show ?thesis by (simp add: insert_item_unchecked_def)
  next
    case (Unlocked k its)
    show ?thesis
    proof (cases "if replace then position (\<lambda>i. it_attributes i = attributes) its else None")
      case None
      obtain i w2 where u: "uuid_v4 E w1 = (i, w2)" by fastforce
      note tr = push.transaction_contract [OF assms(1) vault_ok_uuid [OF ok1 u] Unlocked TrueI]
      show ?thesis
        unfolding insert_item_unchecked_def n Unlocked Let_def prod.case vault_state.case None
          option.case u
        by (rule contract_bind [OF tr]) (auto simp: inserted_def None)
    next
      case (Some p)
      then have lt: "p < length its" by (auto dest: position_less split: if_splits)
      note tr = replace.transaction_contract [OF assms(1) ok1 Unlocked lt]
      show ?thesis
        unfolding insert_item_unchecked_def n Unlocked Let_def prod.case vault_state.case Some
          option.case
        by (rule contract_bind [OF tr]) (auto simp: inserted_def Some)
    qed
  qed
qed

lemma insert_item_contract:
  assumes "lib_correct D" "vault_ok D v w"
  shows "contract D v (insert_item D E label attributes secret content_type replace v w)
    (\<lambda>x its its'. within_caps label attributes (length secret) content_type
      \<and> (\<exists>t fresh. inserted label attributes secret content_type replace t fresh its = (its', x)))"
proof -
  have "check_item_caps label attributes (length secret) content_type = Inr ()
      \<Longrightarrow> within_caps label attributes (length secret) content_type"
    by (simp add: check_item_caps_def check_caps_None_iff split: option.splits)
  then show ?thesis
    using assms(2) contract_mono [OF insert_item_unchecked_contract [OF assms]]
    by (auto simp: insert_item_def split: sum.splits)
qed

lemma vault_state_same: "v_state v = s \<Longrightarrow> v\<lparr>v_state := s\<rparr> = v"
  by simp

lemma update_item_contract:
  assumes "lib_correct D" "vault_ok D v w"
  shows "contract D v (update_item D E i f v w) (\<lambda>_ its its'. \<exists>p t x.
    position (\<lambda>x. it_id x = i) its = Some p \<and> x = (f (its ! p))\<lparr>it_modified := t\<rparr> \<and> its' = its[p := x]
    \<and> within_caps (it_label x) (it_attributes x) (length (it_secret x)) (it_content_type x))"
proof (cases "v_state v")
  case Locked
  with assms show ?thesis by (simp add: update_item_def)
next
  case (Unlocked k its)
  show ?thesis
  proof (cases "position (\<lambda>x. it_id x = i) its")
    case None
    with Unlocked assms show ?thesis by (simp add: update_item_def)
  next
    case (Some p)
    then have lt: "p < length its" by (rule position_less)
    obtain t w1 where n: "now E w = (t, w1)" by fastforce
    have ok1: "vault_ok D v w1" by (rule vault_ok_now [OF assms(2) n])
    note tr = replace.transaction_contract [OF assms(1) ok1 Unlocked lt]
    let ?x = "(f (its ! p))\<lparr>it_modified := t\<rparr>"
    show ?thesis
    proof (cases "check_caps (it_label ?x) (it_attributes ?x) (length (it_secret ?x)) (it_content_type ?x)")
      case None
      then have "within_caps (it_label ?x) (it_attributes ?x) (length (it_secret ?x)) (it_content_type ?x)"
        by (simp add: check_caps_None_iff)
      then show ?thesis
        unfolding update_item_def n Unlocked Let_def prod.case vault_state.case Some option.case None
        by (intro contract_mono [OF tr]) (auto simp: Some)
    next
      case over: (Some c)
      have "v\<lparr>v_state := Unlocked k ((its[p := ?x])[p := its ! p])\<rparr> = v"
        using Unlocked by (simp add: vault_state_same)
      then show ?thesis
        unfolding update_item_def n Unlocked Let_def prod.case vault_state.case Some option.case over
        using ok1 by simp
    qed
  qed
qed

lemma delete_item_contract:
  assumes "lib_correct D" "vault_ok D v w"
  shows "contract D v (delete_item D E i v w) (\<lambda>_ its its'. \<exists>p.
    position (\<lambda>x. it_id x = i) its = Some p \<and> its' = vec_remove p its)"
proof (cases "v_state v")
  case Locked
  with assms show ?thesis by (simp add: delete_item_def)
next
  case (Unlocked k its)
  show ?thesis
  proof (cases "position (\<lambda>x. it_id x = i) its")
    case None
    with Unlocked assms show ?thesis by (simp add: delete_item_def)
  next
    case (Some p)
    then have lt: "p < length its" by (rule position_less)
    show ?thesis
      unfolding delete_item_def Unlocked vault_state.case Some option.case
      by (rule contract_mono [OF remove.transaction_contract [OF assms Unlocked lt]])
        (auto simp: Some)
  qed
qed

lemma delete_items_contract:
  assumes "lib_correct D" "vault_ok D v w" "ids \<noteq> []"
  shows "contract D v (delete_items D E ids v w) (\<lambda>_ its its'.
    set ids \<subseteq> it_id ` set its \<and> its' = filter (\<lambda>x. it_id x \<notin> set ids) its)"
proof (cases "v_state v")
  case Locked
  with assms show ?thesis by (simp add: delete_items_def)
next
  case (Unlocked k its)
  show ?thesis
  proof (cases "find (\<lambda>i. i \<notin> it_id ` set its) ids")
    case (Some i)
    with Unlocked assms show ?thesis by (simp add: delete_items_def)
  next
    case None
    then have all: "set ids \<subseteq> it_id ` set its" by (auto simp: find_None_iff)
    let ?P = "\<lambda>x. it_id x \<in> set ids"
    obtain kept removed where sd: "split_doomed ?P 0 its = (kept, removed)" by fastforce
    then have kept: "kept = filter (\<lambda>x. it_id x \<notin> set ids) its"
      using split_doomed_kept [of ?P 0 its] by simp
    note tr = remove_many.transaction_contract [OF assms(1,2) Unlocked TrueI, of E ?P,
      unfolded sd fst_conv snd_conv]
    have eq: "delete_items D E ids v w = save_or_restore D E (RemovedMany removed) restore_delta
        (v\<lparr>v_state := Unlocked k kept\<rparr>) w"
      using Unlocked None assms(3) sd by (simp add: delete_items_def)
    show ?thesis unfolding eq by (rule contract_mono [OF tr]) (use all kept in auto)
  qed
qed

subsection \<open>Imports and labels\<close>

definition imported :: "import_item list \<Rightarrow> ustr list \<Rightarrow> item list" where
  "imported batch ids = map2 (\<lambda>x i. \<lparr>it_id = i, it_label = im_label x, it_attributes = im_attributes x,
     it_secret = im_secret x, it_content_type = im_content_type x, it_created = im_created x,
     it_modified = im_modified x\<rparr>) batch ids"

lemma push_imports_result:
  "push_imports E batch acc w = (its', w') \<Longrightarrow> vault_ok D v w \<Longrightarrow>
     \<exists>ids. length ids = length batch \<and> its' = acc @ imported batch ids \<and> vault_ok D v w'"
proof (induction batch arbitrary: acc w)
  case Nil
  then show ?case by (simp add: imported_def)
next
  case (Cons x batch)
  obtain i w1 where u: "uuid_v4 E w = (i, w1)" by fastforce
  have ok1: "vault_ok D v w1" by (rule vault_ok_uuid [OF Cons.prems(2) u])
  from Cons.prems(1) u obtain ids where "length ids = length batch" "vault_ok D v w'"
    and "its' = (acc @ imported [x] [i]) @ imported batch ids"
    using Cons.IH [OF _ ok1] by (fastforce simp: Let_def imported_def)
  then show ?case
    by (intro exI [of _ "i # ids"]) (simp add: imported_def)
qed

lemma check_import_items_Inr:
  "check_import_items n batch = Inr () \<Longrightarrow> x \<in> set batch \<Longrightarrow>
     within_caps (im_label x) (im_attributes x) (length (im_secret x)) (im_content_type x)"
proof (induction batch arbitrary: n)
  case (Cons y batch)
  have "check_import_item n y = Inr () \<Longrightarrow>
      within_caps (im_label y) (im_attributes y) (length (im_secret y)) (im_content_type y)"
    by (simp add: check_import_item_def check_caps_None_iff split: option.splits)
  with Cons show ?case by (auto split: sum.splits)
qed simp

lemma truncate_appended:
  assumes "v_state v = Unlocked k its"
  shows "truncate_items (length its) (v\<lparr>v_state := Unlocked k (its @ extra)\<rparr>) = v"
  using assms by (simp add: truncate_items_def)

lemma contract_save_or_restore:
  assumes "lib_correct D" "vault_ok D v w" "draft v v1" "restore before v1 = v"
    and "v_state v = Unlocked k its" "v_state v1 = Unlocked k its1"
  shows "contract D v (save_or_restore D E before restore v1 w) (\<lambda>_ a b. a = its \<and> b = its1)"
proof -
  obtain r v' w' where s: "save_or_restore D E before restore v1 w = (r, v', w')" by (metis prod_cases3)
  from save_or_restore_ok [OF assms(1-4) s] assms(5,6) s show ?thesis by (cases r) auto
qed

lemma import_items_contract:
  assumes "lib_correct D" "vault_ok D v w" "batch \<noteq> []"
  shows "contract D v (import_items D E batch v w) (\<lambda>_ its its'.
    (\<exists>ids. length ids = length batch \<and> its' = its @ imported batch ids)
    \<and> (\<forall>x\<in>set batch. within_caps (im_label x) (im_attributes x) (length (im_secret x)) (im_content_type x)))"
proof (cases "v_state v")
  case Locked
  with assms show ?thesis by (simp add: import_items_def)
next
  case (Unlocked k its)
  show ?thesis
  proof (cases "check_import_items 0 batch")
    case (Inl e)
    with Unlocked assms show ?thesis by (simp add: import_items_def)
  next
    case (Inr u)
    obtain its1 w1 where p: "push_imports E batch its w = (its1, w1)" by fastforce
    from push_imports_result [OF p assms(2)] obtain ids where ids: "length ids = length batch"
      and its1: "its1 = its @ imported batch ids" and ok1: "vault_ok D v w1" by blast
    have d: "draft v (v\<lparr>v_state := Unlocked k its1\<rparr>)" by (simp add: draft_def)
    have t: "truncate_items (length its) (v\<lparr>v_state := Unlocked k its1\<rparr>) = v"
      using Unlocked its1 truncate_appended by simp
    have tr: "contract D v (save_or_restore D E (length its) truncate_items
        (v\<lparr>v_state := Unlocked k its1\<rparr>) w1) (\<lambda>_ a b. a = its \<and> b = its1)"
      by (rule contract_save_or_restore) (use assms(1) ok1 d t Unlocked in simp_all)
    have eq: "import_items D E batch v w = save_or_restore D E (length its) truncate_items
        (v\<lparr>v_state := Unlocked k its1\<rparr>) w1"
      using Unlocked Inr p assms(3) by (simp add: import_items_def)
    have caps: "\<forall>x\<in>set batch. within_caps (im_label x) (im_attributes x) (length (im_secret x))
        (im_content_type x)"
      using check_import_items_Inr [of 0 batch] Inr by simp
    show ?thesis
      unfolding eq by (rule contract_mono [OF tr]) (use ids its1 caps in auto)
  qed
qed

lemma set_label_contract:
  assumes "lib_correct D" "vault_ok D v w"
  shows "contract D v (set_label D E label v w) (\<lambda>_ its its'. its' = its \<and> str_len label \<le> MAX_LABEL)"
proof (cases "check_label label")
  case (Inl e)
  with assms show ?thesis by (simp add: set_label_def)
next
  case (Inr u)
  then have len: "str_len label \<le> MAX_LABEL" by (simp add: check_label_def split: if_splits)
  show ?thesis
  proof (cases "v_state v")
    case Locked
    with Inr assms show ?thesis by (simp add: set_label_def)
  next
    case (Unlocked k its)
    let ?v1 = "v\<lparr>v_header := (v_header v)\<lparr>h_label := label\<rparr>\<rparr>"
    have d: "draft v ?v1" by (simp add: draft_def check_header_def)
    let ?restore = "\<lambda>old u. u\<lparr>v_header := (v_header u)\<lparr>h_label := old\<rparr>\<rparr>"
    have "contract D v (save_or_restore D E (h_label (v_header v)) ?restore ?v1 w)
        (\<lambda>_ a b. a = its \<and> b = its)"
      by (rule contract_save_or_restore) (use assms d Unlocked in simp_all)
    from contract_mono [OF this] show ?thesis
      using Inr Unlocked len by (simp add: set_label_def)
  qed
qed

end
