(* ===== verification/Vault_Lifecycle.thy ===== *)
theory Vault_Lifecycle
  imports Vault_Store_Proofs
begin

text \<open>
  The operations of \<open>struct Vault\<close> that change what a vault is rather than what
  it holds: creating, opening, locking, unlocking, changing the key and deleting
  the file. The invariant \<open>vault_ok\<close> survives all of them, a vault that was
  saved opens again with the same items, and the step relation \<open>vault_step\<close>
  collects every operation of the type so that the invariant holds of every
  vault a running program can reach.
\<close>

section \<open>Frame facts\<close>

lemma vault_path_not_temp_name: "vault_path p \<Longrightarrow> \<not> is_write_atomic_temp_name (last p)"
  by (auto simp: vault_path_def is_temp_path_def is_write_atomic_temp_name_def split: option.splits)

lemma sweep_dir_now_keeps: "vault_path q \<Longrightarrow> keeps q w (sweep_dir_now E v w)"
  by (simp add: sweep_dir_now_def sweep_temp_files_keeps vault_path_not_temp_name split: option.splits)

lemma vault_ok_sweep: "vault_ok D v w \<Longrightarrow> vault_ok D v (sweep_dir_now E v' w)"
  by (rule vault_ok_keeps) (auto intro: sweep_dir_now_keeps vault_okD(4))

lemma vault_ok_index_warning [simp]: "vault_ok D (v\<lparr>index_warning := x\<rparr>) w = vault_ok D v w"
  by (simp add: vault_ok_def on_disk_def unseals_def)

lemma vault_ok_lock: "vault_ok D v w \<Longrightarrow> vault_ok D (lock v) w"
  by (simp add: vault_ok_def on_disk_def unseals_def lock_def)

lemma vault_ok_flags:
  "vault_ok D v w \<Longrightarrow> vault_ok D (set_index_attributes b v) w"
  "vault_ok D v w \<Longrightarrow> vault_ok D (set_pinned b v) w"
  "vault_ok D v w \<Longrightarrow> vault_ok D (retire v) w"
  by (simp_all add: vault_ok_def on_disk_def unseals_def set_index_attributes_def set_pinned_def retire_def)

lemma vault_ok_unretire:
  "vault_ok D v w \<Longrightarrow> content w (v_path v) = Some (on_disk v) \<Longrightarrow> vault_ok D (unretire v) w"
  by (simp add: vault_ok_def on_disk_def unseals_def unretire_def)

lemma vault_ok_unlocked:
  "vault_ok D v w \<Longrightarrow> unseals D v k its \<Longrightarrow> vault_ok D (v\<lparr>v_state := Unlocked k its\<rparr>) w"
  by (simp add: vault_ok_def on_disk_def unseals_def)

lemma draft_refl [simp]: "draft v v"
  by (simp add: draft_def)

section \<open>Unlocking\<close>

lemma save_keeps_ok:
  assumes "lib_correct D" "vault_ok D v w" "save D E v w = (r, v', w')"
  shows "vault_ok D v' w' \<and> v_state v' = v_state v \<and> v_path v' = v_path v"
proof (cases r)
  case (Inl e)
  from save_err [OF assms(3) [unfolded Inl] assms(2)] assms(2) show ?thesis by simp
next
  case (Inr u)
  from save_ok [OF assms(1) assms(3) [unfolded Inr]] vault_okD [OF assms(2)] show ?thesis by simp
qed

lemma unlock_with_key_ok:
  assumes "lib_correct D" "vault_ok D v w" "unlock_with_key D E k v w = (r, v', w')"
  shows "vault_ok D v' w'"
    and "r = Inl e \<Longrightarrow> v' = v \<and> w' = w"
    and "r = Inr () \<Longrightarrow> \<not> retired v \<and> v_path v' = v_path v
      \<and> (\<exists>its. v_state v' = Unlocked k its \<and> unseals D v k its)"
proof -
  have "vault_ok D v' w' \<and> (r = Inl e \<longrightarrow> v' = v \<and> w' = w) \<and> (r = Inr () \<longrightarrow> \<not> retired v
      \<and> v_path v' = v_path v \<and> (\<exists>its. v_state v' = Unlocked k its \<and> unseals D v k its))"
  proof (cases "retired v \<or> \<not> is_locked v")
    case True
    with assms(2,3) vault_okD(6) [OF assms(2)] show ?thesis
      by (cases "v_state v") (auto simp: unlock_with_key_def is_locked_def verify_key_def split: if_splits)
  next
    case False
    show ?thesis
    proof (cases "\<exists>its. unseals D v k its")
      case True
      then obtain its where u: "unseals D v k its" by blast
      define v1 where "v1 = v\<lparr>v_state := Unlocked k its\<rparr>"
      have ok1: "vault_ok D v1 w" using vault_ok_unlocked [OF assms(2) u] by (simp add: v1_def)
      obtain r2 v2 w2 where s: "save D E v1 w = (r2, v2, w2)" by (metis prod_cases3)
      from save_keeps_ok [OF assms(1) ok1 s]
      have "vault_ok D v2 w2" "v_state v2 = Unlocked k its" "v_path v2 = v_path v" by (simp_all add: v1_def)
      with assms(3) False u s ok1 show ?thesis
        by (auto simp: unlock_with_key_def unseals_def Let_def v1_def split: if_splits sum.splits)
    next
      case False
      with assms(2,3) \<open>\<not> (retired v \<or> \<not> is_locked v)\<close> show ?thesis
        by (auto simp: unlock_with_key_def unseals_def split: sum.splits)
    qed
  qed
  then show "vault_ok D v' w'" "r = Inl e \<Longrightarrow> v' = v \<and> w' = w"
    "r = Inr () \<Longrightarrow> \<not> retired v \<and> v_path v' = v_path v
      \<and> (\<exists>its. v_state v' = Unlocked k its \<and> unseals D v k its)" by auto
qed

lemma unlock_with_key_succeeds:
  assumes "\<not> retired v" "is_locked v" "unseals D v k its"
  shows "fst (unlock_with_key D E k v w) = Inr ()"
  using assms by (auto simp: unlock_with_key_def unseals_def Let_def split: prod.splits sum.splits)

section \<open>Changing the key\<close>

lemma save_with_header:
  assumes "save_with D E publish v w = (Inr u, v', w')"
  shows "\<exists>k its t nonce. v_state v = Unlocked k its \<and> v_header v' = saved_header D v its t nonce
    \<and> length nonce = NONCE_LEN \<and> v' = v\<lparr>v_header := v_header v', v_aad := v_aad v', v_ciphertext := v_ciphertext v'\<rparr>"
  using assms by (rule save_with_Inr) (simp, blast)

lemma save_header:
  assumes "save D E v w = (Inr u, v', w')"
  shows "h_salt (v_header v') = h_salt (v_header v)" "h_kdf (v_header v') = h_kdf (v_header v)"
    "h_index_salt (v_header v') = h_index_salt (v_header v)" "h_label (v_header v') = h_label (v_header v)"
    "retired v' = retired v" "pinned v' = pinned v" "index_attributes v' = index_attributes v"
    "v_path v' = v_path v"
proof -
  obtain its t nonce where h: "v_header v' = saved_header D v its t nonce"
    and v': "v' = v\<lparr>v_header := v_header v', v_aad := v_aad v', v_ciphertext := v_ciphertext v'\<rparr>"
    using save_with_header [OF assms [unfolded save_def]] by blast
  show "h_salt (v_header v') = h_salt (v_header v)" "h_kdf (v_header v') = h_kdf (v_header v)"
    "h_index_salt (v_header v') = h_index_salt (v_header v)" "h_label (v_header v') = h_label (v_header v)"
    by (simp_all add: h saved_header_def)
  show "retired v' = retired v" "pinned v' = pinned v" "index_attributes v' = index_attributes v"
    "v_path v' = v_path v"
    by (subst v', simp)+
qed

text \<open>What a completed rotation promises of the vault it leaves behind.\<close>

definition rekeyed :: "vault_lib \<Rightarrow> bytes \<Rightarrow> kdf_params \<Rightarrow> key \<Rightarrow> item list \<Rightarrow> vault \<Rightarrow> bool" where
  "rekeyed D new_salt new_kdf new_key its v' \<longleftrightarrow>
     h_salt (v_header v') = new_salt \<and> h_kdf (v_header v') = new_kdf \<and> unseals D v' new_key its \<and> \<not> retired v'"

lemma rekeyed_lock [simp]: "rekeyed D s p k its (lock v) = rekeyed D s p k its v"
  by (simp add: rekeyed_def unseals_def lock_def)

lemma rotate_key_ok:
  assumes "lib_correct D" "vault_ok D v w" "v_state v = Unlocked old_key its"
    and valid: "validate new_kdf = Inr ()"
    and rot: "rotate_key D E was_locked old_key new_salt new_kdf new_key new_index_salt v w = (r, v', w')"
  shows "vault_ok D v' w' \<and> (case r of
      Inl _ \<Rightarrow> v' = (if was_locked then lock v else v)
    | Inr _ \<Rightarrow> rekeyed D new_salt new_kdf new_key its v' \<and> v_path v' = v_path v
        \<and> v_state v' = (if was_locked then Locked else Unlocked new_key its))"
proof -
  define v1 where "v1 = set_key new_key (v\<lparr>v_header := (v_header v)\<lparr>h_salt := new_salt, h_kdf := new_kdf,
    h_index_salt := new_index_salt\<rparr>\<rparr>)"
  have st1: "v_state v1 = Unlocked new_key its" using assms(3) by (simp add: v1_def set_key_def)
  have hd1: "h_salt (v_header v1) = new_salt" "h_kdf (v_header v1) = new_kdf" and p1: "v_path v1 = v_path v"
    using assms(3) by (simp_all add: v1_def set_key_def)
  have "check_header (v_header v1) = Inr ()"
    using vault_okD(2) [OF assms(2)] valid assms(3)
    by (auto simp: v1_def set_key_def check_header_def split: if_splits)
  then have d: "draft v v1"
    using vault_okD(2) [OF assms(2)] assms(3) by (simp add: v1_def set_key_def draft_def)
  have restore: "set_key old_key (v1\<lparr>v_header := (v_header v1)\<lparr>h_salt := h_salt (v_header v),
      h_kdf := h_kdf (v_header v), h_index_salt := h_index_salt (v_header v)\<rparr>\<rparr>) = v"
    using assms(3) by (simp add: v1_def set_key_def)
  obtain r2 v2 w2 where s: "save D E v1 w = (r2, v2, w2)" by (metis prod_cases3)
  show ?thesis
  proof (cases r2)
    case (Inl e)
    from save_err [OF s [unfolded Inl] assms(2) d] restore s Inl rot show ?thesis
      by (auto simp: rotate_key_def Let_def v1_def [symmetric] vault_ok_lock)
  next
    case (Inr u)
    have "size_limit v1 = MAX_VAULT_BYTES" "vault_path (v_path v1)" "check_header (v_header v1) = Inr ()"
      using d vault_okD [OF assms(2)] by (simp_all add: draft_def)
    note ok2 = save_ok [OF assms(1) s [unfolded Inr] this] and h2 = save_header [OF s [unfolded Inr]]
    have "\<not> retired v1" using s Inr by (auto simp: save_def save_with_def split: if_splits)
    then have "rekeyed D new_salt new_kdf new_key its v2"
      using ok2(2) st1 vault_okD(6) [OF ok2(1)] h2 hd1 by (simp add: rekeyed_def)
    with ok2 h2 st1 p1 s Inr rot show ?thesis
      by (auto simp: rotate_key_def Let_def v1_def [symmetric] vault_ok_sweep vault_ok_lock)
        (simp_all add: lock_def)
  qed
qed

lemma unseals_det: "unseals D v k its \<Longrightarrow> unseals D v k its' \<Longrightarrow> its = its'"
  by (auto simp: unseals_def)

lemma unseals_lock [simp]: "unseals D (lock v) k its = unseals D v k its"
  by (simp add: unseals_def lock_def)

lemma lock_simps [simp]: "v_path (lock v) = v_path v" "is_locked (lock v)"
  by (simp_all add: lock_def is_locked_def)

text \<open>
  The contract of \<open>change_key\<close>: the vault ends as locked as it began; on failure
  the old key still opens it and an unlocked vault is untouched; on success the
  items the old key opened are the items the new key opens.
\<close>

definition key_changed ::
  "vault_lib \<Rightarrow> key \<Rightarrow> bytes \<Rightarrow> kdf_params \<Rightarrow> key \<Rightarrow> vault \<Rightarrow> unit outcome \<Rightarrow> bool" where
  "key_changed D old_key new_salt new_kdf new_key v out \<longleftrightarrow>
     (case out of (r, v', w') \<Rightarrow> vault_ok D v' w' \<and> v_path v' = v_path v \<and> is_locked v' = is_locked v
        \<and> (case r of
             Inl _ \<Rightarrow> (\<not> is_locked v \<longrightarrow> v' = v)
               \<and> (\<forall>its. unseals D v old_key its \<longrightarrow> unseals D v' old_key its)
           | Inr _ \<Rightarrow> \<exists>its. unseals D v old_key its \<and> rekeyed D new_salt new_kdf new_key its v'))"

lemma key_changed_refused:
  "vault_ok D v w \<Longrightarrow> key_changed D old_key new_salt new_kdf new_key v (Inl e, v, w)"
  by (simp add: key_changed_def)

lemma key_changed_rotate:
  assumes "lib_correct D" "vault_ok D v1 w" "v_state v1 = Unlocked old_key its" "validate new_kdf = Inr ()"
    and "unseals D v old_key its" "v_path v1 = v_path v" "was_locked = is_locked v"
    and "\<not> is_locked v \<Longrightarrow> v1 = v"
  shows "key_changed D old_key new_salt new_kdf new_key v
    (rotate_key D E was_locked old_key new_salt new_kdf new_key new_index_salt v1 w)"
proof -
  obtain r v' w' where rot: "rotate_key D E was_locked old_key new_salt new_kdf new_key
      new_index_salt v1 w = (r, v', w')" by (metis prod_cases3)
  have u1: "unseals D v1 old_key its" by (rule vault_okD(6) [OF assms(2,3)])
  have keep: "\<forall>a. unseals D v old_key a \<longrightarrow> unseals D v1 old_key a"
    using u1 unseals_det [OF _ assms(5)] by blast
  note res = rotate_key_ok [OF assms(1-4) rot]
  have "is_locked v' = is_locked v \<and> v_path v' = v_path v"
    using res assms(3,6,7) by (auto simp: is_locked_def lock_def split: sum.splits if_splits)
  moreover have "(\<not> is_locked v \<longrightarrow> v' = v) \<and> (\<forall>a. unseals D v old_key a \<longrightarrow> unseals D v' old_key a)"
    if "r = Inl e" for e
    using res that assms(7,8) keep by (simp split: if_splits)
  moreover have "rekeyed D new_salt new_kdf new_key its v'" if "r = Inr u" for u
    using res that by simp
  ultimately show ?thesis
    unfolding key_changed_def rot prod.case using res assms(5) by (cases r) auto
qed

lemma change_key_ok:
  assumes "lib_correct D" "vault_ok D v w"
  shows "key_changed D old_key new_salt new_kdf new_key v
    (change_key D E old_key new_salt new_kdf new_key v w)"
proof (cases "validate new_kdf = Inr () \<and> new_salt \<noteq> h_salt (v_header v)")
  case False
  with key_changed_refused [OF assms(2)] show ?thesis
    by (auto simp: change_key_def split: sum.splits)
next
  case True
  obtain r w1 where rb: "try_random_bytes E SALT_LEN w = (r, w1)" by fastforce
  have ok1: "vault_ok D v w1" by (rule vault_ok_random [OF assms(2) rb])
  define w2 where "w2 = sweep_dir_now E v w1"
  have ok2: "vault_ok D v w2" unfolding w2_def by (rule vault_ok_sweep [OF ok1])
  show ?thesis
  proof (cases "is_locked v")
    case l: True
    obtain r3 v3 w3 where u: "unlock_with_key D E old_key v w2 = (r3, v3, w3)" by (metis prod_cases3)
    note uk = unlock_with_key_ok [OF assms(1) ok2 u]
    show ?thesis
    proof (cases r3)
      case (Inl e)
      with True l rb u uk(2) key_changed_refused [OF ok1] key_changed_refused [OF ok2] show ?thesis
        by (simp add: change_key_def w2_def [symmetric] split: sum.split)
    next
      case (Inr x)
      with uk(3) obtain its where its: "v_state v3 = Unlocked old_key its" "unseals D v old_key its"
        "v_path v3 = v_path v" by auto
      have "key_changed D old_key new_salt new_kdf new_key v
          (rotate_key D E True old_key new_salt new_kdf new_key salt v3 w3)" for salt
        using True l its by (intro key_changed_rotate [OF assms(1) uk(1)]) simp_all
      with True l rb u Inr key_changed_refused [OF ok1] show ?thesis
        by (simp add: change_key_def w2_def [symmetric] split: sum.split)
    qed
  next
    case l: False
    then obtain k its where st: "v_state v = Unlocked k its"
      by (cases "v_state v") (auto simp: is_locked_def)
    have "key_changed D k new_salt new_kdf new_key v
        (rotate_key D E False k new_salt new_kdf new_key salt v w2)" for salt
      using True l vault_okD(6) [OF ok2 st] by (intro key_changed_rotate [OF assms(1) ok2 st]) simp_all
    with True l rb st key_changed_refused [OF ok1] key_changed_refused [OF ok2] show ?thesis
      by (auto simp: change_key_def w2_def [symmetric] verify_key_def split: sum.split)
  qed
qed

lemma change_password_ok:
  assumes "lib_correct D" "vault_ok D v w" "change_password D E old new kdf v w = (r, v', w')"
  shows "vault_ok D v' w'" "v_path v' = v_path v" "is_locked v' = is_locked v"
    and "r = Inl e \<Longrightarrow> \<not> is_locked v \<Longrightarrow> v' = v"
    and "r = Inr () \<Longrightarrow> \<exists>k k' its. derive_key D old (h_salt (v_header v)) (h_kdf (v_header v)) = Inr k
      \<and> unseals D v k its
      \<and> derive_key D new (h_salt (v_header v')) (h_kdf (v_header v')) = Inr k' \<and> unseals D v' k' its
      \<and> \<not> retired v'"
proof -
  obtain r1 w1 where rb: "try_random_bytes E SALT_LEN w = (r1, w1)" by fastforce
  have ok1: "vault_ok D v w1" by (rule vault_ok_random [OF assms(2) rb])
  have ck: "key_changed D k s kdf k' v (change_key D E k s kdf k' v w1)" for k s k'
    by (rule change_key_ok [OF assms(1) ok1])
  have all: "vault_ok D v' w' \<and> v_path v' = v_path v \<and> is_locked v' = is_locked v
    \<and> (r = Inl e \<longrightarrow> \<not> is_locked v \<longrightarrow> v' = v)
    \<and> (r = Inr () \<longrightarrow> (\<exists>k k' its. derive_key D old (h_salt (v_header v)) (h_kdf (v_header v)) = Inr k
      \<and> unseals D v k its
      \<and> derive_key D new (h_salt (v_header v')) (h_kdf (v_header v')) = Inr k' \<and> unseals D v' k' its
      \<and> \<not> retired v'))"
  proof (cases "derive_key D old (h_salt (v_header v)) (h_kdf (v_header v))")
    case (Inl e)
    with assms show ?thesis by (auto simp: change_password_def)
  next
    case (Inr k)
    note old = Inr
    show ?thesis
    proof (cases "\<exists>s k'. r1 = Inr s \<and> derive_key D new s kdf = Inr k'")
      case False
      with old rb ok1 assms(3) show ?thesis
        by (auto simp: change_password_def split: sum.splits)
    next
      case True
      then obtain s k' where s: "r1 = Inr s" "derive_key D new s kdf = Inr k'" by blast
      with old rb assms(3) have c: "change_key D E k s kdf k' v w1 = (r, v', w')"
        by (simp add: change_password_def)
      show ?thesis
        using ck [of k s k'] old s(2) unfolding c key_changed_def rekeyed_def prod.case
        by (cases r) auto
    qed
  qed
  then show "vault_ok D v' w'" "v_path v' = v_path v" "is_locked v' = is_locked v"
    "r = Inl e \<Longrightarrow> \<not> is_locked v \<Longrightarrow> v' = v"
    "r = Inr () \<Longrightarrow> \<exists>k k' its. derive_key D old (h_salt (v_header v)) (h_kdf (v_header v)) = Inr k
      \<and> unseals D v k its
      \<and> derive_key D new (h_salt (v_header v')) (h_kdf (v_header v')) = Inr k' \<and> unseals D v' k' its
      \<and> \<not> retired v'"
    by blast+
qed

section \<open>Opening\<close>

lemma open_vault_Inr:
  assumes "open_vault D E p w = (Inr v, w')" "vault_path p"
  shows "vault_ok D v w'" "is_locked v" "v_path v = p" "\<not> retired v"
    "content w p = Some (on_disk v)" "content w' p = content w p"
proof -
  obtain meta bs f where m: "map_of (fs w) p = Some meta" and sz: "check_vault_size (length (f_bytes meta)) = Inr ()"
    and rd: "content (next_tick w) p = Some bs" and dec: "vault_file_decode D bs = Inr f"
    and w': "w' = next_tick (next_tick w)"
    and v: "v = \<lparr>v_path = p, v_header = vf_header f, v_aad = vf_aad f,
              v_ciphertext = vf_ciphertext f, v_state = Locked, index_attributes = True, index_warning = None,
              size_limit = MAX_VAULT_BYTES, retired = False, pinned = False\<rparr>"
    using assms(1) by (auto simp: open_vault_def sys_metadata_def sys_read_def
        split: prod.splits sum.splits option.splits)
  have tick: "content (next_tick x) q = content x q" for x q by (rule keeps_content) simp
  have bs: "bs = f_bytes meta" "content w p = Some bs" using rd m by (simp_all add: tick) (simp add: content_def)
  have od: "on_disk v = bs" using vault_file_decode_InrD(3) [OF dec] by (simp add: on_disk_def v)
  have len: "length bs \<le> MAX_VAULT_BYTES"
    using sz bs(1) by (auto simp: check_vault_size_def check_vault_size_against_def split: if_splits)
  show "content w p = Some (on_disk v)" using bs(2) od by simp
  show "content w' p = content w p" by (simp add: w' tick)
  show "vault_ok D v w'"
    using dec len bs(2) od assms(2) by (simp add: vault_ok_def w' tick) (simp add: v)
  show "is_locked v" "v_path v = p" "\<not> retired v" by (simp_all add: v is_locked_def)
qed

text \<open>A vault on disk opens again as itself, locked, when the kernel does not refuse.\<close>

definition reopened :: "vault \<Rightarrow> vault" where
  "reopened v = v\<lparr>v_state := Locked, index_attributes := True, index_warning := None, retired := False,
     pinned := False\<rparr>"

lemma open_vault_reopens:
  assumes "vault_ok D v w" "\<not> retired v" "fault E (tick w) = None" "fault E (Suc (tick w)) = None"
  shows "open_vault D E (v_path v) w = (Inr (reopened v), next_tick (next_tick w))"
proof -
  from assms(1,2) have c: "content w (v_path v) = Some (on_disk v)" by (rule vault_okD(3))
  then obtain node where n: "map_of (fs w) (v_path v) = Some node" "f_bytes node = on_disk v"
    by (auto simp: content_def)
  have tick: "content (next_tick x) q = content x q" for x q by (rule keeps_content) simp
  have "check_vault_size (length (on_disk v)) = Inr ()"
    using assms(1) by (simp add: vault_ok_def check_vault_size_def check_vault_size_against_def)
  then show ?thesis
    using assms c n by (simp add: open_vault_def sys_metadata_def sys_read_def tick next_tick_def
        content_def vault_ok_def reopened_def)
qed

lemma unseals_reopened [simp]: "unseals D (reopened v) k its = unseals D v k its"
  by (simp add: unseals_def reopened_def)

section \<open>Creating\<close>

lemma build_Inr:
  assumes "build D E p label password kdf w = (Inr v, w')"
  shows "v_path v = p" "size_limit v = MAX_VAULT_BYTES" "check_header (v_header v) = Inr ()" "\<not> retired v"
    "h_label (v_header v) = label" "h_kdf (v_header v) = kdf" "str_len label \<le> MAX_LABEL"
    "\<exists>k. v_state v = Unlocked k [] \<and> derive_key D password (h_salt (v_header v)) kdf = Inr k"
    "length (h_salt (v_header v)) = SALT_LEN \<and> length (h_index_salt (v_header v)) = SALT_LEN" "w' = next_tick (next_tick (next_tick w))"
proof -
  obtain salt isalt k t w1 w2 where r1: "try_random_bytes E SALT_LEN w = (Inr salt, w1)"
    and r2: "try_random_bytes E SALT_LEN w1 = (Inr isalt, w2)"
    and k: "derive_key D password salt kdf = Inr k" and n: "now E w2 = (t, w')"
    and l: "check_label label = Inr ()"
    and v: "v = \<lparr>v_path = p,
              v_header = \<lparr>h_version = VERSION, h_label = label, h_created = t,
                h_modified = t, h_kdf = kdf, h_salt = salt, h_index_salt = isalt,
                h_nonce = replicate NONCE_LEN 0, h_index = []\<rparr>,
              v_aad = [], v_ciphertext = [], v_state = Unlocked k [],
              index_attributes = True, index_warning = None,
              size_limit = MAX_VAULT_BYTES, retired = False, pinned = False\<rparr>"
    using assms by (auto simp: build_def Let_def split: prod.splits sum.splits)
  have w: "w1 = next_tick w" "w2 = next_tick w1" "w' = next_tick w2"
    using try_random_bytes_world [of E SALT_LEN w] try_random_bytes_world [of E SALT_LEN w1] r1 r2 n
    by (simp_all add: now_def)
  show "w' = next_tick (next_tick (next_tick w))" by (simp add: w)
  show "v_path v = p" "size_limit v = MAX_VAULT_BYTES" "\<not> retired v"
    "h_label (v_header v) = label" "h_kdf (v_header v) = kdf"
    "\<exists>k. v_state v = Unlocked k [] \<and> derive_key D password (h_salt (v_header v)) kdf = Inr k"
    using k by (simp_all add: v)
  show "check_header (v_header v) = Inr ()"
    using derive_key_Inr_valid [OF k] by (simp add: v check_header_def)
  show "str_len label \<le> MAX_LABEL" using l by (simp add: check_label_def split: if_splits)
  show "length (h_salt (v_header v)) = SALT_LEN \<and> length (h_index_salt (v_header v)) = SALT_LEN"
    using try_random_bytes_length [OF r1] try_random_bytes_length [OF r2] by (simp add: v)
qed

lemma create_Inr:
  assumes "lib_correct D" "vault_path p" "create D E p label password kdf w = (Inr v, w')"
  shows "vault_ok D v w'" "v_path v = p" "\<not> retired v" "h_label (v_header v) = label" "h_kdf (v_header v) = kdf"
    "\<exists>k. v_state v = Unlocked k [] \<and> derive_key D password (h_salt (v_header v)) (h_kdf (v_header v)) = Inr k"
    "length (h_salt (v_header v)) = SALT_LEN \<and> length (h_index_salt (v_header v)) = SALT_LEN"
proof -
  obtain v0 w1 w2 where b: "build D E p label password kdf w1 = (Inr v0, w2)"
    and s: "save_with D E (publish_new E) v0 w2 = (Inr (), v, w')"
    using assms(3) by (auto simp: create_def Let_def split: prod.splits sum.splits)
  note b = build_Inr [OF b]
  have "vault_path (v_path v0)" using assms(2) b(1) by simp
  note ok = save_with_ok [OF creating.publisher_axioms assms(1) s b(2) this b(3)]
  obtain its t nonce where h: "v_header v = saved_header D v0 its t nonce"
    and v: "v = v0\<lparr>v_header := v_header v, v_aad := v_aad v, v_ciphertext := v_ciphertext v\<rparr>"
    using save_with_header [OF s] by blast
  show "vault_ok D v w'" by (rule ok(1))
  show "v_path v = p" using ok(3) b(1) by simp
  show "\<not> retired v" by (subst v) (simp add: b(4))
  show "h_label (v_header v) = label" "h_kdf (v_header v) = kdf" using b(5,6) by (simp_all add: h saved_header_def)
  show "\<exists>k. v_state v = Unlocked k [] \<and> derive_key D password (h_salt (v_header v)) (h_kdf (v_header v)) = Inr k"
    using b(6,8) ok(2) by (simp add: h saved_header_def)
  show "length (h_salt (v_header v)) = SALT_LEN \<and> length (h_index_salt (v_header v)) = SALT_LEN"
    using b(9) by (simp add: h saved_header_def)
qed

text \<open>A vault is never created over a file that holds anything.\<close>

lemma build_world: "build D E p label password kdf w = (r, w') \<Longrightarrow> keeps q w w'"
  by (auto simp: build_def now_def try_random_bytes_def Let_def
      split: prod.splits sum.splits option.splits intro: keeps_trans [OF keeps_next_tick]
      keeps_trans [OF keeps_next_tick keeps_next_tick])

lemma create_existing:
  assumes "content w p = Some b" "b \<noteq> []" "create D E p label password kdf w = (r, w')"
  shows "\<exists>e. r = Inl e" "content w' p = Some b"
proof -
  obtain r1 w1 where e: "ensure_vault_dir E (parent_or_dot p) w = (r1, w1)" by fastforce
  have c1: "content w1 p = Some b"
    using ensure_vault_dir_keeps [of p w E "parent_or_dot p"] e assms(1) by (simp add: keeps_content)
  obtain r2 w2 where bd: "build D E p label password kdf w1 = (r2, w2)" by fastforce
  have c2: "content w2 p = Some b" using keeps_content [OF build_world [OF bd]] c1 by simp
  have "(\<exists>e. r = Inl e) \<and> content w' p = Some b"
  proof (cases "\<exists>v0. r1 = Inr () \<and> r2 = Inr v0")
    case False
    with assms(3) e bd c1 c2 show ?thesis
      by (cases r1; cases r2) (auto simp: create_def)
  next
    case True
    then obtain v0 where v0: "r1 = Inr ()" "r2 = Inr v0" by blast
    obtain r3 v3 w3 where s: "save_with D E (publish_new E) v0 w2 = (r3, v3, w3)" by (metis prod_cases3)
    have p: "v_path v0 = p" using build_Inr(1) bd v0(2) by simp
    have "\<exists>e. r3 = Inl e"
    proof (cases r3)
      case (Inr u)
      obtain w4 bs where "publish_new E (v_path v0) bs w4 = (Inr (), w3)" "keeps p w2 w4"
        using save_with_Inr [OF s [unfolded Inr], of p] by metis
      with c2 p publish_new_existing [of w4 p b E bs] assms(2) show ?thesis
        by (auto simp: keeps_content)
    qed simp
    then obtain e3 where r3: "r3 = Inl e3" by blast
    have "content w3 p = Some b"
      using creating.save_with_err_content [OF s [unfolded r3]] c2 assms(2) p by simp
    with assms(3) e bd v0 s r3 show ?thesis by (auto simp: create_def)
  qed
  then show "\<exists>e. r = Inl e" "content w' p = Some b" by auto
qed

section \<open>Deleting\<close>

text \<open>
  The guarded section of \<open>prompt::delete_collection\<close>: retire and unlink under one
  lock; a failing unlink undoes the retirement. \<open>None\<close> is the dismissed delete.
\<close>

definition remove_vault :: "env \<Rightarrow> vault \<Rightarrow> world \<Rightarrow> ustr list option \<times> vault \<times> world" where
  "remove_vault E v w =
     (if is_locked v then (None, v, w)
      else let v1 = retire v
           in case sys_unlink E (v_path v1) w of
                (Inl _, w1) \<Rightarrow> (None, unretire v1, w1)
              | (Inr _, w1) \<Rightarrow> (Some (item_ids v1), v1, w1))"

lemma remove_vault_ok:
  assumes "vault_ok D v w" "\<not> retired v" "remove_vault E v w = (r, v', w')"
  shows "vault_ok D v' w'" "r = None \<Longrightarrow> v' = v"
    "r = Some ids \<Longrightarrow> v' = retire v \<and> content w' (v_path v) = None"
proof -
  obtain r1 w1 where u: "sys_unlink E (v_path v) w = (r1, w1)" by fastforce
  have p: "v_path (retire v) = v_path v" by (simp add: retire_def)
  have un: "unretire (retire v) = v" using assms(2) by (simp add: unretire_def retire_def)
  have "vault_ok D v' w' \<and> (r = None \<longrightarrow> v' = v) \<and>
      (r = Some ids \<longrightarrow> v' = retire v \<and> content w' (v_path v) = None)"
  proof (cases r1)
    case (Inl e)
    then have w1: "w1 = next_tick w" using sys_unlink_Inl u by simp
    show ?thesis
      using assms u Inl vault_ok_tick [OF assms(1)] by (auto simp: remove_vault_def p un w1 split: if_splits)
  next
    case (Inr x)
    then have gone: "content w1 (v_path v) = None" using sys_unlink_Inr [of E "v_path v" w] u
      by (simp add: content_def)
    have "vault_ok D (retire v) w1"
      using vault_ok_flags(3) [OF assms(1)] by (rule vault_ok_world) (simp add: retire_def)
    with assms u Inr gone show ?thesis
      by (auto simp: remove_vault_def p Let_def split: if_splits)
  qed
  then show "vault_ok D v' w'" "r = None \<Longrightarrow> v' = v"
    "r = Some ids \<Longrightarrow> v' = retire v \<and> content w' (v_path v) = None" by auto
qed

lemma delete_file_Inr:
  assumes "delete_file E v w = (Inr u, w')"
  shows "content w' (v_path v) = None"
proof -
  obtain w1 x where u: "sys_unlink E (v_path v) w = (Inr x, w1)"
    and w': "w' = (case parent (v_path v) of Some d \<Rightarrow> snd (sweep_stale_temp_files E d w1) | None \<Rightarrow> w1)"
    using assms by (auto simp: delete_file_def split: prod.splits sum.splits option.splits)
  have gone: "map_of (fs w1) (v_path v) = None" using sys_unlink_Inr [OF u] by simp
  have "map_of (fs w') \<subseteq>\<^sub>m map_of (fs w1)"
    by (simp add: w' sweep_stale_temp_files_def sweep_temp_files_shrinks split: option.split)
  with gone map_le_Some [of "map_of (fs w')" "map_of (fs w1)" "v_path v"] show ?thesis
    by (cases "map_of (fs w') (v_path v)") (auto simp: content_def)
qed

section \<open>Every vault a program can reach\<close>

text \<open>
  One step of a running program on one vault: any operation of the type, with any
  arguments, any randomness and any pattern of system-call failures, or a change
  of the file system that leaves the vault's own file alone. A removal happens to
  a vault that is not being removed already.
\<close>

inductive vault_step :: "vault_lib \<Rightarrow> vault \<times> world \<Rightarrow> vault \<times> world \<Rightarrow> bool" for D where
  elsewhere: "content w' (v_path v) = content w (v_path v) \<Longrightarrow> vault_step D (v, w) (v, w')"
| locks: "vault_step D (v, w) (lock v, w)"
| pins: "vault_step D (v, w) (set_pinned b v, w)"
| configures: "vault_step D (v, w) (set_index_attributes b v, w)"
| unlocks_key: "unlock_with_key D E k v w = (r, v', w') \<Longrightarrow> vault_step D (v, w) (v', w')"
| unlocks: "unlock D E pw v w = (r, v', w') \<Longrightarrow> vault_step D (v, w) (v', w')"
| inserts: "insert_item D E label attributes secret ctype replace v w = (r1, v', w') \<Longrightarrow>
    vault_step D (v, w) (v', w')"
| updates: "update_item D E i f v w = (r, v', w') \<Longrightarrow> vault_step D (v, w) (v', w')"
| deletes: "delete_item D E i v w = (r, v', w') \<Longrightarrow> vault_step D (v, w) (v', w')"
| deletes_many: "delete_items D E ids v w = (r, v', w') \<Longrightarrow> vault_step D (v, w) (v', w')"
| imports_batch: "import_items D E batch v w = (r, v', w') \<Longrightarrow> vault_step D (v, w) (v', w')"
| relabels: "set_label D E label v w = (r, v', w') \<Longrightarrow> vault_step D (v, w) (v', w')"
| rekeys: "change_key D E k salt kdf k' v w = (r, v', w') \<Longrightarrow> vault_step D (v, w) (v', w')"
| repasswords: "change_password D E old new kdf v w = (r, v', w') \<Longrightarrow> vault_step D (v, w) (v', w')"
| removes: "remove_vault E v w = (r2, v', w') \<Longrightarrow> \<not> retired v \<Longrightarrow> vault_step D (v, w) (v', w')"

inductive vault_start :: "vault_lib \<Rightarrow> path \<Rightarrow> vault \<times> world \<Rightarrow> bool" for D p where
  created: "create D E p label password kdf w = (Inr v, w') \<Longrightarrow> vault_start D p (v, w')"
| opened: "open_vault D E p w = (Inr v, w') \<Longrightarrow> vault_start D p (v, w')"

definition vault_reachable :: "vault_lib \<Rightarrow> path \<Rightarrow> vault \<times> world \<Rightarrow> bool" where
  "vault_reachable D p s \<longleftrightarrow> (\<exists>s0. vault_start D p s0 \<and> (vault_step D)\<^sup>*\<^sup>* s0 s)"

lemma contract_ok: "contract D v (r, v', w') f \<Longrightarrow> vault_ok D v' w'"
  by (simp add: contract_def)

lemma vault_step_ok:
  assumes "vault_step D (v, w) (v', w')" "lib_correct D" "vault_ok D v w"
  shows "vault_ok D v' w'"
  using assms
proof (cases rule: vault_step.cases)
  case (elsewhere)
  with assms(3) show ?thesis by (auto intro: vault_ok_world)
next
  case (unlocks E pw r)
  with assms(2,3) unlock_with_key_ok(1) [OF assms(2,3)] show ?thesis
    by (auto simp: unlock_def split: sum.splits)
next
  case (inserts E label attributes secret ctype replace r)
  with insert_item_contract [OF assms(2,3), of E label attributes secret ctype replace]
  show ?thesis by (auto dest: contract_ok)
next
  case (updates E i f r)
  with update_item_contract [OF assms(2,3), of E i f] show ?thesis by (auto dest: contract_ok)
next
  case (deletes E i r)
  with delete_item_contract [OF assms(2,3), of E i] show ?thesis by (auto dest: contract_ok)
next
  case (deletes_many E ids r)
  with delete_items_contract [OF assms(2,3), of ids E] assms(3) show ?thesis
    by (cases "ids = []") (auto simp: delete_items_def dest: contract_ok)
next
  case (imports_batch E batch r)
  with import_items_contract [OF assms(2,3), of batch E] assms(3) show ?thesis
    by (cases "batch = []") (auto simp: import_items_def dest: contract_ok)
next
  case (relabels E label r)
  with set_label_contract [OF assms(2,3), of E label] show ?thesis by (auto dest: contract_ok)
next
  case (rekeys E k salt kdf k' r)
  with change_key_ok [OF assms(2,3), of k salt kdf k' E] show ?thesis by (simp add: key_changed_def)
qed (use assms(2,3) in \<open>auto intro: vault_ok_lock vault_ok_flags unlock_with_key_ok(1)
      change_password_ok(1) remove_vault_ok(1)\<close>)

lemma vault_reachable_ok:
  assumes "lib_correct D" "vault_path p" "vault_reachable D p (v, w)"
  shows "vault_ok D v w"
proof -
  from assms(3) obtain s0 where s0: "vault_start D p s0" and st: "(vault_step D)\<^sup>*\<^sup>* s0 (v, w)"
    by (auto simp: vault_reachable_def)
  from s0 have "vault_ok D (fst s0) (snd s0)"
    by cases (auto intro: create_Inr(1) [OF assms(1,2)] open_vault_Inr(1) [OF _ assms(2)])
  with st have "vault_ok D (fst (v, w)) (snd (v, w))"
    by (induction rule: rtranclp_induct) (auto intro: vault_step_ok [OF _ assms(1)])
  then show ?thesis by simp
qed

end
