(* ===== verification/Vault_Progress.thy ===== *)
theory Vault_Progress
  imports Vault_Lifecycle
begin

text \<open>
  Progress: where the kernel, the random number generator and the encoders do
  their part, saving a vault succeeds. Together with the contracts of
  \<open>Vault_Store_Proofs\<close> (what a success means, what an error leaves behind) this
  fixes the outcome of an edit.
\<close>

definition working :: "env \<Rightarrow> bool" where
  "working E \<longleftrightarrow> (\<forall>t. fault E t = None) \<and> (\<forall>t. rng E t \<noteq> None)"

text \<open>No leftover temp file beside \<open>p\<close>, and the directory of \<open>p\<close> is not a file.\<close>

definition tidy :: "path \<Rightarrow> world \<Rightarrow> bool" where
  "tidy p w \<longleftrightarrow>
     (\<forall>n. is_temp_path (parent_or_dot p @ [n]) \<longrightarrow>
        map_of (fs w) (parent_or_dot p @ [n]) = None \<and> map_of (dirs w) (parent_or_dot p @ [n]) = None)
     \<and> map_of (fs w) (parent_or_dot p) = None"

lemma tidy_next_tick [simp]: "tidy p (next_tick w) = tidy p w"
  by (simp add: tidy_def next_tick_def)

lemma try_random_bytes_works:
  "working E \<Longrightarrow> \<exists>bs. try_random_bytes E n w = (Inr bs, next_tick w) \<and> length bs = n"
  by (auto simp: working_def try_random_bytes_def split: option.split)

lemma map_of_foldl_add_dir:
  "q \<notin> set ds \<Longrightarrow> map_of (foldl add_dir d0 ds) q = map_of d0 q"
  by (induction ds arbitrary: d0) (auto simp: add_dir_def update_conv')

lemma ensure_vault_dir_works:
  assumes "working E" "map_of (fs w) dir = None"
  shows "\<exists>w1. ensure_vault_dir E dir w = (Inr (), w1) \<and> fs w1 = fs w \<and> map_of (dirs w1) dir \<noteq> None
    \<and> (\<forall>q. \<not> prefix q dir \<longrightarrow> map_of (dirs w1) q = map_of (dirs w) q)"
proof -
  have "map_of (foldl add_dir (dirs w) (prefixes dir)) q = map_of (dirs w) q" if "\<not> prefix q dir" for q
    using that by (intro map_of_foldl_add_dir) simp
  with assms show ?thesis
    by (auto simp: ensure_vault_dir_def working_def Let_def next_tick_def update_conv')
qed

lemma write_atomic_works:
  assumes "working E" "tidy p w" "map_of (dirs w) (parent_or_dot p) \<noteq> None"
  shows "\<exists>w'. write_atomic E p bs mode w = (Inr (), w') \<and> dirs w' = dirs w
    \<and> (\<forall>q. q \<noteq> p \<longrightarrow> map_of (fs w') q = map_of (fs w) q)"
proof -
  obtain suf where r: "try_random_bytes E 8 w = (Inr suf, next_tick w)"
    using try_random_bytes_works [OF assms(1)] by blast
  define n where "n = temp_name (case file_name p of Some n \<Rightarrow> n | None \<Rightarrow> lit ''tmp'') suf"
  have "is_temp_path (parent_or_dot p @ [n])" unfolding n_def by simp
  with assms(2) have free: "map_of (fs w) (parent_or_dot p @ [n]) = None"
    "map_of (dirs w) (parent_or_dot p @ [n]) = None" by (simp_all add: tidy_def)
  have d: "parent_or_dot (parent_or_dot p @ [n]) = parent_or_dot p"
    by (simp add: parent_or_dot_def [of "_ @ _"] parent_def)
  show ?thesis
    unfolding write_atomic_def Let_def r n_def [symmetric] prod.case sum.case
    using assms(1,3) free d
    by (simp add: write_steps_def sys_create_excl_def sys_write_all_def sys_fsync_def sys_rename_def
        working_def next_tick_def set_fs_def update_conv' AList.delete_conv')
qed

lemma vault_write_atomic_works:
  assumes "working E" "tidy p w"
  shows "\<exists>w'. vault_write_atomic E p bs w = (Inr (), w')"
proof -
  have free: "map_of (fs w) (parent_or_dot p) = None" using assms(2) by (simp add: tidy_def)
  obtain w1 where e: "ensure_vault_dir E (parent_or_dot p) w = (Inr (), w1)" "fs w1 = fs w"
    "map_of (dirs w1) (parent_or_dot p) \<noteq> None"
    and fr: "\<And>q. \<not> prefix q (parent_or_dot p) \<Longrightarrow> map_of (dirs w1) q = map_of (dirs w) q"
    using ensure_vault_dir_works [OF assms(1) free] by blast
  have "tidy p w1" using assms(2) e(2) fr by (simp add: tidy_def)
  from write_atomic_works [OF assms(1) this e(3), of bs MODE_FILE] e(1) show ?thesis
    by (auto simp: vault_write_atomic_def)
qed

text \<open>The encoders accept the vault with these items, and the file stays within its limit.\<close>

definition fits :: "vault_lib \<Rightarrow> vault \<Rightarrow> key \<Rightarrow> item list \<Rightarrow> bool" where
  "fits D v k its \<longleftrightarrow> (\<forall>t nonce. length nonce = NONCE_LEN \<longrightarrow>
     (\<exists>aad plain ct. header_bytes D (saved_header D v its t nonce) = Inr aad \<and> encode_items D its = Inr plain
        \<and> seal D k nonce aad plain = Inr ct \<and> length (aad @ ct) \<le> size_limit v))"

lemma save_works:
  assumes "working E" "tidy (v_path v) w" "\<not> retired v" "v_state v = Unlocked k its" "fits D v k its"
  shows "\<exists>v' w'. save D E v w = (Inr (), v', w')"
proof -
  obtain nonce where r: "try_random_bytes E NONCE_LEN w = (Inr nonce, next_tick w)" "length nonce = NONCE_LEN"
    using try_random_bytes_works [OF assms(1)] by blast
  obtain t where n: "now E (next_tick w) = (t, next_tick (next_tick w))" by (simp add: now_def)
  obtain aad plain ct where f: "header_bytes D (saved_header D v its t nonce) = Inr aad"
    "encode_items D its = Inr plain" "seal D k nonce aad plain = Inr ct" "length (aad @ ct) \<le> size_limit v"
    using assms(5) r(2) unfolding fits_def by blast
  obtain w' where "vault_write_atomic E (v_path v) (aad @ ct) (next_tick (next_tick w)) = (Inr (), w')"
    using vault_write_atomic_works [OF assms(1), of "v_path v" "next_tick (next_tick w)"] assms(2) by auto
  with f r(1) n assms(3,4) show ?thesis
    by (simp add: save_def save_with_def Let_def saved_header_def check_vault_size_against_def)
qed

lemma fits_state [simp]: "fits D (v\<lparr>v_state := s\<rparr>) k its = fits D v k its"
  by (simp add: fits_def saved_header_def)

lemma save_or_restore_works:
  assumes "working E" "tidy (v_path v) w" "\<not> retired v" "fits D v k its"
  shows "\<exists>v' w'. save_or_restore D E before restore (v\<lparr>v_state := Unlocked k its\<rparr>) w = (Inr (), v', w')"
  using save_works [of E "v\<lparr>v_state := Unlocked k its\<rparr>" w k its D] assms
  by (auto simp: save_or_restore_def)

lemma save_or_restore_Inr:
  "save_or_restore D E before restore v w = (Inr u, v', w') \<Longrightarrow> save D E v w = (Inr u, v', w')"
  by (auto simp: save_or_restore_def split: prod.splits sum.splits)

text \<open>An insert within the caps succeeds.\<close>

lemma insert_item_works:
  assumes "working E" "tidy (v_path v) w" "\<not> retired v" "v_state v = Unlocked k its"
    and "within_caps label attributes (length secret) content_type"
    and "\<forall>t n. fits D v k (fst (inserted label attributes secret content_type replace t (new_uuid E n) its))"
  shows "\<exists>x v' w'. insert_item D E label attributes secret content_type replace v w = (Inr x, v', w')"
proof -
  have caps: "check_item_caps label attributes (length secret) content_type = Inr ()"
    using assms(5) by (simp add: check_item_caps_def check_caps_None_iff [symmetric] split: option.split)
  show ?thesis
  proof (cases "if replace then position (\<lambda>i. it_attributes i = attributes) its else None")
    case None
    with assms(6) have f: "fits D v k (its @ [\<lparr>it_id = new_uuid E n, it_label = label, it_attributes = attributes,
      it_secret = secret, it_content_type = content_type, it_created = t, it_modified = t\<rparr>])" for t n
      by (simp add: inserted_def)
    have t2: "tidy (v_path v) (next_tick (next_tick w))" using assms(2) by simp
    obtain v' w' where "save_or_restore D E Pushed restore_delta (v\<lparr>v_state := Unlocked k (its @
      [\<lparr>it_id = new_uuid E (tick (next_tick w)), it_label = label, it_attributes = attributes,
        it_secret = secret, it_content_type = content_type, it_created = clock E (tick w),
        it_modified = clock E (tick w)\<rparr>])\<rparr>) (next_tick (next_tick w)) = (Inr (), v', w')"
      using save_or_restore_works [OF assms(1) t2 assms(3) f, where before = Pushed and restore = restore_delta]
      by blast
    with assms(4) caps None show ?thesis
      by (auto simp: insert_item_def items_def insert_item_unchecked_def now_def uuid_v4_def)
  next
    case (Some p)
    with assms(6) have f: "fits D v k (its[p := (its ! p)\<lparr>it_label := label, it_secret := secret,
        it_content_type := content_type, it_modified := t\<rparr>])" for t
      by (simp add: inserted_def)
    have t1: "tidy (v_path v) (next_tick w)" using assms(2) by simp
    obtain v' w' where "save_or_restore D E (Replaced p (its ! p)) restore_delta (v\<lparr>v_state := Unlocked k
      (its[p := (its ! p)\<lparr>it_label := label, it_secret := secret, it_content_type := content_type,
        it_modified := clock E (tick w)\<rparr>])\<rparr>) (next_tick w) = (Inr (), v', w')"
      using save_or_restore_works [OF assms(1) t1 assms(3) f,
          where before = "Replaced p (its ! p)" and restore = restore_delta] by blast
    with assms(4) caps Some show ?thesis
      by (auto simp: insert_item_def items_def insert_item_unchecked_def now_def)
  qed
qed

section \<open>Creating\<close>

lemma temp_name_no_nul: "0 \<notin> set n \<Longrightarrow> 0 \<notin> set (temp_name n suf)"
proof -
  have "0 \<notin> set (hex_byte b)" if "b < 256" for b
    using hex_byte_lower [OF that] by (auto simp: list_all_iff lower_hex_byte_def)
  moreover have "unat b < 256" for b :: byte using unsigned_less [of b, where ?'a = nat] by simp
  ultimately show "0 \<notin> set n \<Longrightarrow> 0 \<notin> set (temp_name n suf)" by (auto simp: temp_name_def lit_def)
qed

text \<open>The path is free, and a C string can name it.\<close>

definition free_path :: "path \<Rightarrow> world \<Rightarrow> bool" where
  "free_path p w \<longleftrightarrow> p \<noteq> [] \<and> 0 \<notin> set (concat p) \<and> map_of (fs w) p = None \<and> map_of (dirs w) p = None"

lemma free_path_next_tick [simp]: "free_path p (next_tick w) = free_path p w"
  by (simp add: free_path_def next_tick_def)

lemma publish_new_works:
  assumes "working E" "tidy p w" "free_path p w"
  shows "\<exists>w'. publish_new E p bs w = (Inr (), w')"
proof -
  have free: "map_of (fs w) (parent_or_dot p) = None" using assms(2) by (simp add: tidy_def)
  obtain w1 where e: "ensure_vault_dir E (parent_or_dot p) w = (Inr (), w1)" "fs w1 = fs w"
    "map_of (dirs w1) (parent_or_dot p) \<noteq> None"
    and fr: "\<And>q. \<not> prefix q (parent_or_dot p) \<Longrightarrow> map_of (dirs w1) q = map_of (dirs w) q"
    using ensure_vault_dir_works [OF assms(1) free] by blast
  obtain suf where r: "try_random_bytes E 8 w1 = (Inr suf, next_tick w1)"
    using try_random_bytes_works [OF assms(1)] by blast
  obtain d n where p: "p = d @ [n]" using assms(3) by (metis free_path_def rev_exhaust)
  define t where "t = d @ [temp_name n suf]"
  have dir: "parent_or_dot p = d" "file_name p = Some n" "parent_or_dot t = d"
    by (simp_all add: p t_def parent_or_dot_def parent_def file_name_def)
  have ne: "t \<noteq> p" using temp_name_longer [of n suf] by (auto simp: t_def p)
  have "is_temp_path t" unfolding t_def by simp
  with assms(2) have ft: "map_of (fs w) t = None" "map_of (dirs w) t = None"
    unfolding tidy_def dir(1) t_def by blast+
  then have ft1: "map_of (dirs w1) t = None" using fr [of t] by (simp add: t_def dir)
  have "\<not> prefix p (parent_or_dot p)" unfolding dir by (simp add: p)
  from fr [OF this] have fp: "map_of (dirs w1) p = None" "map_of (fs w1) p = None"
    using assms(3) e(2) by (simp_all add: free_path_def)
  have nul: "0 \<notin> set (concat t)" "0 \<notin> set (concat p)"
    using assms(3) temp_name_no_nul [of n suf] by (auto simp: free_path_def p t_def)
  define w2 where "w2 = next_tick w1"
  have w2: "fs w2 = fs w" "dirs w2 = dirs w1" "fault E (tick w2) = None"
    using e(2) assms(1) by (simp_all add: w2_def next_tick_def working_def)
  note e' = e [unfolded dir]
  have "\<exists>w5 node. write_temp E p bs w = (Inr t, w5) \<and> map_of (fs w5) t = Some node
      \<and> map_of (fs w5) p = None \<and> dirs w5 = dirs w1"
    unfolding write_temp_def Let_def dir e'(1) prod.case sum.case option.case r t_def [symmetric] w2_def [symmetric]
    using assms(1) e' ft ft1 fp ne w2 dir
    by (simp add: sys_create_excl_def sys_write_all_def sys_fsync_def working_def set_fs_def next_tick_def
        update_conv')
  then obtain w5 node where wt: "write_temp E p bs w = (Inr t, w5)" "map_of (fs w5) t = Some node"
    "map_of (fs w5) p = None" "dirs w5 = dirs w1" by blast
  then show ?thesis
    using nul fp assms(1) by (simp add: publish_new_def rename_noreplace_def sys_rename_noreplace_def
        working_def publish_finish_def)
qed

lemma create_works:
  assumes "working E" "tidy p w" "free_path p w"
    and "\<And>w1. \<exists>v w2 k. build D E p label password kdf w1 = (Inr v, w2) \<and> v_state v = Unlocked k [] \<and> fits D v k []"
  shows "\<exists>v w'. create D E p label password kdf w = (Inr v, w')"
proof -
  have free: "map_of (fs w) (parent_or_dot p) = None" using assms(2) by (simp add: tidy_def)
  obtain w1 where e: "ensure_vault_dir E (parent_or_dot p) w = (Inr (), w1)" "fs w1 = fs w"
    and fr: "\<And>q. \<not> prefix q (parent_or_dot p) \<Longrightarrow> map_of (dirs w1) q = map_of (dirs w) q"
    using ensure_vault_dir_works [OF assms(1) free] by blast
  have np: "\<not> prefix p (parent_or_dot p)" using assms(3)
    by (cases p rule: rev_cases) (simp_all add: free_path_def parent_or_dot_def parent_def)
  have ok1: "tidy p w1" "free_path p w1"
    using assms(2,3) e(2) fr np by (simp_all add: tidy_def free_path_def)
  obtain v w2 k where b: "build D E p label password kdf w1 = (Inr v, w2)"
    and st: "v_state v = Unlocked k []" and fits: "fits D v k []"
    using assms(4) by blast
  note bp = build_Inr [OF b]
  have w2: "tidy p (next_tick (next_tick w2))" "free_path p (next_tick (next_tick w2))"
    using ok1 by (simp_all add: bp(10))
  obtain nonce where r: "try_random_bytes E NONCE_LEN w2 = (Inr nonce, next_tick w2)" "length nonce = NONCE_LEN"
    using try_random_bytes_works [OF assms(1)] by blast
  obtain t where n: "now E (next_tick w2) = (t, next_tick (next_tick w2))" by (simp add: now_def)
  obtain aad plain ct where f: "header_bytes D (saved_header D v [] t nonce) = Inr aad"
    "encode_items D [] = Inr plain" "seal D k nonce aad plain = Inr ct" "length (aad @ ct) \<le> size_limit v"
    using fits r(2) unfolding fits_def by blast
  obtain w' where "publish_new E p (aad @ ct) (next_tick (next_tick w2)) = (Inr (), w')"
    using publish_new_works [OF assms(1) w2] by blast
  with f r(1) n st bp(1,4) have "\<exists>v' w'. save_with D E (publish_new E) v w2 = (Inr (), v', w')"
    by (simp add: save_with_def Let_def saved_header_def check_vault_size_against_def)
  with e b show ?thesis by (auto simp: create_def)
qed

section \<open>Changing the password\<close>

lemma dirs_simps [simp]: "dirs (next_tick w) = dirs w" "dirs (set_fs f w) = dirs w" "fs (next_tick w) = fs w"
  by (simp_all add: next_tick_def set_fs_def)

lemma sweep_loop_dirs: "dirs (snd (sweep_loop E t a ps n w)) = dirs w"
proof (induction ps arbitrary: n w)
  case (Cons p ps)
  show ?case by (simp add: Cons.IH Let_def sys_metadata_def sys_unlink_def split: option.split)
qed simp

lemma tidy_sweep:
  assumes "tidy p w"
  shows "tidy p (sweep_dir_now E v w)"
proof -
  let ?w = "sweep_dir_now E v w"
  have d: "dirs ?w = dirs w"
    by (simp add: sweep_dir_now_def sweep_temp_files_def now_def sweep_loop_dirs split: option.split)
  have "map_of (fs ?w) \<subseteq>\<^sub>m map_of (fs w)"
    by (simp add: sweep_dir_now_def sweep_temp_files_shrinks split: option.split)
  then have "map_of (fs w) q = None \<Longrightarrow> map_of (fs ?w) q = None" for q
    using map_le_Some [of "map_of (fs ?w)" "map_of (fs w)" q] by (cases "map_of (fs ?w) q") auto
  with d assms show ?thesis by (simp add: tidy_def)
qed

lemma rotate_key_works:
  assumes "working E" "tidy (v_path v) w" "\<not> retired v" "v_state v = Unlocked old_key its"
    and "fits D (v\<lparr>v_header := (v_header v)\<lparr>h_salt := new_salt, h_kdf := new_kdf,
           h_index_salt := new_index_salt\<rparr>\<rparr>) new_key its"
  shows "\<exists>v' w'. rotate_key D E was_locked old_key new_salt new_kdf new_key new_index_salt v w = (Inr (), v', w')"
proof -
  define v1 where "v1 = set_key new_key (v\<lparr>v_header := (v_header v)\<lparr>h_salt := new_salt, h_kdf := new_kdf,
    h_index_salt := new_index_salt\<rparr>\<rparr>)"
  have v1: "v_path v1 = v_path v" "\<not> retired v1" "v_state v1 = Unlocked new_key its" "fits D v1 new_key its"
    using assms(3-5) by (simp_all add: v1_def set_key_def)
  have "tidy (v_path v1) w" using assms(2) v1(1) by simp
  from save_works [OF assms(1) this v1(2-4)] obtain v2 w2 where "save D E v1 w = (Inr (), v2, w2)" by blast
  then show ?thesis by (simp add: rotate_key_def Let_def v1_def [symmetric])
qed

lemma change_key_works:
  assumes "working E" "tidy (v_path v) w" "\<not> retired v" "v_state v = Unlocked old_key its"
    and "validate new_kdf = Inr ()" "new_salt \<noteq> h_salt (v_header v)"
    and "\<And>s. length s = SALT_LEN \<Longrightarrow> fits D (v\<lparr>v_header := (v_header v)\<lparr>h_salt := new_salt, h_kdf := new_kdf,
           h_index_salt := s\<rparr>\<rparr>) new_key its"
  shows "\<exists>v' w'. change_key D E old_key new_salt new_kdf new_key v w = (Inr (), v', w')"
proof -
  obtain s where r: "try_random_bytes E SALT_LEN w = (Inr s, next_tick w)" "length s = SALT_LEN"
    using try_random_bytes_works [OF assms(1)] by blast
  have t: "tidy (v_path v) (sweep_dir_now E v (next_tick w))" using assms(2) by (intro tidy_sweep) simp
  from rotate_key_works [OF assms(1) t assms(3,4) assms(7) [OF r(2)]] r(1) assms(4-6) show ?thesis
    by (simp add: change_key_def is_locked_def verify_key_def Let_def)
qed

lemma change_password_works:
  assumes "working E" "tidy (v_path v) w" "\<not> retired v" "v_state v = Unlocked old_key its"
    and "derive_key D old (h_salt (v_header v)) (h_kdf (v_header v)) = Inr old_key"
    and "\<And>s. length s = SALT_LEN \<Longrightarrow> \<exists>k. derive_key D new s kdf = Inr k"
    and "\<And>s. try_random_bytes E SALT_LEN w = (Inr s, next_tick w) \<Longrightarrow> s \<noteq> h_salt (v_header v)"
    and "\<And>s s' k. length s = SALT_LEN \<Longrightarrow> length s' = SALT_LEN \<Longrightarrow>
           fits D (v\<lparr>v_header := (v_header v)\<lparr>h_salt := s, h_kdf := kdf, h_index_salt := s'\<rparr>\<rparr>) k its"
  shows "\<exists>v' w'. change_password D E old new kdf v w = (Inr (), v', w')"
proof -
  obtain s where r: "try_random_bytes E SALT_LEN w = (Inr s, next_tick w)" "length s = SALT_LEN"
    using try_random_bytes_works [OF assms(1)] by blast
  obtain k where k: "derive_key D new s kdf = Inr k" using assms(6) r(2) by blast
  have t: "tidy (v_path v) (next_tick w)" using assms(2) by simp
  have f: "length s' = SALT_LEN \<Longrightarrow>
      fits D (v\<lparr>v_header := (v_header v)\<lparr>h_salt := s, h_kdf := kdf, h_index_salt := s'\<rparr>\<rparr>) k its" for s'
    by (rule assms(8) [OF r(2)])
  from change_key_works [OF assms(1) t assms(3,4) derive_key_Inr_valid [OF k] assms(7) [OF r(1)] f]
  show ?thesis using r(1) k assms(5) by (simp add: change_password_def)
qed

end
