(* ===== verification/Wire_Instance.thy ===== *)
theory Wire_Instance
  imports Vault_Format
begin

text \<open>
  One concrete instance of the external libraries the vault relies on: a codec
  in the style of postcard (variable-length integers, length-prefixed
  sequences, fields in declaration order) and a keyed cipher with a tag over
  key, nonce and associated data. It shows that \<open>lib_correct\<close> can hold and is
  what the concrete runs in this development are evaluated on. It makes no
  claim about secrecy.
\<close>

section \<open>Encodings and their combinators\<close>

record 'a wire =
  put :: "'a \<Rightarrow> bytes option"
  get :: "bytes \<Rightarrow> ('a \<times> bytes) option"

definition wire_ok :: "'a wire \<Rightarrow> bool" where
  "wire_ok c \<longleftrightarrow> (\<forall>x bs rest. put c x = Some bs \<longrightarrow> get c (bs @ rest) = Some (x, rest))"

lemma wire_okD: "wire_ok c \<Longrightarrow> put c x = Some bs \<Longrightarrow> get c (bs @ rest) = Some (x, rest)"
  by (simp add: wire_ok_def)

fun put_varint :: "nat \<Rightarrow> bytes" where
  "put_varint n =
     (if n < 128 then [word_of_nat n] else word_of_nat (n mod 128 + 128) # put_varint (n div 128))"

declare put_varint.simps [simp del]

fun get_varint :: "bytes \<Rightarrow> (nat \<times> bytes) option" where
  "get_varint [] = None"
| "get_varint (b # bs) =
     (if unat b < 128 then Some (unat b, bs)
      else case get_varint bs of None \<Rightarrow> None | Some (n, rest) \<Rightarrow> Some (unat b - 128 + 128 * n, rest))"

lemma unat_byte_small: "n < 256 \<Longrightarrow> unat (word_of_nat n :: byte) = n"
  by (simp add: unat_of_nat)

lemma get_put_varint: "get_varint (put_varint n @ rest) = Some (n, rest)"
proof (induction n rule: put_varint.induct)
  case (1 n)
  show ?case
  proof (cases "n < 128")
    case False
    have "n mod 128 + 128 < 256" by simp
    then have u: "unat (word_of_nat (n mod 128 + 128) :: byte) = n mod 128 + 128" by (rule unat_byte_small)
    have "n mod 128 + 128 - 128 + 128 * (n div 128) = n" by simp
    with 1 [OF False] u False show ?thesis by (subst put_varint.simps) simp
  qed (subst put_varint.simps, simp add: unat_byte_small)
qed

definition w_nat :: "nat wire" where
  "w_nat = \<lparr>put = (\<lambda>n. Some (put_varint n)), get = get_varint\<rparr>"

definition w_map :: "('a \<Rightarrow> 'b) \<Rightarrow> ('b \<Rightarrow> 'a) \<Rightarrow> 'b wire \<Rightarrow> 'a wire" where
  "w_map f g c =
     \<lparr>put = (\<lambda>x. put c (f x)),
      get = (\<lambda>bs. case get c bs of None \<Rightarrow> None | Some (y, rest) \<Rightarrow> Some (g y, rest))\<rparr>"

definition w_pair :: "'a wire \<Rightarrow> 'b wire \<Rightarrow> ('a \<times> 'b) wire" where
  "w_pair c d =
     \<lparr>put = (\<lambda>(x, y). case put c x of None \<Rightarrow> None
              | Some b1 \<Rightarrow> (case put d y of None \<Rightarrow> None | Some b2 \<Rightarrow> Some (b1 @ b2))),
      get = (\<lambda>bs. case get c bs of None \<Rightarrow> None
              | Some (x, r1) \<Rightarrow> (case get d r1 of None \<Rightarrow> None | Some (y, r2) \<Rightarrow> Some ((x, y), r2)))\<rparr>"

fun put_seq :: "'a wire \<Rightarrow> 'a list \<Rightarrow> bytes option" where
  "put_seq c [] = Some []"
| "put_seq c (x # xs) =
     (case put c x of None \<Rightarrow> None
      | Some b1 \<Rightarrow> (case put_seq c xs of None \<Rightarrow> None | Some b2 \<Rightarrow> Some (b1 @ b2)))"

fun get_seq :: "'a wire \<Rightarrow> nat \<Rightarrow> bytes \<Rightarrow> ('a list \<times> bytes) option" where
  "get_seq c 0 bs = Some ([], bs)"
| "get_seq c (Suc n) bs =
     (case get c bs of None \<Rightarrow> None
      | Some (x, r1) \<Rightarrow> (case get_seq c n r1 of None \<Rightarrow> None | Some (xs, r2) \<Rightarrow> Some (x # xs, r2)))"

definition w_list :: "'a wire \<Rightarrow> 'a list wire" where
  "w_list c =
     \<lparr>put = (\<lambda>xs. case put_seq c xs of None \<Rightarrow> None | Some bs \<Rightarrow> Some (put_varint (length xs) @ bs)),
      get = (\<lambda>bs. case get_varint bs of None \<Rightarrow> None | Some (n, rest) \<Rightarrow> get_seq c n rest)\<rparr>"

definition w_byte :: "byte wire" where
  "w_byte = \<lparr>put = (\<lambda>b. Some [b]), get = (\<lambda>bs. case bs of [] \<Rightarrow> None | b # r \<Rightarrow> Some (b, r))\<rparr>"

definition w_word :: "'n::len word wire" where
  "w_word = w_map unat word_of_nat w_nat"

lemma wire_ok_nat: "wire_ok w_nat"
  by (simp add: wire_ok_def w_nat_def get_put_varint)

lemma wire_ok_map: "wire_ok c \<Longrightarrow> (\<And>x. g (f x) = x) \<Longrightarrow> wire_ok (w_map f g c)"
  by (simp add: wire_ok_def w_map_def)

lemma wire_ok_pair: "wire_ok c \<Longrightarrow> wire_ok d \<Longrightarrow> wire_ok (w_pair c d)"
  by (auto simp: wire_ok_def w_pair_def split: option.splits)

lemma get_put_seq: "wire_ok c \<Longrightarrow> put_seq c xs = Some bs \<Longrightarrow> get_seq c (length xs) (bs @ rest) = Some (xs, rest)"
  by (induction xs arbitrary: bs) (auto simp: wire_okD split: option.splits)

lemma wire_ok_list: "wire_ok c \<Longrightarrow> wire_ok (w_list c)"
  unfolding wire_ok_def [of "w_list c"]
  by (auto simp: w_list_def get_put_varint get_put_seq split: option.splits)

lemma wire_ok_byte: "wire_ok w_byte"
  by (simp add: wire_ok_def w_byte_def)

lemma wire_ok_word: "wire_ok w_word"
  unfolding w_word_def by (rule wire_ok_map [OF wire_ok_nat]) simp

lemmas wire_oks = wire_ok_map wire_ok_pair wire_ok_list wire_ok_byte wire_ok_word wire_ok_nat

section \<open>The vault's types\<close>

definition w_str :: "ustr wire" where
  "w_str = w_list w_nat"

definition w_bytes :: "bytes wire" where
  "w_bytes = w_list w_byte"

definition w_kdf :: "kdf_params wire" where
  "w_kdf = w_map (\<lambda>k. (m_cost_kib k, t_cost k, p_cost k))
     (\<lambda>(m, t, p). \<lparr>m_cost_kib = m, t_cost = t, p_cost = p\<rparr>) (w_pair w_word (w_pair w_word w_word))"

definition w_entry :: "index_entry wire" where
  "w_entry = w_map (\<lambda>e. (ie_id e, attr_hashes e)) (\<lambda>(i, h). \<lparr>ie_id = i, attr_hashes = h\<rparr>)
     (w_pair w_str (w_list w_bytes))"

definition w_header :: "header wire" where
  "w_header = w_map
     (\<lambda>h. (h_version h, h_label h, h_created h, h_modified h, h_kdf h, h_salt h, h_index_salt h,
           h_nonce h, h_index h))
     (\<lambda>(a, b, c, d, e, f, g, i, j). \<lparr>h_version = a, h_label = b, h_created = c, h_modified = d,
        h_kdf = e, h_salt = f, h_index_salt = g, h_nonce = i, h_index = j\<rparr>)
     (w_pair w_word (w_pair w_str (w_pair w_word (w_pair w_word (w_pair w_kdf (w_pair w_bytes
       (w_pair w_bytes (w_pair w_bytes (w_list w_entry)))))))))"

definition w_item :: "item wire" where
  "w_item = w_map
     (\<lambda>i. (it_id i, it_label i, it_attributes i, it_secret i, it_content_type i, it_created i, it_modified i))
     (\<lambda>(a, b, c, d, e, f, g). \<lparr>it_id = a, it_label = b, it_attributes = c, it_secret = d,
        it_content_type = e, it_created = f, it_modified = g\<rparr>)
     (w_pair w_str (w_pair w_str (w_pair (w_list (w_pair w_str w_str)) (w_pair w_bytes (w_pair w_str
       (w_pair w_word w_word))))))"

lemma wire_ok_header: "wire_ok w_header"
  unfolding w_header_def w_kdf_def w_entry_def w_str_def w_bytes_def by (intro wire_oks) auto

lemma wire_ok_items: "wire_ok (w_list w_item)"
  unfolding w_item_def w_str_def w_bytes_def by (intro wire_oks) auto

definition wire_codec :: "'a wire \<Rightarrow> 'a codec" where
  "wire_codec c =
     \<lparr>to_vec = (\<lambda>x. case put c x of None \<Rightarrow> Inl SerializeBufferFull | Some bs \<Rightarrow> Inr bs),
      take_from_bytes = (\<lambda>bs. case get c bs of None \<Rightarrow> Inl DeserializeUnexpectedEnd | Some r \<Rightarrow> Inr r)\<rparr>"

lemma wire_codec_correct: "wire_ok c \<Longrightarrow> codec_correct (wire_codec c)"
  by (auto simp: codec_correct_def wire_codec_def wire_okD split: option.splits)

section \<open>The instance\<close>

fun checksum :: "bytes \<Rightarrow> byte" where
  "checksum [] = 7"
| "checksum (b # bs) = b + 31 * checksum bs"

definition demo_encrypt :: "key \<Rightarrow> bytes \<Rightarrow> bytes \<Rightarrow> bytes \<Rightarrow> bytes option" where
  "demo_encrypt k n a m = Some (checksum (k @ n @ a) # m)"

definition demo_decrypt :: "key \<Rightarrow> bytes \<Rightarrow> bytes \<Rightarrow> bytes \<Rightarrow> bytes option" where
  "demo_decrypt k n a c = (case c of [] \<Rightarrow> None | t # m \<Rightarrow> if t = checksum (k @ n @ a) then Some m else None)"

definition demo_lib :: vault_lib where
  "demo_lib =
     \<lparr>argon2_params = (\<lambda>_ _ _ _. None),
      argon2_hash = (\<lambda>_ pw salt. Inr (take KEY_LEN (drop (length KDF_CONTEXT) pw @ salt @ replicate KEY_LEN 0))),
      aead_encrypt = demo_encrypt, aead_decrypt = demo_decrypt, sha256 = (\<lambda>bs. bs),
      header_codec = wire_codec w_header, items_codec = wire_codec (w_list w_item)\<rparr>"

lemma demo_lib_correct: "lib_correct demo_lib"
  by (simp add: lib_correct_def demo_lib_def aead_correct_def demo_encrypt_def demo_decrypt_def
      wire_codec_correct wire_ok_header wire_ok_items)

section \<open>Sizes\<close>

text \<open>\<open>within c n x\<close>: the value is accepted and takes at most \<open>n\<close> bytes.\<close>

definition within :: "'a wire \<Rightarrow> nat \<Rightarrow> 'a \<Rightarrow> bool" where
  "within c n x \<longleftrightarrow> (\<exists>bs. put c x = Some bs \<and> length bs \<le> n)"

lemma length_put_varint: "n < 128 ^ k \<Longrightarrow> 0 < k \<Longrightarrow> length (put_varint n) \<le> k"
proof (induction k arbitrary: n)
  case (Suc k)
  show ?case
  proof (cases "n < 128")
    case False
    with Suc.prems have "0 < k" by (cases k) auto
    moreover have "n div 128 < 128 ^ k" using Suc.prems(1) by (simp add: less_mult_imp_div_less mult.commute)
    ultimately show ?thesis using Suc.IH [of "n div 128"] False by (subst put_varint.simps) simp
  qed (subst put_varint.simps, simp)
qed simp

lemma within_nat: "x < 128 ^ n \<Longrightarrow> 0 < n \<Longrightarrow> within w_nat n x"
  by (simp add: within_def w_nat_def length_put_varint)

lemma within_map: "within c n (f x) \<Longrightarrow> within (w_map f g c) n x"
  by (simp add: within_def w_map_def)

lemma within_pair: "within c n x \<Longrightarrow> within d m y \<Longrightarrow> within (w_pair c d) (n + m) (x, y)"
  by (auto simp: within_def w_pair_def)

lemma within_word: "LENGTH('n) \<le> 64 \<Longrightarrow> within w_word 10 (x :: 'n::len word)"
proof -
  assume len: "LENGTH('n) \<le> 64"
  have "unat x < 2 ^ LENGTH('n)" by (rule unsigned_less)
  also have "(2::nat) ^ LENGTH('n) \<le> 2 ^ 64" using len by (rule power_increasing) simp
  also have "(2::nat) ^ 64 < 128 ^ 10" by simp
  finally show ?thesis unfolding w_word_def by (intro within_map within_nat) simp_all
qed

lemma within_byte: "within w_byte 1 b"
  by (simp add: within_def w_byte_def)

lemma put_seq_within:
  "\<forall>x\<in>set xs. within c m x \<Longrightarrow> \<exists>bs. put_seq c xs = Some bs \<and> length bs \<le> length xs * m"
  by (induction xs) (auto simp: within_def)

lemma within_list:
  assumes "\<forall>x\<in>set xs. within c m x" "length xs \<le> k" "k < 128 ^ 4"
  shows "within (w_list c) (4 + k * m) xs"
proof -
  obtain bs where bs: "put_seq c xs = Some bs" "length bs \<le> length xs * m"
    using put_seq_within [OF assms(1)] by blast
  have n: "length (put_varint (length xs)) \<le> 4" using assms(2,3) by (intro length_put_varint) auto
  have "length bs \<le> k * m" using bs(2) assms(2) mult_le_mono1 le_trans by blast
  with n have "length (put_varint (length xs) @ bs) \<le> 4 + k * m" by simp
  with bs(1) show ?thesis by (simp add: within_def w_list_def)
qed

definition short :: "ustr \<Rightarrow> bool" where
  "short s \<longleftrightarrow> length s \<le> 64 \<and> (\<forall>c\<in>set s. c < 128 ^ 3)"

lemma within_str: "short s \<Longrightarrow> within w_str 196 s"
  using within_list [of s w_nat 3 64] by (simp add: short_def w_str_def within_nat)

lemma within_bytes: "length bs \<le> n \<Longrightarrow> n < 128 ^ 4 \<Longrightarrow> within w_bytes (4 + n) bs"
  using within_list [of bs w_byte 1 n] by (simp add: w_bytes_def within_byte [unfolded One_nat_def])

text \<open>A header with short strings and few attribute hashes, and items to match.\<close>

definition small_header :: "header \<Rightarrow> bool" where
  "small_header h \<longleftrightarrow> short (h_label h) \<and> length (h_salt h) \<le> 64 \<and> length (h_index_salt h) \<le> 64
     \<and> length (h_nonce h) \<le> 64 \<and> length (h_index h) \<le> 64
     \<and> (\<forall>e\<in>set (h_index h). short (ie_id e) \<and> length (attr_hashes e) \<le> 8
          \<and> (\<forall>b\<in>set (attr_hashes e). length b \<le> 600))"

definition small_item :: "item \<Rightarrow> bool" where
  "small_item i \<longleftrightarrow> short (it_id i) \<and> short (it_label i) \<and> length (it_secret i) \<le> 64
     \<and> short (it_content_type i) \<and> length (it_attributes i) \<le> 8
     \<and> (\<forall>(k, v)\<in>set (it_attributes i). short k \<and> short v)"

lemma within_entry:
  assumes "short (ie_id e)" "length (attr_hashes e) \<le> 8" "\<forall>b\<in>set (attr_hashes e). length b \<le> 600"
  shows "within w_entry (196 + (4 + 8 * (4 + 600))) e"
proof -
  have "\<forall>b\<in>set (attr_hashes e). within w_bytes (4 + 600) b" using assms(3) within_bytes [of _ 600] by simp
  from within_list [OF this assms(2)] show ?thesis
    unfolding w_entry_def by (intro within_map within_pair within_str assms(1)) simp
qed

lemma within_header:
  assumes "small_header h"
  shows "within w_header 400000 h"
proof -
  have e: "\<forall>e\<in>set (h_index h). within w_entry (196 + (4 + 8 * (4 + 600))) e"
    using assms within_entry unfolding small_header_def by blast
  have i: "within (w_list w_entry) (4 + 64 * (196 + (4 + 8 * (4 + 600)))) (h_index h)"
    using assms by (intro within_list [OF e]) (simp_all add: small_header_def)
  have k: "within w_kdf (10 + (10 + 10)) (h_kdf h)"
    unfolding w_kdf_def by (intro within_map within_pair within_word) simp_all
  have "within w_header (10 + (196 + (10 + (10 + ((10 + (10 + 10)) + ((4 + 64) + ((4 + 64) + ((4 + 64)
      + (4 + 64 * (196 + (4 + 8 * (4 + 600)))))))))))) h"
    unfolding w_header_def
    by (intro within_map within_pair within_word within_str within_bytes k i)
      (use assms in \<open>simp_all add: small_header_def\<close>)
  then show ?thesis by (auto simp: within_def)
qed

lemma within_item:
  assumes "small_item i"
  shows "within w_item 4000 i"
proof -
  have "\<forall>a\<in>set (it_attributes i). within (w_pair w_str w_str) (196 + 196) a"
    using assms within_pair [OF within_str within_str] by (auto simp: small_item_def)
  then have a: "within (w_list (w_pair w_str w_str)) (4 + 8 * (196 + 196)) (it_attributes i)"
    using assms by (intro within_list) (simp_all add: small_item_def)
  have "within w_item (196 + (196 + ((4 + 8 * (196 + 196)) + ((4 + 64) + (196 + (10 + 10)))))) i"
    unfolding w_item_def
    by (intro within_map within_pair within_word within_str within_bytes a)
      (use assms in \<open>simp_all add: small_item_def\<close>)
  then show ?thesis by (auto simp: within_def)
qed

lemma within_items:
  assumes "\<forall>i\<in>set its. small_item i" "length its \<le> 64"
  shows "within (w_list w_item) 300000 its"
proof -
  have "\<forall>i\<in>set its. within w_item 4000 i" using assms(1) within_item by blast
  from within_list [OF this assms(2)] show ?thesis by (auto simp: within_def)
qed

lemma demo_header_bytes:
  assumes "small_header h"
  shows "\<exists>aad. header_bytes demo_lib h = Inr aad \<and> length aad \<le> 400012"
proof -
  obtain bs where "put w_header h = Some bs" "length bs \<le> 400000"
    using within_header [OF assms] by (auto simp: within_def)
  then show ?thesis
    by (simp add: header_bytes_def demo_lib_def wire_codec_def MAX_HEADER_def to_le_bytes_def)
qed

lemma demo_encode_items:
  assumes "\<forall>i\<in>set its. small_item i" "length its \<le> 64"
  shows "\<exists>bs. encode_items demo_lib its = Inr bs \<and> length bs \<le> 300000"
  using within_items [OF assms]
  by (auto simp: within_def encode_items_def demo_lib_def wire_codec_def)

lemma length_encode_utf8: "length (encode_utf8 c) \<le> 4"
  by (simp add: encode_utf8_def)

lemma str_len_bound: "str_len s \<le> 4 * length s"
proof (induction s)
  case (Cons c s)
  then show ?case by (simp add: str_len_def as_bytes_def add_mono length_encode_utf8)
qed (simp add: str_len_def as_bytes_def)

lemma demo_index_small:
  assumes "small_item i" "length salt \<le> 64"
  shows "length (attr_hashes (index_entry_of demo_lib salt b i)) \<le> 8
    \<and> (\<forall>h\<in>set (attr_hashes (index_entry_of demo_lib salt b i)). length h \<le> 600)"
proof -
  have "length (attribute_hash demo_lib salt k v) \<le> 600" if "(k, v) \<in> set (it_attributes i)" for k v
  proof -
    have "short k" "short v" using assms(1) that by (auto simp: small_item_def)
    with str_len_bound [of k] str_len_bound [of v] assms(2) show ?thesis
      by (simp add: attribute_hash_def attribute_preimage_def demo_lib_def short_def to_le_bytes_def)
  qed
  with assms(1) show ?thesis by (auto simp: index_entry_of_def small_item_def)
qed

end
