(* ===== verification/Vault_Demo.thy ===== *)
theory Vault_Demo
  imports Vault_Progress Wire_Instance
begin

text \<open>
  A concrete run of the vault over the library instance of \<open>Wire_Instance\<close>: an
  environment in which nothing fails, the vault \<open>demo_vault\<close> it creates and the
  vault \<open>demo_filled\<close> after one insert. Theorems with hypotheses are applied to
  these.
\<close>

definition demo_env :: env where
  "demo_env = \<lparr>rng = (\<lambda>t. Some (\<lambda>i. word_of_nat (t + i))), clock = (\<lambda>t. word_of_nat t),
     new_uuid = (\<lambda>t. [97]), fault = (\<lambda>_. None), short_write = (\<lambda>_. 0)\<rparr>"

definition demo_path :: path where
  "demo_path = [lit ''v'', lit ''a.vault'']"

definition demo_start :: world where
  "demo_start = \<lparr>fs = [], dirs = [], tick = 0, hist = []\<rparr>"

definition demo_kdf :: kdf_params where
  "demo_kdf = \<lparr>m_cost_kib = 8, t_cost = 1, p_cost = 1\<rparr>"

definition demo_create :: "(vault_error + vault) \<times> world" where
  "demo_create = create demo_lib demo_env demo_path (lit ''a'') [1, 2] demo_kdf demo_start"

definition demo_vault :: vault where
  "demo_vault = projr (fst demo_create)"

definition demo_world :: world where
  "demo_world = snd demo_create"

text \<open>The directory with the vault file and nothing else in it.\<close>

definition demo_disk :: world where
  "demo_disk = \<lparr>fs = [(demo_path, \<lparr>f_bytes = on_disk demo_vault, f_mode = MODE_FILE, f_mtime = 0,
     f_regular = True\<rparr>)], dirs = [(parent_or_dot demo_path, MODE_DIR)], tick = 0, hist = []\<rparr>"

definition demo_attrs :: attrs where
  "demo_attrs = [(lit ''k'', lit ''x'')]"

definition demo_insert :: "(ustr \<times> bool) outcome" where
  "demo_insert = insert_item demo_lib demo_env (lit ''b'') demo_attrs [3, 4] (lit ''t'') True demo_vault demo_disk"

definition demo_filled :: vault where
  "demo_filled = fst (snd demo_insert)"

definition demo_after :: world where
  "demo_after = snd (snd demo_insert)"

lemma demo_env_simps [simp]: "working demo_env" "fault demo_env t = None" "new_uuid demo_env t = [97]"
  by (simp_all add: working_def demo_env_def)

lemma demo_vault_path: "vault_path demo_path"
  using vault_path_not_temp [of "[lit ''v'']" "lit ''a''"] by (simp add: vault_path_def demo_path_def lit_def)

lemma demo_seal: "\<exists>ct. seal demo_lib k n a m = Inr ct \<and> length ct = Suc (length m)"
  by (simp add: seal_def demo_lib_def demo_encrypt_def)

text \<open>A vault with a small header and few small items always fits.\<close>

lemma demo_fits:
  assumes "short (h_label (v_header v))" "length (h_salt (v_header v)) \<le> 64"
    "length (h_index_salt (v_header v)) \<le> 64" "size_limit v = MAX_VAULT_BYTES"
    and "\<forall>i\<in>set its. small_item i" "length its \<le> 64"
  shows "fits demo_lib v k its"
  unfolding fits_def
proof (intro allI impI)
  fix t :: u64 and nonce :: bytes assume n: "length nonce = NONCE_LEN"
  have "small_header (saved_header demo_lib v its t nonce)"
    using assms n demo_index_small
    by (auto simp: small_header_def saved_header_def build_index_def NONCE_LEN_def)
      (simp add: index_entry_of_def small_item_def)
  then obtain aad where a: "header_bytes demo_lib (saved_header demo_lib v its t nonce) = Inr aad"
    "length aad \<le> 400012" using demo_header_bytes by blast
  obtain plain where p: "encode_items demo_lib its = Inr plain" "length plain \<le> 300000"
    using demo_encode_items [OF assms(5,6)] by blast
  obtain ct where "seal demo_lib k nonce aad plain = Inr ct" "length ct = Suc (length plain)"
    using demo_seal by blast
  with a p assms(4) show "\<exists>aad plain ct. header_bytes demo_lib (saved_header demo_lib v its t nonce) = Inr aad
      \<and> encode_items demo_lib its = Inr plain \<and> seal demo_lib k nonce aad plain = Inr ct
      \<and> length (aad @ ct) \<le> size_limit v"
    by (auto simp: MAX_VAULT_BYTES_def)
qed

lemma demo_derive_key: "\<exists>k. derive_key demo_lib pw salt demo_kdf = Inr k"
proof -
  have "validate demo_kdf = Inr ()" by (simp add: validate_Inr_iff demo_kdf_def)
  then show ?thesis by (simp add: derive_key_def demo_lib_def)
qed

lemma demo_short: "short [c] \<longleftrightarrow> c < 128 ^ 3"
  by (simp add: short_def)

lemma demo_build:
  "\<exists>v w' k. build demo_lib demo_env p (lit ''a'') pw demo_kdf w = (Inr v, w')
     \<and> v_state v = Unlocked k [] \<and> fits demo_lib v k []"
proof -
  obtain s1 where s1: "try_random_bytes demo_env SALT_LEN w = (Inr s1, next_tick w)" "length s1 = SALT_LEN"
    using try_random_bytes_works [of demo_env] by (auto simp: demo_env_simps)
  obtain s2 where s2: "try_random_bytes demo_env SALT_LEN (next_tick w) = (Inr s2, next_tick (next_tick w))"
    "length s2 = SALT_LEN"
    using try_random_bytes_works [of demo_env] by (auto simp: demo_env_simps)
  obtain k where k: "derive_key demo_lib pw s1 demo_kdf = Inr k" using demo_derive_key by blast
  have l: "check_label (lit ''a'') = Inr ()"
    by (simp add: check_label_def lit_def str_len_def MAX_LABEL_def as_bytes_def encode_utf8_def)
  show ?thesis
    using s1 s2 k l
    by (auto simp: build_def now_def SALT_LEN_def lit_def demo_short intro!: demo_fits)
qed

lemma demo_create_Inr: "create demo_lib demo_env demo_path (lit ''a'') [1, 2] demo_kdf demo_start
    = (Inr demo_vault, demo_world)"
proof -
  have "tidy demo_path demo_start" "free_path demo_path demo_start"
    by (simp_all add: tidy_def free_path_def demo_start_def demo_path_def lit_def)
  from create_works [OF demo_env_simps(1) this demo_build]
  obtain v w where "create demo_lib demo_env demo_path (lit ''a'') [1, 2] demo_kdf demo_start = (Inr v, w)"
    by blast
  then show ?thesis by (simp add: demo_vault_def demo_world_def demo_create_def)
qed

lemmas demo_created = create_Inr [OF demo_lib_correct demo_vault_path demo_create_Inr]

lemma demo_vault_ok: "vault_ok demo_lib demo_vault demo_disk"
  using demo_created(1)
  by (rule vault_ok_world)
    (use vault_okD(3) [OF demo_created(1)] demo_created(2,3) in \<open>auto simp: demo_disk_def content_def\<close>)

lemma demo_key: "\<exists>k. v_state demo_vault = Unlocked k []"
  using demo_created(6) by blast

definition demo_the_key :: key where
  "demo_the_key = (case v_state demo_vault of Unlocked k _ \<Rightarrow> k | Locked \<Rightarrow> [])"

lemma demo_unlocked: "v_state demo_vault = Unlocked demo_the_key []"
  using demo_key by (auto simp: demo_the_key_def)

lemma demo_header: "length (h_salt (v_header demo_vault)) \<le> 64" "length (h_index_salt (v_header demo_vault)) \<le> 64"
  using demo_created(7) by (simp_all add: SALT_LEN_def)

lemma demo_tidy: "tidy demo_path demo_disk"
  using vault_path_not_temp [of "[lit ''v'']" "lit ''a''"]
  by (auto simp: tidy_def demo_disk_def demo_path_def parent_or_dot_def parent_def lit_def)

lemma demo_insert_works: "\<exists>x v' w'. insert_item demo_lib demo_env (lit ''b'') demo_attrs [3, 4] (lit ''t'') True demo_vault demo_disk
    = (Inr x, v', w')"
proof (rule insert_item_works)
  show "within_caps (lit ''b'') demo_attrs (length [3 :: byte, 4]) (lit ''t'')"
    by (simp add: within_caps_def lit_def str_len_def as_bytes_def encode_utf8_def MAX_ITEM_LABEL_def
        demo_attrs_def MAX_ATTRIBUTE_KEY_def MAX_ATTRIBUTE_VALUE_def MAX_ITEM_SECRET_def MAX_ITEM_CONTENT_TYPE_def MAX_ITEM_ATTRIBUTES_def)
  show "\<forall>t n. fits demo_lib demo_vault demo_the_key
      (fst (inserted (lit ''b'') demo_attrs [3, 4] (lit ''t'') True t (new_uuid demo_env n) []))"
    using demo_header demo_created(4) vault_okD(5) [OF demo_vault_ok]
    by (auto simp: inserted_def demo_attrs_def lit_def demo_short small_item_def intro!: demo_fits)
qed (simp_all add: demo_created demo_tidy demo_unlocked)

lemma demo_insert_Inr: "insert_item demo_lib demo_env (lit ''b'') demo_attrs [3, 4] (lit ''t'') True demo_vault demo_disk
    = (Inr ([97], False), demo_filled, demo_after)"
proof -
  obtain x v' w' where i: "insert_item demo_lib demo_env (lit ''b'') demo_attrs [3, 4] (lit ''t'') True demo_vault demo_disk
      = (Inr x, v', w')" using demo_insert_works by blast
  then have "x = ([97], False)"
    using demo_unlocked by (auto simp: insert_item_def items_def insert_item_unchecked_def now_def uuid_v4_def
        Let_def split: sum.splits prod.splits)
  with i show ?thesis by (simp add: demo_filled_def demo_after_def demo_insert_def)
qed

lemma demo_filled_ok: "vault_ok demo_lib demo_filled demo_after"
  using insert_item_contract [OF demo_lib_correct demo_vault_ok,
      of demo_env "lit ''b''" demo_attrs "[3, 4]" "lit ''t''" True]
  unfolding demo_insert_Inr by (rule contract_ok)

text \<open>The same with the one item stored, and its file alone in the directory.\<close>

definition demo_item :: item where
  "demo_item = \<lparr>it_id = [97], it_label = lit ''b'', it_attributes = demo_attrs, it_secret = [3, 4],
     it_content_type = lit ''t'', it_created = 0, it_modified = 0\<rparr>"

definition demo_disk2 :: world where
  "demo_disk2 = \<lparr>fs = [(demo_path, \<lparr>f_bytes = on_disk demo_filled, f_mode = MODE_FILE, f_mtime = 0,
     f_regular = True\<rparr>)], dirs = [(parent_or_dot demo_path, MODE_DIR)], tick = 0, hist = []\<rparr>"

lemma demo_inserted:
  "\<exists>w1. save_or_restore demo_lib demo_env Pushed restore_delta
     (demo_vault\<lparr>v_state := Unlocked demo_the_key [demo_item]\<rparr>) w1 = (Inr (), demo_filled, demo_after)"
proof -
  have n: "now demo_env demo_disk = (0, next_tick demo_disk)" by (simp add: now_def demo_env_def demo_disk_def)
  have "insert_item_unchecked demo_lib demo_env (lit ''b'') demo_attrs [3, 4] (lit ''t'') True demo_vault demo_disk
      = (Inr ([97], False), demo_filled, demo_after)"
    using demo_insert_Inr by (auto simp: insert_item_def split: sum.splits)
  then show ?thesis
    unfolding insert_item_unchecked_def n demo_unlocked
    by (auto simp: uuid_v4_def demo_item_def Let_def split: sum.splits prod.splits)
qed

lemma demo_filled_facts:
  "v_state demo_filled = Unlocked demo_the_key [demo_item]" "v_path demo_filled = demo_path"
  "\<not> retired demo_filled" "h_label (v_header demo_filled) = lit ''a''"
  "length (h_salt (v_header demo_filled)) \<le> 64" "length (h_index_salt (v_header demo_filled)) \<le> 64"
  "h_salt (v_header demo_filled) = h_salt (v_header demo_vault)" "h_kdf (v_header demo_filled) = demo_kdf"
  "index_attributes demo_filled = index_attributes demo_vault"
proof -
  obtain w1 where "save demo_lib demo_env (demo_vault\<lparr>v_state := Unlocked demo_the_key [demo_item]\<rparr>) w1
      = (Inr (), demo_filled, demo_after)"
    using demo_inserted by (auto dest: save_or_restore_Inr)
  note h = save_header [OF this] and st = save_with_header [OF this [unfolded save_def]]
  show "v_path demo_filled = demo_path" "\<not> retired demo_filled" "h_label (v_header demo_filled) = lit ''a''"
    "length (h_salt (v_header demo_filled)) \<le> 64" "length (h_index_salt (v_header demo_filled)) \<le> 64"
    "h_salt (v_header demo_filled) = h_salt (v_header demo_vault)" "h_kdf (v_header demo_filled) = demo_kdf"
    "index_attributes demo_filled = index_attributes demo_vault"
    using h demo_created demo_header by simp_all
  from st have "demo_filled = demo_vault\<lparr>v_state := Unlocked demo_the_key [demo_item], v_header := v_header demo_filled,
      v_aad := v_aad demo_filled, v_ciphertext := v_ciphertext demo_filled\<rparr>" by auto
  from arg_cong [OF this, of v_state] show "v_state demo_filled = Unlocked demo_the_key [demo_item]" by simp
qed

lemma demo_filled_ok2: "vault_ok demo_lib demo_filled demo_disk2"
  using demo_filled_ok
  by (rule vault_ok_world)
    (use vault_okD(3) [OF demo_filled_ok] demo_filled_facts(2,3) in \<open>auto simp: demo_disk2_def content_def\<close>)

lemma demo_tidy2: "tidy demo_path demo_disk2"
  by (auto simp: tidy_def demo_disk2_def demo_path_def parent_or_dot_def parent_def lit_def is_temp_path_def
      strip_suffix_def)

text \<open>Small edits of the two vaults are saved.\<close>

lemma demo_edit_works:
  assumes "\<forall>i\<in>set its. small_item i" "length its \<le> 64" "tidy demo_path w"
  shows "\<exists>v' w'. save_or_restore demo_lib demo_env before restore
      (demo_filled\<lparr>v_state := Unlocked k its\<rparr>) w = (Inr (), v', w')"
proof (rule save_or_restore_works)
  show "fits demo_lib demo_filled k its"
    using assms(1,2) demo_filled_facts(4-6) vault_okD(5) [OF demo_filled_ok]
    by (auto intro!: demo_fits simp: lit_def demo_short)
qed (use assms(3) demo_filled_facts(2,3) in simp_all)

end
