(* ===== verification/Vault_Properties.thy ===== *)
theory Vault_Properties
  imports Vault_Demo
begin

text \<open>
  The properties of the vault component, each with a concrete instance where it
  has hypotheses.
\<close>

section \<open>Shared facts\<close>

lemma contract_err: "contract D v out f \<Longrightarrow> out = (Inl e, v', w') \<Longrightarrow> v' = v \<and> vault_ok D v w'"
  by auto

lemma save_retired [simp]: "retired v \<Longrightarrow> save D E v w = (Inl VRetired, v, w)"
  by (simp add: save_def save_with_def)

lemma save_or_restore_retired [simp]:
  "retired v \<Longrightarrow> save_or_restore D E before restore v w = (Inl VRetired, restore before v, w)"
  by (simp add: save_or_restore_def)

lemma save_or_restore_not_retired:
  assumes "save_or_restore D E before restore v w = (Inr u, v', w')"
  shows "\<not> retired v'"
proof -
  have s: "save D E v w = (Inr u, v', w')" using assms by (rule save_or_restore_Inr)
  then have "\<not> retired v" by auto
  with save_header(5) [OF s] show ?thesis by simp
qed

lemma insert_item_saves:
  assumes "insert_item D E label attributes secret content_type replace v w = (Inr x, v', w')"
  shows "\<exists>d v1 w1. save_or_restore D E d restore_delta v1 w1 = (Inr (), v', w')"
proof -
  have "insert_item_unchecked D E label attributes secret content_type replace v w = (Inr x, v', w')"
    using assms by (auto simp: insert_item_def split: sum.splits)
  then show ?thesis
    unfolding insert_item_unchecked_def Let_def
    by (auto split: prod.splits sum.splits vault_state.splits option.splits)
qed

lemma insert_item_not_retired:
  "insert_item D E label attributes secret content_type replace v w = (Inr x, v', w') \<Longrightarrow> \<not> retired v'"
  by (drule insert_item_saves) (auto dest: save_or_restore_not_retired)

text \<open>What an insert leaves in the list carries what was inserted.\<close>

lemma inserted_member:
  assumes "inserted label attributes secret content_type replace t fresh its = (its', (i, replaced))"
  shows "\<exists>x\<in>set its'. it_id x = i \<and> it_label x = label \<and> it_attributes x = attributes
    \<and> it_secret x = secret \<and> it_content_type x = content_type"
proof (cases "if replace then position (\<lambda>i. it_attributes i = attributes) its else None")
  case None
  with assms show ?thesis by (auto simp: inserted_def)
next
  case (Some p)
  then have p: "position (\<lambda>i. it_attributes i = attributes) its = Some p" by (simp split: if_splits)
  have "p < length its" "it_attributes (its ! p) = attributes"
    using position_less [OF p] position_holds [OF p] by simp_all
  with assms Some show ?thesis
    by (auto simp: inserted_def set_update_memI intro!: bexI [of _ "its' ! p"])
qed

section \<open>Saving is atomic\<close>

lemma vault_write_atomic_crash:
  assumes "vault_write_atomic E p bs w = (r, w')"
  shows "case r of Inl _ \<Rightarrow> keeps p w w' | Inr _ \<Rightarrow> between p {content w p, Some bs} w w' \<and> content w' p = Some bs"
proof -
  obtain r1 w1 where e: "ensure_vault_dir E (parent_or_dot p) w = (r1, w1)" by fastforce
  have k: "keeps p w w1" using ensure_vault_dir_keeps [of p w E "parent_or_dot p"] e by simp
  show ?thesis
  proof (cases r1)
    case (Inl x)
    with assms e k show ?thesis by (auto simp: vault_write_atomic_def)
  next
    case (Inr u)
    obtain r2 w2 where a: "write_atomic E p bs MODE_FILE w1 = (r2, w2)" by fastforce
    show ?thesis
    proof (cases r2)
      case (Inl x)
      with assms e a \<open>r1 = Inr u\<close> keeps_trans [OF k write_atomic_Inl [OF a [unfolded Inl]]] show ?thesis
        by (auto simp: vault_write_atomic_def)
    next
      case (Inr x)
      note wa = write_atomic_Inr [OF a [unfolded Inr]]
      have "between p {content w p, Some bs} w w1" using keeps_between [OF k] by simp
      then have "between p {content w p, Some bs} w w2"
        using wa(2) keeps_content [OF k] by (auto intro: between_trans)
      with assms e a \<open>r1 = Inr u\<close> Inr wa(1) show ?thesis by (auto simp: vault_write_atomic_def)
    qed
  qed
qed

text \<open>
  C1: A save is all or nothing, at every moment. If it succeeds, the vault's file
  held either its old bytes or the complete new ones in every intermediate file
  system (so also after a crash), and ends with the new ones. If it fails, the
  file was never touched and the vault in memory is the vault before.
\<close>

theorem save_crash_atomic:
  assumes "save D E v w = (r, v', w')"
  shows "case r of
      Inl _ \<Rightarrow> v' = v \<and> keeps (v_path v) w w'
    | Inr _ \<Rightarrow> between (v_path v) {content w (v_path v), Some (on_disk v')} w w'
        \<and> content w' (v_path v) = Some (on_disk v')"
proof (cases r)
  case (Inr u)
  from assms [unfolded Inr save_def] obtain aad ct w2 where
    pb: "vault_write_atomic E (v_path v) (aad @ ct) w2 = (Inr (), w')" "keeps (v_path v) w w2"
    "on_disk v' = aad @ ct"
    by (rule save_with_Inr [where q = "v_path v"]) (simp add: on_disk_def)
  have "between (v_path v) {content w (v_path v), Some (on_disk v')} w w2"
    using keeps_between [OF pb(2)] by simp
  with vault_write_atomic_crash [OF pb(1)] pb(2,3) keeps_content [OF pb(2)] Inr show ?thesis
    by (auto intro: between_trans)
next
  case (Inl e)
  obtain r1 w1 where r: "try_random_bytes E NONCE_LEN w = (r1, w1)" by fastforce
  have "keeps (v_path v) w w1" using try_random_bytes_keeps [of "v_path v" w E NONCE_LEN] r by simp
  then have k: "keeps (v_path v) w w1" "keeps (v_path v) w (next_tick w1)"
    by (auto intro: keeps_trans keeps_next_tick)
  have "keeps (v_path v) w x" if "vault_write_atomic E (v_path v) bs (next_tick w1) = (Inl e', x)" for bs e' x
    using vault_write_atomic_crash [OF that] k(2) by (auto intro: keeps_trans)
  with assms [unfolded Inl] r k save_with_Inl [OF assms [unfolded Inl save_def]] Inl show ?thesis
    by (auto simp: save_def save_with_def Let_def now_def
        split: if_splits vault_state.splits prod.splits sum.splits)
qed

theorem save_crash_atomic_witness:
  "\<exists>v' w'. save demo_lib demo_env demo_vault demo_disk = (Inr (), v', w')
     \<and> between demo_path {Some (on_disk demo_vault), Some (on_disk v')} demo_disk w'"
proof -
  have p: "v_path demo_vault = demo_path" by (rule demo_created(2))
  have "fits demo_lib demo_vault demo_the_key []"
    using demo_header demo_created(4) vault_okD(5) [OF demo_vault_ok]
    by (auto intro!: demo_fits simp: lit_def demo_short)
  then obtain v' w' where s: "save demo_lib demo_env demo_vault demo_disk = (Inr (), v', w')"
    using save_works [of demo_env demo_vault demo_disk demo_the_key "[]" demo_lib] demo_tidy demo_created(3)
      demo_unlocked p by auto
  have "content demo_disk demo_path = Some (on_disk demo_vault)" by (simp add: content_def demo_disk_def)
  with save_crash_atomic [OF s] p s show ?thesis by auto
qed

section \<open>The invariant\<close>



section \<open>Edits\<close>

text \<open>
  C3: A stored secret survives the process. After a successful insert, opening
  the file again and unlocking it with the same key gives exactly the items held
  before, among them one with the returned id that carries the label, the
  attributes, the secret and the content type that were stored.
\<close>

theorem insert_item_durable:
  assumes "lib_correct D" "vault_ok D v w" "v_state v = Unlocked k its" "\<forall>t. fault E' t = None"
    and "insert_item D E label attributes secret content_type replace v w = (Inr (i, replaced), v', w')"
  shows "\<exists>v2 w2 v3 w3 its'. open_vault D E' (v_path v') w' = (Inr v2, w2)
     \<and> unlock_with_key D E' k v2 w2 = (Inr (), v3, w3) \<and> items v' = Inr its' \<and> items v3 = Inr its'
     \<and> (\<exists>x\<in>set its'. it_id x = i \<and> it_label x = label \<and> it_attributes x = attributes
          \<and> it_secret x = secret \<and> it_content_type x = content_type)"
proof -
  have "contract D v (Inr (i, replaced), v', w') (\<lambda>x its its'. within_caps label attributes (length secret) content_type
      \<and> (\<exists>t fresh. inserted label attributes secret content_type replace t fresh its = (its', x)))"
    using insert_item_contract [OF assms(1,2), of E label attributes secret content_type replace]
    unfolding assms(5) .
  then obtain its' t fresh where ok: "vault_ok D v' w'" and st: "v_state v' = Unlocked k its'"
    and ins: "inserted label attributes secret content_type replace t fresh its = (its', (i, replaced))"
    using assms(3) by auto
  have nr: "\<not> retired v'" using insert_item_not_retired [OF assms(5)] .
  have u: "unseals D (reopened v') k its'" using vault_okD(6) [OF ok st] by simp
  have op: "open_vault D E' (v_path v') w' = (Inr (reopened v'), next_tick (next_tick w'))"
    using open_vault_reopens [OF ok nr] assms(4) by simp
  have vp: "vault_path (v_path v')" by (rule vault_okD(4) [OF ok])
  note ok2 = open_vault_Inr [OF op vp]
  obtain v3 w3 where ul: "unlock_with_key D E' k (reopened v') (next_tick (next_tick w')) = (Inr (), v3, w3)"
    using unlock_with_key_succeeds [OF ok2(4,2) u, of E' "next_tick (next_tick w')"]
    by (metis prod.collapse)
  obtain its3 where "v_state v3 = Unlocked k its3" "unseals D (reopened v') k its3"
    using unlock_with_key_ok(3) [OF assms(1) ok2(1) ul] by blast
  then have "items v3 = Inr its'" using unseals_det [OF u] by (simp add: items_def)
  moreover have "\<exists>x\<in>set its'. it_id x = i \<and> it_label x = label \<and> it_attributes x = attributes
      \<and> it_secret x = secret \<and> it_content_type x = content_type"
    by (rule inserted_member [OF ins])
  ultimately show ?thesis using op ul st by (auto simp: items_def)
qed

theorem insert_item_durable_witness:
  "\<exists>v2 w2 v3 w3 its'. open_vault demo_lib demo_env (v_path demo_filled) demo_after = (Inr v2, w2)
     \<and> unlock_with_key demo_lib demo_env demo_the_key v2 w2 = (Inr (), v3, w3)
     \<and> items demo_filled = Inr its' \<and> items v3 = Inr its'
     \<and> (\<exists>x\<in>set its'. it_id x = [97] \<and> it_label x = lit ''b'' \<and> it_attributes x = demo_attrs
          \<and> it_secret x = [3, 4] \<and> it_content_type x = lit ''t'')"
  by (rule insert_item_durable [OF demo_lib_correct demo_vault_ok demo_unlocked _ demo_insert_Inr]) simp

text \<open>
  C4: An edit that fails leaves no trace. Whichever operation it was and wherever
  it failed (lock, cap, unknown id, random bytes, encoder, size limit, any system
  call), the vault in memory is exactly the vault before, and the invariant
  holds, so the file still decodes to it.
\<close>

theorem failed_edit_restores:
  assumes "lib_correct D" "vault_ok D v w"
    and "insert_item D E label attributes secret content_type replace v w = (Inl e, v', w')
       \<or> update_item D E i f v w = (Inl e, v', w') \<or> delete_item D E i v w = (Inl e, v', w')
       \<or> delete_items D E ids v w = (Inl e, v', w') \<or> import_items D E batch v w = (Inl e, v', w')
       \<or> set_label D E label v w = (Inl e, v', w')"
  shows "v' = v \<and> vault_ok D v w'"
proof -
  note errs = contract_err [OF insert_item_contract [OF assms(1,2)]]
    contract_err [OF update_item_contract [OF assms(1,2)]] contract_err [OF delete_item_contract [OF assms(1,2)]]
    contract_err [OF delete_items_contract [OF assms(1,2)]] contract_err [OF import_items_contract [OF assms(1,2)]]
    contract_err [OF set_label_contract [OF assms(1,2)]]
  have "ids = [] \<Longrightarrow> delete_items D E ids v w \<noteq> (Inl e, v', w')"
    "batch = [] \<Longrightarrow> import_items D E batch v w \<noteq> (Inl e, v', w')"
    by (simp_all add: delete_items_def import_items_def)
  then have ne: "delete_items D E ids v w = (Inl e, v', w') \<Longrightarrow> ids \<noteq> []"
    "import_items D E batch v w = (Inl e, v', w') \<Longrightarrow> batch \<noteq> []" by blast+
  from assms(3) show ?thesis
    by (elim disjE) (erule errs, erule errs, erule errs, rule errs(4), erule ne, assumption,
        rule errs(5), erule ne, assumption, erule errs)
qed

theorem failed_edit_restores_witness:
  "delete_item demo_lib demo_env [1] demo_vault demo_disk = (Inl (NoSuchItem [1]), demo_vault, demo_disk)
   \<and> vault_ok demo_lib demo_vault demo_disk"
proof -
  have d: "delete_item demo_lib demo_env [1] demo_vault demo_disk = (Inl (NoSuchItem [1]), demo_vault, demo_disk)"
    by (simp add: delete_item_def demo_unlocked)
  with failed_edit_restores [OF demo_lib_correct demo_vault_ok, where i = "[1]" and E = demo_env
      and e = "NoSuchItem [1]" and v' = demo_vault and w' = demo_disk] show ?thesis by blast
qed

text \<open>
  C5: What a successful insert does. It replaces at most one item: the first one
  whose attribute map equals the given one, when replacing was asked for, keeping
  that item's id, creation time and place; otherwise it appends one item under a
  new id and no item had that attribute map (or replacing was not asked for). All
  other items are untouched, and nothing over a cap is ever stored.
\<close>

theorem insert_item_effect:
  assumes "lib_correct D" "vault_ok D v w" "v_state v = Unlocked k its"
    and "insert_item D E label attributes secret content_type replace v w = (Inr (i, replaced), v', w')"
  shows "within_caps label attributes (length secret) content_type \<and> (\<exists>its'. items v' = Inr its' \<and>
    (if replaced
     then replace \<and> (\<exists>p. position (\<lambda>x. it_attributes x = attributes) its = Some p \<and> i = it_id (its ! p)
       \<and> (\<exists>t. its' = its[p := (its ! p)\<lparr>it_label := label, it_secret := secret,
                              it_content_type := content_type, it_modified := t\<rparr>]))
     else (replace \<longrightarrow> (\<forall>x\<in>set its. it_attributes x \<noteq> attributes))
       \<and> (\<exists>t. its' = its @ [\<lparr>it_id = i, it_label = label, it_attributes = attributes, it_secret = secret,
                              it_content_type = content_type, it_created = t, it_modified = t\<rparr>])))"
proof -
  have "contract D v (Inr (i, replaced), v', w') (\<lambda>x its its'. within_caps label attributes (length secret) content_type
      \<and> (\<exists>t fresh. inserted label attributes secret content_type replace t fresh its = (its', x)))"
    using insert_item_contract [OF assms(1,2), of E label attributes secret content_type replace]
    unfolding assms(4) .
  then obtain its' t fresh where caps: "within_caps label attributes (length secret) content_type"
    and st: "v_state v' = Unlocked k its'"
    and ins: "inserted label attributes secret content_type replace t fresh its = (its', (i, replaced))"
    using assms(3) by auto
  show ?thesis
  proof (cases "if replace then position (\<lambda>x. it_attributes x = attributes) its else None")
    case None
    then have "replace \<Longrightarrow> \<forall>x\<in>set its. it_attributes x \<noteq> attributes" by (auto simp: position_None_iff)
    with None ins st caps show ?thesis by (auto simp: inserted_def items_def)
  next
    case (Some p)
    then have "replace" "position (\<lambda>x. it_attributes x = attributes) its = Some p" by (simp_all split: if_splits)
    with ins st caps show ?thesis by (auto simp: inserted_def items_def)
  qed
qed

theorem insert_item_effect_witness:
  "within_caps (lit ''b'') demo_attrs 2 (lit ''t'') \<and> (\<exists>its'. items demo_filled = Inr its' \<and>
     (\<exists>t. its' = [\<lparr>it_id = [97], it_label = lit ''b'', it_attributes = demo_attrs, it_secret = [3, 4],
                    it_content_type = lit ''t'', it_created = t, it_modified = t\<rparr>]))"
  using insert_item_effect [OF demo_lib_correct demo_vault_ok demo_unlocked demo_insert_Inr]
  by (simp add: numeral_2_eq_2)

text \<open>
  C6: A batch delete removes exactly the items whose ids were given, or nothing:
  it succeeds only if every id names an item, and then the remaining items are
  the others, in their order.
\<close>

theorem delete_items_exact:
  assumes "lib_correct D" "vault_ok D v w" "v_state v = Unlocked k its"
    and "delete_items D E ids v w = (Inr (), v', w')"
  shows "set ids \<subseteq> it_id ` set its \<and> items v' = Inr (filter (\<lambda>x. it_id x \<notin> set ids) its)"
proof (cases "ids = []")
  case True
  with assms(3,4) show ?thesis by (auto simp: delete_items_def items_def)
next
  case False
  from delete_items_contract [OF assms(1,2) False, of E] show ?thesis
    unfolding assms(4) using assms(3) by (auto simp: items_def)
qed

theorem delete_items_exact_witness:
  "\<exists>v' w'. delete_items demo_lib demo_env [[97]] demo_filled demo_disk2 = (Inr (), v', w') \<and> items v' = Inr []"
proof -
  have "\<exists>v' w'. delete_items demo_lib demo_env [[97]] demo_filled demo_disk2 = (Inr (), v', w')"
    using demo_edit_works [OF _ _ demo_tidy2, of "[]"]
    by (simp add: delete_items_def demo_filled_facts demo_item_def)
  with delete_items_exact [OF demo_lib_correct demo_filled_ok2 demo_filled_facts(1), of demo_env "[[97]]"]
  show ?thesis by (auto simp: demo_item_def)
qed

text \<open>
  C7: An import appends the whole batch in order, or changes nothing: on success
  the old items are followed by one item per imported one with its label,
  attributes, secret, content type and times, and every imported item was within
  the caps.
\<close>

theorem import_items_exact:
  assumes "lib_correct D" "vault_ok D v w" "v_state v = Unlocked k its"
    and "import_items D E batch v w = (Inr (), v', w')"
  shows "\<exists>ids. length ids = length batch \<and> items v' = Inr (its @ imported batch ids)
    \<and> (\<forall>x\<in>set batch. within_caps (im_label x) (im_attributes x) (length (im_secret x)) (im_content_type x))"
proof (cases "batch = []")
  case True
  with assms(3,4) show ?thesis by (auto simp: import_items_def items_def imported_def)
next
  case False
  from import_items_contract [OF assms(1,2) False, of E] show ?thesis
    unfolding assms(4) using assms(3) by (auto simp: items_def)
qed

definition demo_import :: import_item where
  "demo_import = \<lparr>im_label = lit ''c'', im_attributes = [], im_secret = [5], im_content_type = lit ''t'',
     im_created = 1, im_modified = 2\<rparr>"

theorem import_items_exact_witness:
  "\<exists>v' w' ids. import_items demo_lib demo_env [demo_import] demo_filled demo_disk2 = (Inr (), v', w')
     \<and> length ids = 1 \<and> items v' = Inr ([demo_item] @ imported [demo_import] ids)"
proof -
  have "check_import_items 0 [demo_import] = Inr ()"
    by (simp add: check_import_item_def demo_import_def check_caps_None_iff within_caps_def lit_def str_len_def
        as_bytes_def encode_utf8_def MAX_ITEM_LABEL_def MAX_ITEM_SECRET_def MAX_ITEM_CONTENT_TYPE_def
        split: option.split)
  moreover have "\<exists>v' w'. save_or_restore demo_lib demo_env (Suc 0) truncate_items
      (demo_filled\<lparr>v_state := Unlocked demo_the_key ([demo_item] @ imported [demo_import] [[97]])\<rparr>)
      (next_tick demo_disk2) = (Inr (), v', w')"
    by (rule demo_edit_works) (simp_all add: demo_tidy2 imported_def demo_import_def demo_item_def small_item_def
        lit_def demo_short demo_attrs_def)
  ultimately have "\<exists>v' w'. import_items demo_lib demo_env [demo_import] demo_filled demo_disk2 = (Inr (), v', w')"
    by (simp add: import_items_def demo_filled_facts uuid_v4_def imported_def)
  with import_items_exact [OF demo_lib_correct demo_filled_ok2 demo_filled_facts(1), of demo_env "[demo_import]"]
  show ?thesis by fastforce
qed

section \<open>Passwords\<close>

text \<open>
  C8: After a successful password change the file on disk opens with the new
  password: reopening it and unlocking with the new password gives exactly the
  items the old password opened, and the vault in memory is as locked as it was.
\<close>

theorem change_password_reopens:
  assumes "lib_correct D" "vault_ok D v w" "\<forall>t. fault E' t = None"
    and "change_password D E old new kdf v w = (Inr (), v', w')"
  shows "is_locked v' = is_locked v \<and> (\<exists>k its v2 w2 v3 w3.
     derive_key D old (h_salt (v_header v)) (h_kdf (v_header v)) = Inr k \<and> unseals D v k its
     \<and> open_vault D E' (v_path v) w' = (Inr v2, w2) \<and> unlock D E' new v2 w2 = (Inr (), v3, w3)
     \<and> items v3 = Inr its)"
proof -
  note cp = change_password_ok [OF assms(1,2,4)]
  obtain k k' its where k: "derive_key D old (h_salt (v_header v)) (h_kdf (v_header v)) = Inr k" "unseals D v k its"
    and k': "derive_key D new (h_salt (v_header v')) (h_kdf (v_header v')) = Inr k'" "unseals D v' k' its"
    and nr: "\<not> retired v'"
    using cp(5) by auto
  have op: "open_vault D E' (v_path v') w' = (Inr (reopened v'), next_tick (next_tick w'))"
    using open_vault_reopens [OF cp(1) nr] assms(3) by simp
  note o = open_vault_Inr [OF op vault_okD(4) [OF cp(1)]]
  have u: "unseals D (reopened v') k' its" using k'(2) by simp
  obtain v3 w3 where ul: "unlock_with_key D E' k' (reopened v') (next_tick (next_tick w')) = (Inr (), v3, w3)"
    using unlock_with_key_succeeds [OF o(4,2) u, of E' "next_tick (next_tick w')"] by (metis prod.collapse)
  obtain its3 where "v_state v3 = Unlocked k' its3" "unseals D (reopened v') k' its3"
    using unlock_with_key_ok(3) [OF assms(1) o(1) ul] by blast
  then have "items v3 = Inr its" using unseals_det [OF u] by (simp add: items_def)
  moreover have "unlock D E' new (reopened v') (next_tick (next_tick w')) = (Inr (), v3, w3)"
    using ul k'(1) by (simp add: unlock_def reopened_def)
  ultimately show ?thesis using cp(2,3) k op by auto
qed

definition demo_env_const :: "byte \<Rightarrow> env" where
  "demo_env_const b = demo_env\<lparr>rng := (\<lambda>_. Some (\<lambda>_. b))\<rparr>"

theorem change_password_reopens_witness:
  "\<exists>b v' w' v2 w2 v3 w3. change_password demo_lib (demo_env_const b) [1, 2] [9] demo_kdf demo_filled demo_disk2
       = (Inr (), v', w')
     \<and> open_vault demo_lib demo_env demo_path w' = (Inr v2, w2)
     \<and> unlock demo_lib demo_env [9] v2 w2 = (Inr (), v3, w3) \<and> items v3 = Inr [demo_item]"
proof -
  have w: "working (demo_env_const b)" for b by (simp add: working_def demo_env_const_def demo_env_def)
  have dk: "derive_key demo_lib [1, 2] (h_salt (v_header demo_filled)) (h_kdf (v_header demo_filled))
      = Inr demo_the_key"
    using demo_created(5,6) demo_unlocked by (auto simp: demo_filled_facts)
  obtain b where b: "replicate SALT_LEN b \<noteq> h_salt (v_header demo_filled)"
  proof (cases "h_salt (v_header demo_filled) = replicate SALT_LEN 0")
    case True
    then show ?thesis by (intro that [of 1]) (simp add: SALT_LEN_def)
  qed (metis that)
  have rb: "s = replicate SALT_LEN b" if "try_random_bytes (demo_env_const b) SALT_LEN w = (Inr s, x)" for s w x
    using that by (auto simp: try_random_bytes_def demo_env_const_def map_replicate_const)
  have f: "fits demo_lib (demo_filled\<lparr>v_header := (v_header demo_filled)\<lparr>h_salt := s, h_kdf := demo_kdf,
      h_index_salt := s'\<rparr>\<rparr>) k [demo_item]"
    if "length s = SALT_LEN" "length s' = SALT_LEN" for s s' k
    using that demo_filled_facts(4) vault_okD(5) [OF demo_filled_ok2]
    by (auto intro!: demo_fits simp: SALT_LEN_def lit_def demo_short small_item_def demo_item_def demo_attrs_def)
  have "\<exists>v' w'. change_password demo_lib (demo_env_const b) [1, 2] [9] demo_kdf demo_filled demo_disk2 = (Inr (), v', w')"
    using demo_tidy2 demo_filled_facts(1-3) dk demo_derive_key b rb f
    by (intro change_password_works [OF w]) auto
  then obtain v' w' where c: "change_password demo_lib (demo_env_const b) [1, 2] [9] demo_kdf demo_filled demo_disk2
      = (Inr (), v', w')" by blast
  have u: "unseals demo_lib demo_filled demo_the_key [demo_item]"
    by (rule vault_okD(6) [OF demo_filled_ok2 demo_filled_facts(1)])
  have "\<forall>t. fault demo_env t = None" by simp
  from change_password_reopens [OF demo_lib_correct demo_filled_ok2 this c] dk demo_filled_facts(2)
  show ?thesis using c unseals_det [OF u] by fastforce
qed

text \<open>
  C9: A password change that fails loses nothing: the key that opened the vault
  still opens it to the same items, the vault is as locked as before, and a vault
  that was unlocked is untouched in memory.
\<close>

theorem change_key_failure_safe:
  assumes "lib_correct D" "vault_ok D v w"
    and "change_key D E old_key new_salt new_kdf new_key v w = (Inl e, v', w')"
  shows "vault_ok D v' w' \<and> is_locked v' = is_locked v \<and> (\<not> is_locked v \<longrightarrow> v' = v)
    \<and> (\<forall>its. unseals D v old_key its \<longrightarrow> unseals D v' old_key its)"
  using change_key_ok [OF assms(1,2), of old_key new_salt new_kdf new_key E] unfolding assms(3)
  by (simp add: key_changed_def)

theorem change_key_failure_safe_witness:
  "\<exists>w'. change_key demo_lib demo_env [0] (h_salt (v_header demo_filled)) demo_kdf [9] demo_filled demo_disk2
     = (Inl SaltReused, demo_filled, w') \<and> unseals demo_lib demo_filled demo_the_key [demo_item]
     \<and> vault_ok demo_lib demo_filled w'"
proof -
  have "validate demo_kdf = Inr ()" by (simp add: validate_Inr_iff demo_kdf_def)
  then have c: "change_key demo_lib demo_env [0] (h_salt (v_header demo_filled)) demo_kdf [9] demo_filled demo_disk2
      = (Inl SaltReused, demo_filled, demo_disk2)" by (simp add: change_key_def)
  show ?thesis
    using change_key_failure_safe [OF demo_lib_correct demo_filled_ok2 c] c
      vault_okD(6) [OF demo_filled_ok2 demo_filled_facts(1)] by blast
qed

section \<open>Creating\<close>

text \<open>
  C10: A new vault never overwrites anything: whatever file with content is at its
  path stays byte for byte, and creating is refused, even when the rename
  without replacement is not available and the reservation fallback runs.
\<close>

theorem create_never_overwrites:
  assumes "content w p = Some b" "b \<noteq> []"
  shows "\<exists>e w'. create D E p label password kdf w = (Inl e, w') \<and> content w' p = Some b"
proof -
  obtain r w' where c: "create D E p label password kdf w = (r, w')" by fastforce
  from create_existing [OF assms c] c show ?thesis by auto
qed

theorem create_never_overwrites_witness:
  "\<exists>e w'. create demo_lib demo_env demo_path (lit ''z'') [7] demo_kdf demo_disk = (Inl e, w')
     \<and> content w' demo_path = Some (on_disk demo_vault)"
proof (rule create_never_overwrites)
  show "content demo_disk demo_path = Some (on_disk demo_vault)" by (simp add: content_def demo_disk_def)
  show "on_disk demo_vault \<noteq> []" by (rule vault_okD(1) [OF demo_vault_ok])
qed

section \<open>Searching a locked vault\<close>

lemma save_index:
  assumes "save D E v w = (Inr u, v', w')"
  shows "\<exists>k its. v_state v' = Unlocked k its
    \<and> h_index (v_header v') = build_index D (h_index_salt (v_header v')) its (index_attributes v')"
proof -
  from save_with_header [OF assms [unfolded save_def]] obtain k its t nonce where st: "v_state v = Unlocked k its"
    and h: "v_header v' = saved_header D v its t nonce"
    and v': "v' = v\<lparr>v_header := v_header v', v_aad := v_aad v', v_ciphertext := v_ciphertext v'\<rparr>" by blast
  have "v_state v' = Unlocked k its" using arg_cong [OF v', of v_state] st by simp
  then show ?thesis using save_header(7) [OF assms] by (simp add: h saved_header_def)
qed

lemma search_ids_index:
  assumes "h_index (v_header v) = build_index D (h_index_salt (v_header v)) its True"
    and "\<forall>i\<in>set its. btree (it_attributes i) \<and> no_collision D (h_index_salt (v_header v)) query i"
  shows "search_ids D v query = map it_id (filter (item_matches query) its)"
proof -
  let ?s = "h_index_salt (v_header v)"
  have m: "matches_hashes (index_entry_of D ?s True i) (hash_query D ?s query) = item_matches query i"
    if "i \<in> set its" for i
    using entry_matches_item [of i D ?s query] assms(2) that by (simp add: entry_matches_def)
  have ids: "ie_id (index_entry_of D ?s True i) = it_id i" for i by (simp add: index_entry_of_def)
  have full: "map ie_id (filter (\<lambda>e. matches_hashes e (hash_query D ?s query)) (h_index (v_header v)))
      = map it_id (filter (item_matches query) its)"
    using m by (simp add: assms(1) build_index_def filter_map o_def ids cong: filter_cong)
  have "filter (item_matches query) its = []" if "query \<noteq> []" "\<not> index_has_attributes v"
  proof -
    have none: "attr_hashes (index_entry_of D ?s True i) = []" if "i \<in> set its" for i
      using \<open>\<not> index_has_attributes v\<close> that
      by (auto simp: index_has_attributes_def assms(1) build_index_def list_ex_iff)
    have "it_attributes i = []" if "i \<in> set its" for i
      using arg_cong [OF none [OF that], of length]
      by (simp add: index_entry_of_def)
    then show ?thesis using that(1)
      by (cases query) (simp_all add: filter_empty_conv item_matches_def case_prod_beta)
  qed
  with full show ?thesis by (simp add: search_ids_def Let_def)
qed

text \<open>
  C11: Locking a vault does not change what a search finds. After any successful
  save with attribute indexing on, the hashed index in the header answers a query
  with exactly the ids of the items an unlocked search returns, in the same
  order, provided no digest of a query pair collides with that of a different
  attribute pair.
\<close>

theorem locked_search_agrees:
  assumes "save D E v w = (Inr u, v', w')" "index_attributes v" "items v' = Inr its"
    and "\<forall>i\<in>set its. btree (it_attributes i) \<and> no_collision D (h_index_salt (v_header v')) query i"
  shows "search v' query = Inr (filter (item_matches query) its)
    \<and> search_ids D (lock v') query = map it_id (filter (item_matches query) its)"
proof -
  obtain k its' where i: "v_state v' = Unlocked k its'"
    "h_index (v_header v') = build_index D (h_index_salt (v_header v')) its' (index_attributes v')"
    using save_index [OF assms(1)] by blast
  with assms(3) have its: "its' = its" by (simp add: items_def)
  have "index_attributes v' = True" using save_header(7) [OF assms(1)] assms(2) by simp
  with i its have "search_ids D v' query = map it_id (filter (item_matches query) its)"
    using assms(4) by (intro search_ids_index) simp_all
  moreover have "search_ids D (lock v') query = search_ids D v' query"
    by (simp add: search_ids_def index_has_attributes_def lock_def)
  ultimately show ?thesis using assms(3) by (simp add: search_def)
qed

lemma demo_index_attributes: "index_attributes demo_vault"
proof -
  obtain v0 w1 w2 where b: "build demo_lib demo_env demo_path (lit ''a'') [1, 2] demo_kdf w1 = (Inr v0, w2)"
    and s: "save_with demo_lib demo_env (publish_new demo_env) v0 w2 = (Inr (), demo_vault, demo_world)"
    using demo_create_Inr by (auto simp: create_def Let_def split: prod.splits sum.splits)
  have "index_attributes v0"
    using b by (auto simp: build_def Let_def split: prod.splits sum.splits)
  moreover have "demo_vault = v0\<lparr>v_header := v_header demo_vault, v_aad := v_aad demo_vault,
      v_ciphertext := v_ciphertext demo_vault\<rparr>" using save_with_header [OF s] by blast
  from arg_cong [OF this, of index_attributes] have "index_attributes demo_vault = index_attributes v0" by simp
  ultimately show ?thesis by simp
qed

theorem locked_search_agrees_witness:
  "search demo_filled demo_attrs = Inr [demo_item]
   \<and> search_ids demo_lib (lock demo_filled) demo_attrs = [[97]]"
proof -
  obtain w1 where s: "save demo_lib demo_env (demo_vault\<lparr>v_state := Unlocked demo_the_key [demo_item]\<rparr>) w1
      = (Inr (), demo_filled, demo_after)" using demo_inserted by (auto dest: save_or_restore_Inr)
  have it: "items demo_filled = Inr [demo_item]" by (simp add: items_def demo_filled_facts)
  have "btree (it_attributes demo_item) \<and> no_collision demo_lib salt demo_attrs demo_item" for salt
    by (simp add: btree_def no_collision_def demo_item_def demo_attrs_def)
  then have "\<forall>i\<in>set [demo_item]. btree (it_attributes i)
      \<and> no_collision demo_lib (h_index_salt (v_header demo_filled)) demo_attrs i" by simp
  from locked_search_agrees [OF s _ it this] demo_index_attributes show ?thesis
    by (simp add: item_matches_def demo_item_def demo_attrs_def)
qed

section \<open>Deleting\<close>



text \<open>
  C13: Deleting a vault twice brings it back to life. When a second confirmed
  delete runs on a vault the first one has already removed (both prompts took
  their reference before), its unlink fails because the file is gone, and undoing
  "its" retirement clears the mark the first delete relies on: the vault is not
  retired although its file no longer exists, so a later edit may write it again.
\<close>

theorem second_delete_unretires:
  assumes "\<not> is_locked v" "\<forall>t. fault E t = None" "content w (v_path v) = Some b"
  shows "\<exists>ids v1 w1 v2 w2. remove_vault E v w = (Some ids, v1, w1) \<and> retired v1
     \<and> remove_vault E v1 w1 = (None, v2, w2) \<and> \<not> retired v2 \<and> \<not> is_locked v2 \<and> content w2 (v_path v2) = None"
proof -
  have "map_of (fs w) (v_path v) \<noteq> None" using assms(3) by (auto simp: content_def)
  then show ?thesis
    using assms(1,2)
    by (simp add: remove_vault_def retire_def unretire_def is_locked_def Let_def sys_unlink_def delete_conv'
        set_fs_def next_tick_def content_def)
qed

theorem second_delete_unretires_witness:
  "\<exists>ids v1 w1 v2 w2. remove_vault demo_env demo_filled demo_disk2 = (Some ids, v1, w1) \<and> retired v1
     \<and> remove_vault demo_env v1 w1 = (None, v2, w2) \<and> \<not> retired v2 \<and> \<not> is_locked v2
     \<and> content w2 (v_path v2) = None"
  by (rule second_delete_unretires) (simp_all add: is_locked_def demo_filled_facts content_def demo_disk2_def)

end
