(* ===== verification/Protocol.thy ===== *)
theory Protocol
  imports Vault_Format
begin

text \<open>
  The control socket protocol (\<open>src/protocol.rs\<close>): messages, frames, and the
  blocking call with its overall deadline. The postcard codec is a parameter
  (\<open>msg_codec\<close>). A socket is modelled by what the other side does: a list of
  read events and of write events, each with the time it takes, and an oracle
  for connection attempts and polls. Time is in nanoseconds.
\<close>

section \<open>Messages\<close>

datatype request =
    ReqLock "ustr option"
  | ReqStatus
  | ReqReload
  | UnlockWithKey ustr key bool
  | ChangeKey ustr key bytes kdf_params key

record collection_status =
  cs_id :: ustr
  cs_label :: ustr
  cs_locked :: bool
  cs_items :: nat
  cs_warning :: "ustr option"

datatype response =
    ROk
  | RStatus "collection_status list" nat "ustr option"
  | RError ustr

definition REQUEST_VARIANTS :: "ustr list" where
  "REQUEST_VARIANTS = [lit ''Lock'', lit ''Status'', lit ''Reload'', lit ''UnlockWithKey'', lit ''ChangeKey'']"

fun request_variant_name :: "request \<Rightarrow> ustr" where
  "request_variant_name (ReqLock _) = REQUEST_VARIANTS ! 0"
| "request_variant_name ReqStatus = REQUEST_VARIANTS ! 1"
| "request_variant_name ReqReload = REQUEST_VARIANTS ! 2"
| "request_variant_name (UnlockWithKey _ _ _) = REQUEST_VARIANTS ! 3"
| "request_variant_name (ChangeKey _ _ _ _ _) = REQUEST_VARIANTS ! 4"

fun response_variant_name :: "response \<Rightarrow> ustr" where
  "response_variant_name ROk = lit ''Ok''"
| "response_variant_name (RStatus _ _ _) = lit ''Status''"
| "response_variant_name (RError _) = lit ''Error''"

text \<open>What \<open>Debug\<close> shows of a request: its fields, with every secret one redacted.\<close>

datatype shown = ShownStr ustr | ShownOpt "ustr option" | ShownBool bool | ShownKdf kdf_params | Redacted

fun request_debug :: "request \<Rightarrow> ustr \<times> (ustr \<times> shown) list" where
  "request_debug (ReqLock c) = (lit ''Lock'', [(lit ''collection'', ShownOpt c)])"
| "request_debug ReqStatus = (lit ''Status'', [])"
| "request_debug ReqReload = (lit ''Reload'', [])"
| "request_debug (UnlockWithKey c k pin) =
     (lit ''UnlockWithKey'',
      [(lit ''collection'', ShownStr c), (lit ''key'', Redacted), (lit ''pin'', ShownBool pin)])"
| "request_debug (ChangeKey c old salt kdf new) =
     (lit ''ChangeKey'',
      [(lit ''collection'', ShownStr c), (lit ''old_key'', Redacted), (lit ''new_salt'', Redacted),
       (lit ''new_kdf'', ShownKdf kdf), (lit ''new_key'', Redacted)])"

datatype io_kind =
    WouldBlock | TimedOut | Interrupted | UnexpectedEof | WriteZero | InvalidInputKind | OtherKind nat

datatype protocol_error =
    ConnectErr io_kind
  | Io io_kind
  | FrameTooLarge nat
  | EncodingErr pc_error
  | NoRuntimeDir
  | UnsupportedProtocol byte
  | TrailingBytes nat
  | UntrustedPeer nat nat

section \<open>Frames\<close>

definition MAX_FRAME :: nat where "MAX_FRAME = 1048576"
definition PROTOCOL_VERSION :: byte where "PROTOCOL_VERSION = 5"
definition SCRATCH :: nat where "SCRATCH = 8192"

text \<open>The codec: \<open>postcard::to_slice\<close> into a buffer of the given size, and \<open>take_from_bytes\<close>.\<close>

record 'a msg_codec =
  to_slice :: "'a \<Rightarrow> nat \<Rightarrow> pc_error + bytes"
  take_msg :: "bytes \<Rightarrow> pc_error + ('a \<times> bytes)"

definition msg_codec_ok :: "'a msg_codec \<Rightarrow> bool" where
  "msg_codec_ok c \<longleftrightarrow> (\<forall>x n bs. to_slice c x n = Inr bs \<longrightarrow>
     length bs \<le> n \<and> (\<forall>rest. take_msg c (bs @ rest) = Inr (x, rest)))"

definition finish_frame :: "bytes \<Rightarrow> protocol_error + bytes" where
  "finish_frame body =
     (let framed_len = length body + 1
      in if framed_len > MAX_FRAME then Inl (FrameTooLarge framed_len)
         else Inr (to_be_bytes (word_of_nat framed_len) @ PROTOCOL_VERSION # body))"

definition encode_frame :: "'a msg_codec \<Rightarrow> 'a \<Rightarrow> protocol_error + bytes" where
  "encode_frame c msg =
     (case to_slice c msg SCRATCH of
        Inr body \<Rightarrow> finish_frame body
      | Inl e \<Rightarrow>
          if e = SerializeBufferFull
          then (case to_slice c msg (MAX_FRAME + 1) of
                  Inr body \<Rightarrow> finish_frame body
                | Inl e' \<Rightarrow> if e' = SerializeBufferFull then Inl (FrameTooLarge (MAX_FRAME + 1))
                           else Inl (EncodingErr e'))
          else Inl (EncodingErr e))"

definition decode_frame :: "'a msg_codec \<Rightarrow> bytes \<Rightarrow> protocol_error + 'a" where
  "decode_frame c body =
     (case body of
        [] \<Rightarrow> Inl (EncodingErr DeserializeUnexpectedEnd)
      | version # rest \<Rightarrow>
          if version \<noteq> PROTOCOL_VERSION then Inl (UnsupportedProtocol version)
          else (case take_msg c rest of
                  Inl e \<Rightarrow> Inl (EncodingErr e)
                | Inr (value, rest') \<Rightarrow>
                    if rest' \<noteq> [] then Inl (TrailingBytes (length rest')) else Inr value))"

text \<open>\<open>read_frame_sync\<close> over any reader's \<open>read_exact\<close>.\<close>

definition read_frame_sync ::
  "(nat \<Rightarrow> 's \<Rightarrow> (io_kind + bytes) \<times> 's) \<Rightarrow> 's \<Rightarrow> (protocol_error + bytes) \<times> 's" where
  "read_frame_sync read_exact s =
     (case read_exact 4 s of
        (Inl e, s1) \<Rightarrow> (Inl (Io e), s1)
      | (Inr len_bytes, s1) \<Rightarrow>
          let len = unat (from_be_bytes len_bytes)
          in if len > MAX_FRAME then (Inl (FrameTooLarge len), s1)
             else (case read_exact len s1 of
                     (Inl e, s2) \<Rightarrow> (Inl (Io e), s2)
                   | (Inr body, s2) \<Rightarrow> (Inr body, s2)))"

text \<open>\<open>Read for &[u8]\<close>: \<open>read_exact\<close> on a slice.\<close>

definition slice_read_exact :: "nat \<Rightarrow> bytes \<Rightarrow> (io_kind + bytes) \<times> bytes" where
  "slice_read_exact n bs = (if n \<le> length bs then (Inr (take n bs), drop n bs) else (Inl UnexpectedEof, []))"

section \<open>Where the socket is\<close>

definition socket_path_for_runtime_dir :: "ustr list \<Rightarrow> ustr list" where
  "socket_path_for_runtime_dir runtime_dir = runtime_dir @ [lit ''secret-manager'', lit ''control.sock'']"

definition socket_path_from :: "(ustr \<Rightarrow> ustr list) \<Rightarrow> ustr option \<Rightarrow> protocol_error + ustr list" where
  "socket_path_from components runtime_dir =
     (case runtime_dir of
        Some v \<Rightarrow> if v \<noteq> [] then Inr (socket_path_for_runtime_dir (components v)) else Inl NoRuntimeDir
      | None \<Rightarrow> Inl NoRuntimeDir)"

definition SUN_PATH_LEN :: nat where "SUN_PATH_LEN = 108"

text \<open>\<open>unix_addr\<close>: the padded \<open>sun_path\<close> and the address length.\<close>

definition unix_addr :: "bytes \<Rightarrow> protocol_error + (bytes \<times> nat)" where
  "unix_addr path =
     (if path = [] then Inl (ConnectErr InvalidInputKind)
      else if length path \<ge> SUN_PATH_LEN then Inl (ConnectErr InvalidInputKind)
      else Inr (path @ replicate (SUN_PATH_LEN - length path) 0, 2 + length path + 1))"

section \<open>Deadlines\<close>

fun normalize_timeout :: "protocol_error \<Rightarrow> protocol_error" where
  "normalize_timeout (Io k) = (if k = WouldBlock \<or> k = TimedOut then Io TimedOut else Io k)"
| "normalize_timeout e = e"

definition CALL_TIMEOUT :: nat where "CALL_TIMEOUT = 5 * 1000000000"

record deadline =
  d_start :: nat
  d_budget :: nat

text \<open>\<open>checked_sub(elapsed)\<close> with zero filtered out.\<close>

definition time_left :: "nat \<Rightarrow> nat \<Rightarrow> nat \<Rightarrow> nat option" where
  "time_left start budget t = (if t - start < budget then Some (budget - (t - start)) else None)"

definition remaining :: "deadline \<Rightarrow> nat \<Rightarrow> protocol_error + nat" where
  "remaining d t = (case time_left (d_start d) (d_budget d) t of Some l \<Rightarrow> Inr l | None \<Rightarrow> Inl (Io TimedOut))"

definition remaining_io :: "deadline \<Rightarrow> nat \<Rightarrow> io_kind + nat" where
  "remaining_io d t = (case time_left (d_start d) (d_budget d) t of Some l \<Rightarrow> Inr l | None \<Rightarrow> Inl TimedOut)"

definition remaining_or_timeout :: "nat \<Rightarrow> nat \<Rightarrow> nat \<Rightarrow> protocol_error + nat" where
  "remaining_or_timeout start budget t =
     (case time_left start budget t of Some l \<Rightarrow> Inr l | None \<Rightarrow> Inl (ConnectErr TimedOut))"

section \<open>The socket\<close>

datatype rx_event = RxData bytes | RxEof | RxErr io_kind
datatype tx_event = TxAccept nat | TxErr io_kind
datatype conn_event = Connected | InProgress "io_kind option" | Again | ConnFail io_kind | NoSocket io_kind
datatype poll_event = PollReady nat | PollNothing | PollErr io_kind | PollIntr nat

record net =
  conn :: "nat \<Rightarrow> conn_event"
  poll :: "nat \<Rightarrow> poll_event"
  cred :: "io_kind + nat"

record sock =
  clk :: nat
  rx :: "(nat \<times> rx_event) list"
  tx :: "(nat \<times> tx_event) list"
  sent :: bytes

text \<open>
  \<open>TimedStream::read\<close>: arm \<open>SO_RCVTIMEO\<close> with what is left, then one \<open>read(2)\<close>. An
  event that takes longer than the armed timeout surfaces as \<open>WouldBlock\<close> when the
  timeout is over, and stays pending.
\<close>

definition timed_read :: "deadline \<Rightarrow> nat \<Rightarrow> sock \<Rightarrow> (io_kind + bytes) \<times> sock" where
  "timed_read d n s =
     (case remaining_io d (clk s) of
        Inl e \<Rightarrow> (Inl e, s)
      | Inr left \<Rightarrow>
          (case rx s of
             [] \<Rightarrow> (Inl WouldBlock, s\<lparr>clk := clk s + left\<rparr>)
           | (dt, ev) # evs \<Rightarrow>
               if dt \<ge> left then (Inl WouldBlock, s\<lparr>clk := clk s + left, rx := (dt - left, ev) # evs\<rparr>)
               else let s1 = s\<lparr>clk := clk s + dt, rx := evs\<rparr>
                    in case ev of
                         RxEof \<Rightarrow> (Inr [], s1\<lparr>rx := (0, RxEof) # evs\<rparr>)
                       | RxErr k \<Rightarrow> (Inl k, s1)
                       | RxData bs \<Rightarrow>
                           if n < length bs then (Inr (take n bs), s1\<lparr>rx := (0, RxData (drop n bs)) # evs\<rparr>)
                           else (Inr bs, s1)))"

definition timed_write :: "deadline \<Rightarrow> bytes \<Rightarrow> sock \<Rightarrow> (io_kind + nat) \<times> sock" where
  "timed_write d bs s =
     (case remaining_io d (clk s) of
        Inl e \<Rightarrow> (Inl e, s)
      | Inr left \<Rightarrow>
          (case tx s of
             [] \<Rightarrow> (Inl WouldBlock, s\<lparr>clk := clk s + left\<rparr>)
           | (dt, ev) # evs \<Rightarrow>
               if dt \<ge> left then (Inl WouldBlock, s\<lparr>clk := clk s + left, tx := (dt - left, ev) # evs\<rparr>)
               else let s1 = s\<lparr>clk := clk s + dt, tx := evs\<rparr>
                    in case ev of
                         TxErr k \<Rightarrow> (Inl k, s1)
                       | TxAccept k \<Rightarrow>
                           let m = min k (length bs) in (Inr m, s1\<lparr>sent := sent s1 @ take m bs\<rparr>)))"

text \<open>\<open>flush\<close> only re-arms the timeout.\<close>

definition timed_flush :: "deadline \<Rightarrow> sock \<Rightarrow> (io_kind + unit) \<times> sock" where
  "timed_flush d s = (case remaining_io d (clk s) of Inl e \<Rightarrow> (Inl e, s) | Inr _ \<Rightarrow> (Inr (), s))"

lemma timed_read_shrinks:
  assumes "timed_read d n s = (r, s')" "0 < n"
  shows "r = Inr bs \<Longrightarrow> bs \<noteq> [] \<Longrightarrow> n - length bs < n"
    and "r = Inl Interrupted \<Longrightarrow> length (rx s') < length (rx s)"
  using assms by (auto simp: timed_read_def remaining_io_def Let_def split: option.splits list.splits
      prod.splits rx_event.splits if_splits sum.splits)

lemma timed_write_shrinks:
  assumes "timed_write d bs s = (r, s')"
  shows "r = Inl Interrupted \<Longrightarrow> length (tx s') < length (tx s)"
  using assms by (auto simp: timed_write_def remaining_io_def Let_def split: option.splits list.splits
      prod.splits tx_event.splits if_splits sum.splits)

text \<open>The loops of the standard library: \<open>read_exact\<close> and \<open>write_all\<close> retry an interrupted call.\<close>

function read_exact :: "deadline \<Rightarrow> nat \<Rightarrow> sock \<Rightarrow> (io_kind + bytes) \<times> sock" where
  "read_exact d n s =
     (if n = 0 then (Inr [], s)
      else case timed_read d n s of
        (Inr bs, s1) \<Rightarrow>
          if bs = [] then (Inl UnexpectedEof, s1)
          else (case read_exact d (n - length bs) s1 of
                  (Inl e, s2) \<Rightarrow> (Inl e, s2)
                | (Inr more_bytes, s2) \<Rightarrow> (Inr (bs @ more_bytes), s2))
      | (Inl e, s1) \<Rightarrow> if e = Interrupted then read_exact d n s1 else (Inl e, s1))"
  by pat_completeness auto
termination
  by (relation "measures [\<lambda>(d, n, s). n, \<lambda>(d, n, s). length (rx s)]")
    (auto dest!: sym [where t = "timed_read _ _ _"] dest: timed_read_shrinks)

function write_all :: "deadline \<Rightarrow> bytes \<Rightarrow> sock \<Rightarrow> (io_kind + unit) \<times> sock" where
  "write_all d bs s =
     (if bs = [] then (Inr (), s)
      else case timed_write d bs s of
        (Inr n, s1) \<Rightarrow> if n = 0 then (Inl WriteZero, s1) else write_all d (drop n bs) s1
      | (Inl e, s1) \<Rightarrow> if e = Interrupted then write_all d bs s1 else (Inl e, s1))"
  by pat_completeness auto
termination
  by (relation "measures [\<lambda>(d, bs, s). length bs, \<lambda>(d, bs, s). length (tx s)]")
    (auto dest!: sym [where t = "timed_write _ _ _"] dest: timed_write_shrinks)

declare read_exact.simps [simp del] write_all.simps [simp del]

definition write_frame_sync :: "deadline \<Rightarrow> bytes \<Rightarrow> sock \<Rightarrow> (io_kind + unit) \<times> sock" where
  "write_frame_sync d frame s =
     (case write_all d frame s of
        (Inl e, s1) \<Rightarrow> (Inl e, s1)
      | (Inr _, s1) \<Rightarrow> timed_flush d s1)"

section \<open>Connecting\<close>

definition MILLI :: nat where "MILLI = 1000000"
definition RETRY_SLEEP :: nat where "RETRY_SLEEP = 20 * MILLI"

text \<open>
  \<open>wait_writable\<close>: poll with what is left in whole milliseconds (at least one).
  \<open>i\<close> counts the polls made.
\<close>

function wait_writable :: "net \<Rightarrow> nat \<Rightarrow> nat \<Rightarrow> nat \<Rightarrow> nat \<Rightarrow> (protocol_error + unit) \<times> nat \<times> nat" where
  "wait_writable N start budget i t =
     (case remaining_or_timeout start budget t of
        Inl e \<Rightarrow> (Inl e, i, t)
      | Inr left \<Rightarrow>
          let wait = max (left div MILLI) 1 * MILLI
          in case poll N i of
               PollReady d \<Rightarrow> (Inr (), Suc i, t + min d wait)
             | PollNothing \<Rightarrow> wait_writable N start budget (Suc i) (t + wait)
             | PollErr k \<Rightarrow> (Inl (ConnectErr k), Suc i, t)
             | PollIntr d \<Rightarrow> wait_writable N start budget (Suc i) (t + max 1 (min d wait)))"
  by pat_completeness auto
termination
  by (relation "measure (\<lambda>(N, start, budget, i, t). start + budget - t)")
    (auto simp: remaining_or_timeout_def time_left_def MILLI_def split: option.splits if_splits)

text \<open>
  The loop of \<open>connect_with_deadline\<close>. A non-blocking \<open>connect(2)\<close> takes no time; a full
  backlog is waited out in sleeps of at most 20 ms. \<open>i\<close> counts the attempts.
\<close>

function connect_loop :: "net \<Rightarrow> nat \<Rightarrow> nat \<Rightarrow> nat \<Rightarrow> nat \<Rightarrow> (protocol_error + unit) \<times> nat" where
  "connect_loop N start budget i t =
     (case conn N i of
        NoSocket k \<Rightarrow> (Inl (ConnectErr k), t)
      | Connected \<Rightarrow> (Inr (), t)
      | InProgress so_error \<Rightarrow>
          (case remaining_or_timeout start budget t of
             Inl e \<Rightarrow> (Inl e, t)
           | Inr left \<Rightarrow>
               (case wait_writable N t left 0 t of
                  (Inl e, _, t1) \<Rightarrow> (Inl e, t1)
                | (Inr _, _, t1) \<Rightarrow>
                    (case so_error of Some k \<Rightarrow> (Inl (ConnectErr k), t1) | None \<Rightarrow> (Inr (), t1))))
      | Again \<Rightarrow>
          (case remaining_or_timeout start budget t of
             Inl e \<Rightarrow> (Inl e, t)
           | Inr left \<Rightarrow> connect_loop N start budget (Suc i) (t + min left RETRY_SLEEP))
      | ConnFail k \<Rightarrow> (Inl (ConnectErr k), t))"
  by pat_completeness auto
termination
  by (relation "measure (\<lambda>(N, start, budget, i, t). start + budget - t)")
    (auto simp: remaining_or_timeout_def time_left_def RETRY_SLEEP_def MILLI_def split: option.splits if_splits)

declare wait_writable.simps [simp del] connect_loop.simps [simp del]

definition connect_with_deadline :: "net \<Rightarrow> bytes \<Rightarrow> nat \<Rightarrow> sock \<Rightarrow> (protocol_error + unit) \<times> sock" where
  "connect_with_deadline N path budget s =
     (case unix_addr path of
        Inl e \<Rightarrow> (Inl e, s)
      | Inr _ \<Rightarrow> (case connect_loop N (clk s) budget 0 (clk s) of (r, t) \<Rightarrow> (r, s\<lparr>clk := t\<rparr>)))"

section \<open>The call\<close>

definition call_inner ::
  "request msg_codec \<Rightarrow> response msg_codec \<Rightarrow> net \<Rightarrow> bytes \<Rightarrow> request \<Rightarrow> nat \<Rightarrow> nat \<Rightarrow> sock
   \<Rightarrow> (protocol_error + response) \<times> sock" where
  "call_inner Q R N path req uid timeout s =
     (let d = \<lparr>d_start = clk s, d_budget = timeout\<rparr>
      in case remaining d (clk s) of
           Inl e \<Rightarrow> (Inl e, s)
         | Inr left \<Rightarrow>
             (case connect_with_deadline N path left s of
                (Inl e, s1) \<Rightarrow> (Inl e, s1)
              | (Inr _, s1) \<Rightarrow>
                  (case cred N of
                     Inl k \<Rightarrow> (Inl (Io k), s1)
                   | Inr actual \<Rightarrow>
                       if actual \<noteq> uid then (Inl (UntrustedPeer uid actual), s1)
                       else (case encode_frame Q req of
                               Inl e \<Rightarrow> (Inl e, s1)
                             | Inr frame \<Rightarrow>
                                 (case write_frame_sync d frame s1 of
                                    (Inl k, s2) \<Rightarrow> (Inl (normalize_timeout (Io k)), s2)
                                  | (Inr _, s2) \<Rightarrow>
                                      (case read_frame_sync (read_exact d) s2 of
                                         (Inl e, s3) \<Rightarrow> (Inl (normalize_timeout e), s3)
                                       | (Inr body, s3) \<Rightarrow> (decode_frame R body, s3)))))))"

definition call ::
  "request msg_codec \<Rightarrow> response msg_codec \<Rightarrow> net \<Rightarrow> nat \<Rightarrow> bytes \<Rightarrow> request \<Rightarrow> sock
   \<Rightarrow> (protocol_error + response) \<times> sock" where
  "call Q R N euid path req s = call_inner Q R N path req euid CALL_TIMEOUT s"

definition call_expecting_uid ::
  "request msg_codec \<Rightarrow> response msg_codec \<Rightarrow> net \<Rightarrow> bytes \<Rightarrow> request \<Rightarrow> nat \<Rightarrow> sock
   \<Rightarrow> (protocol_error + response) \<times> sock" where
  "call_expecting_uid Q R N path req uid s = call_inner Q R N path req uid CALL_TIMEOUT s"

end
