(* ===== verification/Protocol_Properties.thy ===== *)
theory Protocol_Properties
  imports Protocol Wire_Instance
begin

text \<open>
  What the control protocol guarantees: frames round-trip through any reader, a
  call never outlives its deadline whatever the peer does, and a request reaches
  no process of another user.
\<close>

section \<open>Frames\<close>

lemma finish_frame_Inr:
  assumes "finish_frame body = Inr frame"
  shows "frame = to_be_bytes (word_of_nat (Suc (length body))) @ PROTOCOL_VERSION # body"
    "Suc (length body) \<le> MAX_FRAME" "unat (from_be_bytes (take 4 frame)) = Suc (length body)"
proof -
  show f: "frame = to_be_bytes (word_of_nat (Suc (length body))) @ PROTOCOL_VERSION # body"
    and len: "Suc (length body) \<le> MAX_FRAME"
    using assms by (auto simp: finish_frame_def Let_def split: if_splits)
  have "unat (word_of_nat (Suc (length body)) :: u32) = Suc (length body)"
    using len by (subst unat_of_nat) (simp add: MAX_FRAME_def)
  then show "unat (from_be_bytes (take 4 frame)) = Suc (length body)" by (simp add: f del: of_nat_Suc)
qed

lemma encode_frame_Inr:
  assumes "encode_frame c m = Inr frame" "msg_codec_ok c"
  obtains body where "finish_frame body = Inr frame" "\<And>rest. take_msg c (body @ rest) = Inr (m, rest)"
proof -
  obtain n body where "to_slice c m n = Inr body" "finish_frame body = Inr frame"
    using assms(1) by (auto simp: encode_frame_def split: sum.splits if_splits)
  with assms(2) that show thesis by (auto simp: msg_codec_ok_def)
qed

lemma encode_frame_bound: "encode_frame c m = Inr frame \<Longrightarrow> length frame \<le> 4 + MAX_FRAME"
  by (auto simp: encode_frame_def finish_frame_def Let_def split: sum.splits if_splits)

lemma decode_body:
  assumes "\<And>rest. take_msg c (body @ rest) = Inr (m, rest)"
  shows "decode_frame c (PROTOCOL_VERSION # body) = Inr m"
proof -
  have "take_msg c body = Inr (m, [])" using assms [of "[]"] by simp
  then show ?thesis by (simp add: decode_frame_def)
qed

text \<open>
  The interface of a reader: \<open>read_exact\<close> takes the next bytes of what is pending.
\<close>

locale byte_source =
  fixes rd :: "nat \<Rightarrow> 's \<Rightarrow> (io_kind + bytes) \<times> 's"
    and pending :: "'s \<Rightarrow> bytes"
  assumes rd_ok: "rd n s = (Inr bs, s') \<Longrightarrow> length bs = n \<and> pending s = bs @ pending s'"
begin

lemma read_frame_ok:
  assumes "read_frame_sync rd s = (Inr body, s')"
  shows "\<exists>h. length h = 4 \<and> pending s = h @ body @ pending s' \<and> length body = unat (from_be_bytes h)
    \<and> length body \<le> MAX_FRAME"
proof -
  obtain h s1 where h: "rd 4 s = (Inr h, s1)"
    using assms by (auto simp: read_frame_sync_def split: prod.splits sum.splits)
  then have b: "rd (unat (from_be_bytes h)) s1 = (Inr body, s')" "unat (from_be_bytes h) \<le> MAX_FRAME"
    using assms by (auto simp: read_frame_sync_def Let_def split: prod.splits sum.splits if_splits)
  from rd_ok [OF h] rd_ok [OF b(1)] b(2) show ?thesis by auto
qed

text \<open>Whatever the reader's chunking, the frame of a message is read back as that message.\<close>

lemma read_frame_encoded:
  assumes "read_frame_sync rd s = (Inr body, s')" "pending s = frame @ rest"
    and "encode_frame c m = Inr frame" "msg_codec_ok c"
  shows "decode_frame c body = Inr m \<and> pending s' = rest"
proof -
  obtain b where fin: "finish_frame b = Inr frame" and tk: "\<And>r. take_msg c (b @ r) = Inr (m, r)"
    using encode_frame_Inr [OF assms(3,4)] by blast
  note fin = finish_frame_Inr [OF fin]
  obtain h where h: "length h = 4" "pending s = h @ body @ pending s'" "length body = unat (from_be_bytes h)"
    using read_frame_ok [OF assms(1)] by blast
  have hd: "h = take 4 frame" using h(1,2) assms(2) fin(1)
    by (metis append.assoc append_eq_append_conv length_to_be_bytes append_eq_conv_conj)
  then have "length body = Suc (length b)" using h(3) fin(3) by simp
  moreover have "body @ pending s' = (PROTOCOL_VERSION # b) @ rest"
    using h(2) assms(2) hd fin(1) by simp
  ultimately have "body = PROTOCOL_VERSION # b" "pending s' = rest"
    by (metis append_eq_append_conv length_Cons)+
  with decode_body [of c b m] tk show ?thesis by simp
qed

end

interpretation slice: byte_source slice_read_exact "\<lambda>bs. bs"
  by unfold_locales (auto simp: slice_read_exact_def split: if_splits)

section \<open>The socket as a reader\<close>

fun rx_bytes :: "(nat \<times> rx_event) list \<Rightarrow> bytes" where
  "rx_bytes [] = []"
| "rx_bytes ((_, RxData bs) # evs) = bs @ rx_bytes evs"
| "rx_bytes (_ # evs) = rx_bytes evs"

lemma timed_read_pending:
  assumes "timed_read d n s = (r, s')"
  shows "(case r of Inr bs \<Rightarrow> length bs \<le> n \<and> rx_bytes (rx s) = bs @ rx_bytes (rx s')
      | Inl _ \<Rightarrow> rx_bytes (rx s') = rx_bytes (rx s)) \<and> sent s' = sent s
    \<and> clk s' \<le> max (clk s) (d_start d + d_budget d) \<and> clk s \<le> clk s'"
proof (cases "remaining_io d (clk s)")
  case (Inl e)
  with assms show ?thesis by (auto simp: timed_read_def)
next
  case (Inr left)
  then have l: "clk s + left \<le> max (clk s) (d_start d + d_budget d)"
    by (auto simp: remaining_io_def time_left_def split: option.splits if_splits)
  show ?thesis
  proof (cases "rx s")
    case Nil
    with assms Inr l show ?thesis by (auto simp: timed_read_def)
  next
    case (Cons e evs)
    obtain dt ev where e: "e = (dt, ev)" by fastforce
    show ?thesis
    proof (cases "dt \<ge> left")
      case True
      have "rx_bytes ((dt - left, ev) # evs) = rx_bytes ((dt, ev) # evs)" by (cases ev) simp_all
      with assms Inr l Cons e True show ?thesis by (auto simp: timed_read_def)
    next
      case False
      with assms Inr l Cons e show ?thesis
        by (cases ev) (auto simp: timed_read_def Let_def split: if_splits)
    qed
  qed
qed

lemma read_exact_pending:
  "read_exact d n s = (r, s') \<Longrightarrow>
     (case r of Inr bs \<Rightarrow> length bs = n \<and> rx_bytes (rx s) = bs @ rx_bytes (rx s') | Inl _ \<Rightarrow> True)
     \<and> sent s' = sent s \<and> clk s' \<le> max (clk s) (d_start d + d_budget d)"
proof (induction d n s arbitrary: r s' rule: read_exact.induct)
  case (1 d n s)
  obtain r1 s1 where t: "timed_read d n s = (r1, s1)" by fastforce
  note tp = timed_read_pending [OF t]
  show ?case
  proof (cases "n = 0")
    case True
    with 1(3) show ?thesis by (auto simp: read_exact.simps)
  next
    case n: False
    show ?thesis
    proof (cases r1)
      case (Inl e)
      show ?thesis
      proof (cases "e = Interrupted")
        case True
        with 1(3) n t Inl have "read_exact d n s1 = (r, s')" by (simp add: read_exact.simps [of d n s])
        from 1(1) [OF n t [symmetric] Inl True this] tp Inl show ?thesis by (auto split: sum.splits)
      next
        case False
        with 1(3) n t Inl tp show ?thesis by (auto simp: read_exact.simps [of d n s])
      qed
    next
      case (Inr bs)
      show ?thesis
      proof (cases "bs = []")
        case True
        with 1(3) n t Inr tp show ?thesis by (auto simp: read_exact.simps [of d n s])
      next
        case False
        obtain r2 s2 where r2: "read_exact d (n - length bs) s1 = (r2, s2)" by fastforce
        from 1(2) [OF n t [symmetric] Inr False r2] tp Inr 1(3) n t False r2 show ?thesis
          by (auto simp: read_exact.simps [of d n s] split: sum.splits)
      qed
    qed
  qed
qed

interpretation socket: byte_source "read_exact d" "\<lambda>s. rx_bytes (rx s)" for d
  by unfold_locales (drule read_exact_pending, simp)

section \<open>Writing\<close>

lemma timed_write_effect:
  assumes "timed_write d bs s = (r, s')"
  shows "(case r of Inr n \<Rightarrow> n \<le> length bs \<and> sent s' = sent s @ take n bs | Inl _ \<Rightarrow> sent s' = sent s)
    \<and> rx s' = rx s \<and> clk s' \<le> max (clk s) (d_start d + d_budget d)"
  using assms
  by (auto simp: timed_write_def remaining_io_def time_left_def Let_def
      split: option.splits list.splits prod.splits tx_event.splits if_splits sum.splits)

lemma write_all_effect:
  "write_all d bs s = (r, s') \<Longrightarrow>
     (case r of Inr _ \<Rightarrow> sent s' = sent s @ bs | Inl _ \<Rightarrow> \<exists>k. sent s' = sent s @ take k bs)
     \<and> rx s' = rx s \<and> clk s' \<le> max (clk s) (d_start d + d_budget d)"
proof (induction d bs s arbitrary: r s' rule: write_all.induct)
  case (1 d bs s)
  obtain r1 s1 where t: "timed_write d bs s = (r1, s1)" by fastforce
  note te = timed_write_effect [OF t]
  show ?case
  proof (cases "bs = []")
    case True
    with 1(3) show ?thesis by (auto simp: write_all.simps split: sum.splits)
  next
    case n: False
    show ?thesis
    proof (cases r1)
      case (Inl e)
      show ?thesis
      proof (cases "e = Interrupted")
        case True
        with 1(3) n t Inl have "write_all d bs s1 = (r, s')" by (simp add: write_all.simps [of d bs s])
        from 1(1) [OF n t [symmetric] Inl True this] te Inl show ?thesis by (auto split: sum.splits)
      next
        case False
        with 1(3) n t Inl te show ?thesis
          by (auto simp: write_all.simps [of d bs s] intro: exI [of _ 0])
      qed
    next
      case (Inr k)
      show ?thesis
      proof (cases "k = 0")
        case True
        with 1(3) n t Inr te show ?thesis by (auto simp: write_all.simps [of d bs s] intro: exI [of _ 0])
      next
        case False
        with 1(3) n t Inr have "write_all d (drop k bs) s1 = (r, s')" by (simp add: write_all.simps [of d bs s])
        note IH = 1(2) [OF n t [symmetric] Inr False this]
        have "\<exists>j. take k bs @ take i (drop k bs) = take j bs" for i
          by (metis take_add)
        with IH te Inr show ?thesis by (fastforce split: sum.splits)
      qed
    qed
  qed
qed

lemma write_frame_effect:
  assumes "write_frame_sync d frame s = (r, s')"
  shows "(case r of Inr _ \<Rightarrow> sent s' = sent s @ frame | Inl _ \<Rightarrow> \<exists>k. sent s' = sent s @ take k frame)
     \<and> rx s' = rx s \<and> clk s' \<le> max (clk s) (d_start d + d_budget d)"
proof -
  obtain r1 s1 where w: "write_all d frame s = (r1, s1)" by fastforce
  from write_all_effect [OF w] assms w show ?thesis
    by (auto simp: write_frame_sync_def timed_flush_def split: sum.splits intro: exI [of _ "length frame"])
qed

lemma read_frame_clock:
  assumes "read_frame_sync (read_exact d) s = (r, s')"
  shows "sent s' = sent s \<and> clk s' \<le> max (clk s) (d_start d + d_budget d)"
proof -
  obtain r1 s1 where h: "read_exact d 4 s = (r1, s1)" by fastforce
  note h' = read_exact_pending [OF h]
  show ?thesis
  proof (cases r1)
    case (Inl e)
    with assms h h' show ?thesis by (auto simp: read_frame_sync_def)
  next
    case (Inr hd)
    obtain r2 s2 where b: "read_exact d (unat (from_be_bytes hd)) s1 = (r2, s2)" by fastforce
    from read_exact_pending [OF b] h' assms h Inr b show ?thesis
      by (auto simp: read_frame_sync_def Let_def split: if_splits sum.splits)
  qed
qed

section \<open>Connecting\<close>

lemma remaining_or_timeout_Inr:
  "remaining_or_timeout start budget t = Inr left \<Longrightarrow> t + left \<le> max t (start + budget) \<and> 0 < left
     \<and> t - start + left = budget"
  by (auto simp: remaining_or_timeout_def time_left_def split: if_splits)

text \<open>A poll may overshoot the deadline by less than its granularity of a millisecond.\<close>

lemma poll_wait: "max (left div MILLI) 1 * MILLI \<le> left + MILLI" "1 \<le> max (left div MILLI) 1 * MILLI"
proof -
  show "max (left div MILLI) 1 * MILLI \<le> left + MILLI" by (simp add: max_def trans_le_add1)
  show "1 \<le> max (left div MILLI) 1 * MILLI" by (simp add: MILLI_def max_def)
qed

lemma wait_writable_clock:
  "wait_writable N start budget i t = (r, j, t') \<Longrightarrow> start \<le> t \<Longrightarrow> t' \<le> max t (start + budget + MILLI)"
proof (induction N start budget i t arbitrary: r j t' rule: wait_writable.induct)
  case (1 N start budget i t)
  show ?case
  proof (cases "remaining_or_timeout start budget t")
    case (Inl e)
    with 1(3) show ?thesis by (simp add: wait_writable.simps)
  next
    case (Inr left)
    define wait where "wait = max (left div MILLI) 1 * MILLI"
    have b: "t + wait \<le> start + budget + MILLI" "1 \<le> wait"
      using remaining_or_timeout_Inr [OF Inr] 1(4) poll_wait [of left] unfolding wait_def by linarith+
    note eq = 1(3) [unfolded wait_writable.simps [of N start budget i t] Inr sum.case Let_def wait_def [symmetric]]
    note IH = 1(1,2) [OF Inr wait_def]
    show ?thesis
    proof (cases "poll N i")
      case PollNothing
      with eq IH(1) 1(4) b show ?thesis by fastforce
    next
      case (PollIntr d)
      then have "t' \<le> max (t + max 1 (min d wait)) (start + budget + MILLI)"
        using eq IH(2) 1(4) by auto
      with b show ?thesis by auto
    qed (use eq b in auto)
  qed
qed

lemma connect_loop_clock:
  "connect_loop N start budget i t = (r, t') \<Longrightarrow> start \<le> t \<Longrightarrow> t' \<le> max t (start + budget + MILLI)"
proof (induction N start budget i t arbitrary: r t' rule: connect_loop.induct)
  case (1 N start budget i t)
  show ?case
  proof (cases "conn N i")
    case Again
    show ?thesis
    proof (cases "remaining_or_timeout start budget t")
      case (Inr left)
      have "t + min left RETRY_SLEEP \<le> start + budget" using remaining_or_timeout_Inr [OF Inr] 1(3) by auto
      moreover have "connect_loop N start budget (Suc i) (t + min left RETRY_SLEEP) = (r, t')"
        using 1(2) Again Inr by (simp add: connect_loop.simps [of N start budget i t])
      ultimately show ?thesis using 1(1) [OF Again Inr, of r t'] 1(3) by auto
    qed (use 1(2) Again in \<open>simp add: connect_loop.simps\<close>)
  next
    case (InProgress e)
    show ?thesis
    proof (cases "remaining_or_timeout start budget t")
      case (Inr left)
      obtain r1 j t1 where w: "wait_writable N t left 0 t = (r1, j, t1)" by (metis prod_cases3)
      have "t + left \<le> start + budget" using remaining_or_timeout_Inr [OF Inr] 1(3) by auto
      with wait_writable_clock [OF w] w 1(2) InProgress Inr show ?thesis
        by (auto simp: connect_loop.simps [of N start budget i t] split: sum.splits option.splits)
    qed (use 1(2) InProgress in \<open>simp add: connect_loop.simps\<close>)
  qed (use 1(2) in \<open>simp_all add: connect_loop.simps\<close>)
qed

lemma connect_effect:
  assumes "connect_with_deadline N path budget s = (r, s')"
  shows "sent s' = sent s \<and> rx s' = rx s \<and> tx s' = tx s \<and> clk s' \<le> clk s + budget + MILLI"
proof (cases "unix_addr path")
  case (Inl e)
  with assms show ?thesis by (simp add: connect_with_deadline_def)
next
  case (Inr a)
  obtain r1 t where c: "connect_loop N (clk s) budget 0 (clk s) = (r1, t)" by fastforce
  from connect_loop_clock [OF c] c assms Inr show ?thesis by (auto simp: connect_with_deadline_def)
qed

section \<open>The call\<close>

text \<open>
  C14: Whatever the peer does (a full backlog, trickled bytes, interrupted calls,
  silence), a call is over when its budget is: at most the timeout after it
  began, up to the millisecond granularity of one poll.
\<close>

theorem call_bounded:
  assumes "call_inner Q R N path req uid timeout s = (r, s')"
  shows "clk s' \<le> clk s + timeout + MILLI"
proof (cases "timeout = 0")
  case True
  with assms show ?thesis by (simp add: call_inner_def remaining_def time_left_def)
next
  case False
  define d where "d = \<lparr>d_start = clk s, d_budget = timeout\<rparr>"
  obtain r1 s1 where c: "connect_with_deadline N path timeout s = (r1, s1)" by fastforce
  note ce = connect_effect [OF c]
  have rem: "remaining d (clk s) = Inr timeout" using False by (simp add: d_def remaining_def time_left_def)
  note eq = assms [unfolded call_inner_def Let_def d_def [symmetric] rem sum.case c prod.case]
  show ?thesis
  proof (cases "\<exists>frame. r1 = Inr () \<and> cred N = Inr uid \<and> encode_frame Q req = Inr frame")
    case False
    with eq ce show ?thesis by (auto split: sum.splits if_splits)
  next
    case True
    then obtain frame where t: "r1 = Inr ()" "cred N = Inr uid" "encode_frame Q req = Inr frame" by blast
    obtain r2 s2 where w: "write_frame_sync d frame s1 = (r2, s2)" by fastforce
    obtain r3 s3 where b: "read_frame_sync (read_exact d) s2 = (r3, s3)" by fastforce
    from write_frame_effect [OF w] read_frame_clock [OF b] ce eq t w b show ?thesis
      by (auto simp: d_def split: sum.splits)
  qed
qed

text \<open>A peer that accepts the request at once and answers one byte at a time.\<close>

definition demo_req :: "request msg_codec" where
  "demo_req = \<lparr>to_slice = (\<lambda>m n. if m = ReqStatus \<and> 1 \<le> n then Inr [1] else Inl SerializeBufferFull),
     take_msg = (\<lambda>bs. case bs of [] \<Rightarrow> Inl DeserializeUnexpectedEnd | b # r \<Rightarrow>
       if b = 1 then Inr (ReqStatus, r) else Inl DeserializeUnexpectedEnd)\<rparr>"

definition demo_resp :: "response msg_codec" where
  "demo_resp = \<lparr>to_slice = (\<lambda>m n. if m = ROk \<and> 1 \<le> n then Inr [0] else Inl SerializeBufferFull),
     take_msg = (\<lambda>bs. case bs of [] \<Rightarrow> Inl DeserializeUnexpectedEnd | b # r \<Rightarrow>
       if b = 0 then Inr (ROk, r) else Inl DeserializeUnexpectedEnd)\<rparr>"

definition demo_net :: net where
  "demo_net = \<lparr>conn = (\<lambda>i. if i = 0 then Again else Connected), poll = (\<lambda>_. PollNothing), cred = Inr 7\<rparr>"

definition demo_sock :: sock where
  "demo_sock = \<lparr>clk = 0, rx = [(1, RxData [0, 0]), (1, RxErr Interrupted), (1, RxData [0, 2, 5]), (1, RxData [0])],
     tx = [(1, TxAccept 3), (1, TxAccept 10)], sent = []\<rparr>"

lemma demo_sock_simps [simp]: "clk demo_sock = 0" "sent demo_sock = []"
  by (simp_all add: demo_sock_def)

lemma demo_call: "call_inner demo_req demo_resp demo_net [1] ReqStatus 7 100000000 demo_sock
    = (Inr ROk, \<lparr>clk = 20000006, rx = [], tx = [], sent = [0, 0, 0, 2, 5, 1]\<rparr>)"
proof -
  have be: "from_be_bytes [0, 0, 0, 2] = 2" by (simp add: from_be_bytes_def from_le_bytes_def)
  have en: "encode_frame demo_req ReqStatus = Inr [0, 0, 0, 2, 5, 1]"
    by (simp add: encode_frame_def demo_req_def SCRATCH_def finish_frame_def MAX_FRAME_def to_be_bytes_def
        to_le_bytes_def PROTOCOL_VERSION_def)
  show ?thesis
    by (simp add: call_inner_def remaining_def remaining_io_def time_left_def connect_with_deadline_def
        unix_addr_def SUN_PATH_LEN_def connect_loop.simps remaining_or_timeout_def demo_net_def demo_sock_def
        RETRY_SLEEP_def MILLI_def en write_frame_sync_def write_all.simps timed_write_def timed_flush_def
        read_frame_sync_def read_exact.simps timed_read_def be MAX_FRAME_def decode_frame_def
        PROTOCOL_VERSION_def demo_resp_def)
qed

theorem call_bounded_witness:
  "clk (snd (call_inner demo_req demo_resp demo_net [1] ReqStatus 7 100000000 demo_sock)) \<le> 0 + 100000000 + MILLI"
  using call_bounded [OF demo_call] by (simp add: demo_call)

text \<open>
  C15: A request goes to nobody but the expected user. If the process behind the
  socket runs under another uid, the call fails and not one byte of the request
  (which may carry a vault key) was sent; and whenever the call returns a
  response, exactly the one frame of the request was sent.
\<close>

theorem call_sends_only_to_uid:
  assumes "call_inner Q R N path req uid timeout s = (r, s')"
  shows "(cred N \<noteq> Inr uid \<longrightarrow> (\<exists>e. r = Inl e) \<and> sent s' = sent s)
    \<and> (\<forall>resp. r = Inr resp \<longrightarrow> (\<exists>frame. encode_frame Q req = Inr frame \<and> sent s' = sent s @ frame))"
proof -
  define d where "d = \<lparr>d_start = clk s, d_budget = timeout\<rparr>"
  show ?thesis
  proof (cases "remaining d (clk s)")
    case (Inl e)
    with assms show ?thesis by (auto simp: call_inner_def d_def)
  next
    case (Inr left)
    obtain r1 s1 where c: "connect_with_deadline N path left s = (r1, s1)" by fastforce
    note ce = connect_effect [OF c]
    note eq = assms [unfolded call_inner_def Let_def d_def [symmetric] Inr sum.case c prod.case]
    show ?thesis
    proof (cases "\<exists>frame. r1 = Inr () \<and> cred N = Inr uid \<and> encode_frame Q req = Inr frame")
      case False
      with eq ce show ?thesis by (auto split: sum.splits if_splits)
    next
      case True
      then obtain frame where t: "r1 = Inr ()" "cred N = Inr uid" "encode_frame Q req = Inr frame" by blast
      obtain r2 s2 where w: "write_frame_sync d frame s1 = (r2, s2)" by fastforce
      obtain r3 s3 where b: "read_frame_sync (read_exact d) s2 = (r3, s3)" by fastforce
      from write_frame_effect [OF w] read_frame_clock [OF b] ce eq t w b show ?thesis
        by (auto split: sum.splits)
    qed
  qed
qed

theorem call_sends_only_to_uid_witness:
  "sent (snd (call_inner demo_req demo_resp demo_net [1] ReqStatus 8 100000000 demo_sock)) = []
   \<and> (\<exists>frame. encode_frame demo_req ReqStatus = Inr frame
        \<and> sent (snd (call_inner demo_req demo_resp demo_net [1] ReqStatus 7 100000000 demo_sock)) = frame)"
proof -
  obtain r s' where c: "call_inner demo_req demo_resp demo_net [1] ReqStatus 8 100000000 demo_sock = (r, s')"
    by fastforce
  have "cred demo_net \<noteq> Inr 8" by (simp add: demo_net_def)
  with call_sends_only_to_uid [OF c] call_sends_only_to_uid [OF demo_call] c show ?thesis
    by (simp add: demo_call)
qed

section \<open>Messages\<close>

lemma slice_read_frame:
  assumes "encode_frame c m = Inr frame" "msg_codec_ok c"
  shows "\<exists>body. read_frame_sync slice_read_exact (frame @ rest) = (Inr body, rest)"
proof -
  obtain b where b: "finish_frame b = Inr frame" using encode_frame_Inr [OF assms] by blast
  note fin = finish_frame_Inr [OF b]
  have "unat (from_be_bytes (take 4 frame)) = Suc (length b)" by (rule fin(3))
  with fin(1,2) show ?thesis
    by (simp add: read_frame_sync_def slice_read_exact_def Let_def)
qed

text \<open>
  C16: Frames round-trip. A message that encodes is read back as itself: from a
  buffer that starts with its frame the reader takes exactly that frame and
  leaves the rest, and over a socket, however the peer splits the bytes into
  chunks, a frame that is read decodes to the message that was sent.
\<close>

theorem frame_roundtrip:
  assumes "encode_frame c m = Inr frame" "msg_codec_ok c"
  shows "(\<exists>body. read_frame_sync slice_read_exact (frame @ rest) = (Inr body, rest) \<and> decode_frame c body = Inr m)
    \<and> (\<forall>d s body s'. rx_bytes (rx s) = frame @ rest \<longrightarrow> read_frame_sync (read_exact d) s = (Inr body, s') \<longrightarrow>
         decode_frame c body = Inr m \<and> rx_bytes (rx s') = rest)"
proof -
  obtain body where "read_frame_sync slice_read_exact (frame @ rest) = (Inr body, rest)"
    using slice_read_frame [OF assms] by blast
  with slice.read_frame_encoded [OF this refl assms] socket.read_frame_encoded [OF _ _ assms] show ?thesis
    by auto
qed

theorem frame_roundtrip_witness:
  "(\<exists>body. read_frame_sync slice_read_exact ([0, 0, 0, 2, 5, 1] @ [9]) = (Inr body, [9])
     \<and> decode_frame demo_req body = Inr ReqStatus)"
proof -
  have "encode_frame demo_req ReqStatus = Inr [0, 0, 0, 2, 5, 1]"
    by (simp add: encode_frame_def demo_req_def SCRATCH_def finish_frame_def MAX_FRAME_def to_be_bytes_def
        to_le_bytes_def PROTOCOL_VERSION_def)
  moreover have "msg_codec_ok demo_req" by (simp add: msg_codec_ok_def demo_req_def)
  ultimately show ?thesis using frame_roundtrip [of demo_req ReqStatus "[0, 0, 0, 2, 5, 1]" "[9]"] by blast
qed


text \<open>
  Printing a request for a log shows no key material: two requests that
  differ only in keys and salt print the same.
\<close>

lemma request_debug_redacts:
  "request_debug (UnlockWithKey c k pin) = request_debug (UnlockWithKey c k' pin)
   \<and> request_debug (ChangeKey c old salt kdf new) = request_debug (ChangeKey c old' salt' kdf new')"
  by simp

end
