(* ===== verification/Bus_Base.thy ===== *)
theory Bus_Base
  imports Vault_Files
begin

text \<open>
  What the D-Bus objects share: ordered maps (\<open>BTreeMap\<close>), decimal rendering,
  the object path layout (\<open>src/dbus/paths.rs\<close>) and the errors of the
  \<open>org.freedesktop.Secret.Error\<close> namespace (\<open>src/dbus/errors.rs\<close>). Building an
  object path panics when the string is not a valid path, so the builders return
  an option and \<open>Panicked\<close> is one of the ways a call can end.
\<close>

section \<open>Ordered maps\<close>

text \<open>A \<open>BTreeMap\<close> is the list of its entries in key order.\<close>

fun bt_insert :: "'k::linorder \<Rightarrow> 'v \<Rightarrow> ('k \<times> 'v) list \<Rightarrow> ('k \<times> 'v) list" where
  "bt_insert k v [] = [(k, v)]"
| "bt_insert k v ((k', v') # m) =
     (if k < k' then (k, v) # (k', v') # m
      else if k = k' then (k, v) # m
      else (k', v') # bt_insert k v m)"

definition bt_remove :: "'k \<Rightarrow> ('k \<times> 'v) list \<Rightarrow> ('k \<times> 'v) list" where
  "bt_remove k m = filter (\<lambda>e. fst e \<noteq> k) m"

definition bt_mem :: "'k \<Rightarrow> ('k \<times> 'v) list \<Rightarrow> bool" where
  "bt_mem k m \<longleftrightarrow> map_of m k \<noteq> None"

definition bt_sorted :: "('k::linorder \<times> 'v) list \<Rightarrow> bool" where
  "bt_sorted m \<longleftrightarrow> sorted_wrt (<) (map fst m)"

lemma bt_sorted_Nil [simp]: "bt_sorted []"
  by (simp add: bt_sorted_def)

lemma bt_insert_keys: "fst ` set (bt_insert k v m) = insert k (fst ` set m)"
  by (induction k v m rule: bt_insert.induct) auto

lemma bt_insert_sorted [simp]: "bt_sorted m \<Longrightarrow> bt_sorted (bt_insert k v m)"
proof (induction k v m rule: bt_insert.induct)
  case (2 k v k' v' m)
  have "\<forall>x\<in>fst ` set (bt_insert k v m). k' < x" if "\<not> k < k'" "k \<noteq> k'"
    using that 2(2) by (auto simp: bt_insert_keys bt_sorted_def)
  with 2 show ?case by (auto simp: bt_sorted_def)
qed (simp add: bt_sorted_def)

lemma bt_sorted_tail: "bt_sorted (e # m) \<Longrightarrow> bt_sorted m"
  by (simp add: bt_sorted_def)

lemma map_of_bt_insert [simp]: "bt_sorted m \<Longrightarrow> map_of (bt_insert k v m) = (map_of m)(k \<mapsto> v)"
proof (induction k v m rule: bt_insert.induct)
  case (2 k v k' v' m)
  then show ?case using bt_sorted_tail [OF 2(2)] by (auto simp: fun_eq_iff)
qed auto

lemma bt_remove_sorted [simp]: "bt_sorted m \<Longrightarrow> bt_sorted (bt_remove k m)"
  unfolding bt_sorted_def bt_remove_def
  by (induction m) (auto simp: sorted_wrt_filter)

lemma bt_filter_sorted [simp]: "bt_sorted m \<Longrightarrow> bt_sorted (filter P m)"
  unfolding bt_sorted_def by (induction m) auto

lemma map_of_bt_remove [simp]: "map_of (bt_remove k m) = (map_of m)(k := None)"
  unfolding bt_remove_def by (induction m) (auto simp: fun_eq_iff)

lemma bt_sorted_distinct: "bt_sorted m \<Longrightarrow> distinct (map fst m)"
  unfolding bt_sorted_def by (simp add: strict_sorted_iff)

lemma map_of_bt_sorted: "bt_sorted m \<Longrightarrow> map_of m k = Some v \<longleftrightarrow> (k, v) \<in> set m"
  by (simp add: bt_sorted_distinct)

lemma bt_insert_fresh: "map_of m k = None \<Longrightarrow> length (bt_insert k v m) = Suc (length m)"
  by (induction k v m rule: bt_insert.induct) auto

lemma bt_insert_present: "bt_sorted m \<Longrightarrow> map_of m k \<noteq> None \<Longrightarrow> length (bt_insert k v m) = length m"
proof (induction k v m rule: bt_insert.induct)
  case (2 k v k' v' m)
  have "map_of m k = None" if "k < k'"
    using 2(2) that by (fastforce simp: bt_sorted_def map_of_eq_None_iff)
  with 2 bt_sorted_tail [OF 2(2)] show ?case by (auto split: if_splits)
qed simp

section \<open>Numbers and segments\<close>

fun show_nat :: "nat \<Rightarrow> ustr" where
  "show_nat n = (if n < 10 then [48 + n] else show_nat (n div 10) @ [48 + n mod 10])"

declare show_nat.simps [simp del]

lemma show_nat_digits: "\<forall>c\<in>set (show_nat n). 48 \<le> c \<and> c \<le> 57"
  by (induction n rule: show_nat.induct) (subst show_nat.simps, auto)

lemma show_nat_nonempty [simp]: "show_nat n \<noteq> []"
  by (subst show_nat.simps) simp

lemma show_nat_inj: "show_nat n = show_nat m \<Longrightarrow> n = m"
proof (induction n arbitrary: m rule: show_nat.induct)
  case (1 n)
  show ?case
  proof (cases "n < 10")
    case True
    then have "length (show_nat n) = 1" by (subst show_nat.simps) simp
    then have "m < 10" using "1.prems" by (subst (asm) (2) show_nat.simps) (auto split: if_splits)
    with True "1.prems" show ?thesis by (simp add: show_nat.simps)
  next
    case False
    then have n: "show_nat n = show_nat (n div 10) @ [48 + n mod 10]" by (subst show_nat.simps) simp
    have "\<not> m < 10"
    proof
      assume "m < 10"
      then have "show_nat m = [48 + m]" by (subst show_nat.simps) simp
      with "1.prems" n have "length (show_nat (n div 10) @ [48 + n mod 10]) = length [48 + m]" by (simp only:)
      then show False by simp
    qed
    then have m: "show_nat m = show_nat (m div 10) @ [48 + m mod 10]" by (subst show_nat.simps) simp
    from n m "1.prems" have "show_nat (n div 10) = show_nat (m div 10)" "n mod 10 = m mod 10" by simp_all
    with "1.IH" [OF False] show ?thesis by (metis mod_mult_div_eq)
  qed
qed

definition slash :: uchar where "slash = 47"

definition is_segment :: "ustr \<Rightarrow> bool" where
  "is_segment s \<longleftrightarrow> s \<noteq> [] \<and> list_all (\<lambda>b. is_ascii_alphanumeric b \<or> b = underscore) (as_bytes s)"

definition segment_char :: "uchar \<Rightarrow> bool" where
  "segment_char c \<longleftrightarrow> is_ascii_alphanumeric c \<or> c = underscore"

lemma segment_char_ascii: "segment_char c \<Longrightarrow> c < 0x80"
  by (auto simp: segment_char_def is_ascii_alphanumeric_def underscore_def)

lemma is_segment_chars: "is_segment s \<longleftrightarrow> s \<noteq> [] \<and> (\<forall>c\<in>set s. segment_char c)"
proof
  assume s: "is_segment s"
  then have "\<forall>b\<in>set (as_bytes s). b < 0x80"
    by (auto simp: is_segment_def list_all_iff is_ascii_alphanumeric_def underscore_def)
  then have "as_bytes s = s" using as_bytes_all_ascii [of s] by simp
  with s show "s \<noteq> [] \<and> (\<forall>c\<in>set s. segment_char c)" by (simp add: is_segment_def segment_char_def list_all_iff)
next
  assume s: "s \<noteq> [] \<and> (\<forall>c\<in>set s. segment_char c)"
  then have "as_bytes s = s" by (simp add: as_bytes_ascii segment_char_ascii)
  with s show "is_segment s" by (simp add: is_segment_def segment_char_def list_all_iff)
qed

lemma segment_no_slash: "is_segment s \<Longrightarrow> slash \<notin> set s"
  by (auto simp: is_segment_chars segment_char_def is_ascii_alphanumeric_def underscore_def slash_def)

text \<open>\<open>str::split\<close> on a character.\<close>

fun split_on :: "uchar \<Rightarrow> ustr \<Rightarrow> ustr list" where
  "split_on c [] = [[]]"
| "split_on c (x # xs) =
     (if x = c then [] # split_on c xs
      else (case split_on c xs of p # ps \<Rightarrow> (x # p) # ps | [] \<Rightarrow> [[x]]))"

lemma split_on_nonempty [simp]: "split_on c s \<noteq> []"
  by (induction s) (auto split: list.splits)

lemma split_on_absent: "c \<notin> set s \<Longrightarrow> split_on c s = [s]"
  by (induction s) auto

lemma split_on_append: "c \<notin> set a \<Longrightarrow> split_on c (a @ c # b) = a # split_on c b"
  by (induction a) auto

lemma split_on_first:
  "split_on c s = p # ps \<Longrightarrow> c \<notin> set p \<and> (case ps of [] \<Rightarrow> s = p | _ \<Rightarrow> \<exists>r. s = p @ c # r \<and> split_on c r = ps)"
proof (induction s arbitrary: p ps)
  case (Cons x xs)
  show ?case
  proof (cases "x = c")
    case True
    with Cons.prems show ?thesis by (auto split: list.splits)
  next
    case False
    obtain q qs where q: "split_on c xs = q # qs" by (cases "split_on c xs") auto
    with Cons.prems False have "p = x # q" "ps = qs" by auto
    with Cons.IH [OF q] False show ?thesis by (auto split: list.splits)
  qed
qed auto

section \<open>Object paths\<close>

definition COLLECTIONS_PREFIX :: ustr where "COLLECTIONS_PREFIX = lit ''/org/freedesktop/secrets/collection/''"
definition ALIASES_PREFIX :: ustr where "ALIASES_PREFIX = lit ''/org/freedesktop/secrets/aliases/''"
definition SESSIONS_PREFIX :: ustr where "SESSIONS_PREFIX = lit ''/org/freedesktop/secrets/session/''"
definition PROMPTS_PREFIX :: ustr where "PROMPTS_PREFIX = lit ''/org/freedesktop/secrets/prompt/''"
definition SERVICE_PATH :: ustr where "SERVICE_PATH = lit ''/org/freedesktop/secrets''"

text \<open>The grammar of object paths in the D-Bus specification, which \<open>ObjectPath::try_from\<close> checks.\<close>

definition valid_object_path :: "ustr \<Rightarrow> bool" where
  "valid_object_path s \<longleftrightarrow> s \<noteq> [] \<and> hd s = slash \<and> (s = [slash] \<or> list_all is_segment (split_on slash (tl s)))"

definition owned :: "ustr \<Rightarrow> ustr option" where
  "owned s = (if valid_object_path s then Some s else None)"

definition root_path :: ustr where "root_path = [slash]"

definition collection_path :: "ustr \<Rightarrow> ustr option" where
  "collection_path cid = owned (COLLECTIONS_PREFIX @ cid)"

definition item_path :: "ustr \<Rightarrow> ustr \<Rightarrow> ustr option" where
  "item_path collection_id item_id = owned (COLLECTIONS_PREFIX @ collection_id @ slash # item_id)"

text \<open>The outer option is the function's own: no path for a name that is not a segment.\<close>

definition alias_path :: "ustr \<Rightarrow> ustr option option" where
  "alias_path name = (if is_segment name then Some (owned (ALIASES_PREFIX @ name)) else None)"

definition unguessable_suffix :: "bytes \<Rightarrow> ustr" where
  "unguessable_suffix bs = concat (map (\<lambda>b. hex_byte (unat b)) bs)"

definition session_path :: "u64 \<Rightarrow> bytes \<Rightarrow> ustr option" where
  "session_path n suffix_bytes =
     owned (SESSIONS_PREFIX @ lit ''s'' @ show_nat (unat n) @ underscore # unguessable_suffix suffix_bytes)"

definition prompt_path :: "u64 \<Rightarrow> bytes \<Rightarrow> ustr option" where
  "prompt_path n suffix_bytes =
     owned (PROMPTS_PREFIX @ lit ''p'' @ show_nat (unat n) @ underscore # unguessable_suffix suffix_bytes)"

datatype target =
    TCollection ustr
  | TAlias ustr
  | TItem ustr ustr
  | TAliasItem ustr ustr

definition split_path :: "ustr \<Rightarrow> (ustr \<times> ustr option) option" where
  "split_path rest =
     (case split_on slash rest of
        [] \<Rightarrow> None
      | first # parts \<Rightarrow>
          if \<not> is_segment first then None
          else (case parts of
                  [] \<Rightarrow> Some (first, None)
                | [second] \<Rightarrow> if is_segment second then Some (first, Some second) else None
                | second # third # more_parts \<Rightarrow> None))"

definition strip_prefix :: "ustr \<Rightarrow> ustr \<Rightarrow> ustr option" where
  "strip_prefix p s = (if take (length p) s = p then Some (drop (length p) s) else None)"

definition parse :: "ustr \<Rightarrow> target option" where
  "parse path =
     (case strip_prefix COLLECTIONS_PREFIX path of
        Some rest \<Rightarrow>
          (case split_path rest of
             None \<Rightarrow> None
           | Some (collection, None) \<Rightarrow> Some (TCollection collection)
           | Some (collection, Some item) \<Rightarrow> Some (TItem collection item))
      | None \<Rightarrow>
          (case strip_prefix ALIASES_PREFIX path of
             Some rest \<Rightarrow>
               (case split_path rest of
                  None \<Rightarrow> None
                | Some (alias, None) \<Rightarrow> Some (TAlias alias)
                | Some (alias, Some item) \<Rightarrow> Some (TAliasItem alias item))
           | None \<Rightarrow> None))"

section \<open>Errors\<close>

datatype fdo_error = Failed ustr | InvalidArgs ustr | NotSupported ustr | UnknownObject ustr

datatype zbus_error = FDO fdo_error | ZBusOther "ustr option"

datatype bus_error = ZBus zbus_error | IsLocked | NoSession | NoSuchObject | Panicked

definition failed :: "ustr \<Rightarrow> bus_error" where "failed msg = ZBus (FDO (Failed msg))"
definition invalid_args :: "ustr \<Rightarrow> bus_error" where "invalid_args msg = ZBus (FDO (InvalidArgs msg))"
definition not_supported :: "ustr \<Rightarrow> bus_error" where "not_supported msg = ZBus (FDO (NotSupported msg))"

fun error_from_vault :: "vault_error \<Rightarrow> bus_error" where
  "error_from_vault VLocked = IsLocked"
| "error_from_vault VRetired = NoSuchObject"
| "error_from_vault (NoSuchItem _) = NoSuchObject"
| "error_from_vault _ = failed (lit ''cannot access the collection'')"

fun vault_error_to_fdo :: "vault_error \<Rightarrow> fdo_error" where
  "vault_error_to_fdo VLocked = Failed (lit ''org.freedesktop.Secret.Error.IsLocked: collection is locked'')"
| "vault_error_to_fdo _ = Failed (lit ''cannot access the collection'')"

fun fdo_name :: "fdo_error \<Rightarrow> ustr" where
  "fdo_name (Failed _) = lit ''org.freedesktop.DBus.Error.Failed''"
| "fdo_name (InvalidArgs _) = lit ''org.freedesktop.DBus.Error.InvalidArgs''"
| "fdo_name (NotSupported _) = lit ''org.freedesktop.DBus.Error.NotSupported''"
| "fdo_name (UnknownObject _) = lit ''org.freedesktop.DBus.Error.UnknownObject''"

fun fdo_description :: "fdo_error \<Rightarrow> ustr" where
  "fdo_description (Failed m) = m"
| "fdo_description (InvalidArgs m) = m"
| "fdo_description (NotSupported m) = m"
| "fdo_description (UnknownObject m) = m"

text \<open>The wire name; a panicking call sends no reply.\<close>

fun error_name :: "bus_error \<Rightarrow> ustr option" where
  "error_name (ZBus (FDO inner)) = Some (fdo_name inner)"
| "error_name (ZBus (ZBusOther _)) = Some (lit ''org.freedesktop.zbus.Error'')"
| "error_name IsLocked = Some (lit ''org.freedesktop.Secret.Error.IsLocked'')"
| "error_name NoSession = Some (lit ''org.freedesktop.Secret.Error.NoSession'')"
| "error_name NoSuchObject = Some (lit ''org.freedesktop.Secret.Error.NoSuchObject'')"
| "error_name Panicked = None"

fun error_description :: "bus_error \<Rightarrow> ustr option" where
  "error_description (ZBus (FDO inner)) = Some (fdo_description inner)"
| "error_description (ZBus (ZBusOther d)) = d"
| "error_description _ = None"

section \<open>Lemmas on paths\<close>

lemma strip_prefix_Some: "strip_prefix p s = Some r \<longleftrightarrow> s = p @ r"
  unfolding strip_prefix_def by (metis append_eq_conv_conj append_take_drop_id option.inject option.simps(3))

lemma strip_prefix_append [simp]: "strip_prefix p (p @ r) = Some r"
  by (simp add: strip_prefix_Some)

lemma split_path_Some:
  "split_path rest = Some (a, b) \<longleftrightarrow> is_segment a \<and>
     (case b of None \<Rightarrow> rest = a | Some i \<Rightarrow> is_segment i \<and> rest = a @ slash # i)"
proof
  assume l: "split_path rest = Some (a, b)"
  then obtain ps where ps: "split_on slash rest = a # ps" and a: "is_segment a"
    and rest: "(ps = [] \<and> b = None) \<or> (\<exists>i. ps = [i] \<and> is_segment i \<and> b = Some i)"
    by (auto simp: split_path_def split: list.splits if_splits)
  show "is_segment a \<and> (case b of None \<Rightarrow> rest = a | Some i \<Rightarrow> is_segment i \<and> rest = a @ slash # i)"
    using rest split_on_first [OF ps] a by (auto dest!: split_on_first)
next
  assume "is_segment a \<and> (case b of None \<Rightarrow> rest = a | Some i \<Rightarrow> is_segment i \<and> rest = a @ slash # i)"
  then show "split_path rest = Some (a, b)"
    by (auto simp: split_path_def split_on_absent split_on_append segment_no_slash split: option.splits)
qed

lemma aliases_not_collections: "strip_prefix COLLECTIONS_PREFIX (ALIASES_PREFIX @ r) = None"
  by (simp add: strip_prefix_def COLLECTIONS_PREFIX_def ALIASES_PREFIX_def lit_def)

lemma lit_append: "lit (s @ t) = lit s @ lit t"
  by (simp add: lit_def)

lemma secrets_prefix:
  assumes "is_segment kind"
  shows "valid_object_path (lit ''/org/freedesktop/secrets/'' @ kind @ slash # r)
     \<longleftrightarrow> list_all is_segment (split_on slash r)"
proof -
  have l: "lit ''/org/freedesktop/secrets/'' =
      slash # lit ''org'' @ slash # lit ''freedesktop'' @ slash # lit ''secrets'' @ [slash]"
    by (simp add: lit_def slash_def)
  have segs: "is_segment (lit ''org'')" "is_segment (lit ''freedesktop'')" "is_segment (lit ''secrets'')"
    by (simp_all add: is_segment_chars segment_char_def is_ascii_alphanumeric_def lit_def)
  note noslash = segs [THEN segment_no_slash] segment_no_slash [OF assms]
  have "split_on slash (lit ''org'' @ slash # lit ''freedesktop'' @ slash # lit ''secrets'' @ slash # kind @ slash # r)
      = lit ''org'' # lit ''freedesktop'' # lit ''secrets'' # kind # split_on slash r"
    using noslash by (simp add: split_on_append)
  then show ?thesis using segs assms by (simp add: l valid_object_path_def)
qed

lemma prefixes_shape:
  "COLLECTIONS_PREFIX = lit ''/org/freedesktop/secrets/'' @ lit ''collection'' @ [slash]"
  "ALIASES_PREFIX = lit ''/org/freedesktop/secrets/'' @ lit ''aliases'' @ [slash]"
  "SESSIONS_PREFIX = lit ''/org/freedesktop/secrets/'' @ lit ''session'' @ [slash]"
  "PROMPTS_PREFIX = lit ''/org/freedesktop/secrets/'' @ lit ''prompt'' @ [slash]"
  by (simp_all add: COLLECTIONS_PREFIX_def ALIASES_PREFIX_def SESSIONS_PREFIX_def PROMPTS_PREFIX_def lit_def slash_def)

lemma kinds_are_segments:
  "is_segment (lit ''collection'')" "is_segment (lit ''aliases'')" "is_segment (lit ''session'')" "is_segment (lit ''prompt'')"
  by (simp_all add: is_segment_chars segment_char_def is_ascii_alphanumeric_def lit_def)

lemma segment_splits: "is_segment s \<Longrightarrow> list_all is_segment (split_on slash s)"
  by (simp add: split_on_absent segment_no_slash)

lemma collection_path_segment: "is_segment c \<Longrightarrow> collection_path c = Some (COLLECTIONS_PREFIX @ c)"
  using secrets_prefix [OF kinds_are_segments(1), of c]
  by (simp add: collection_path_def owned_def prefixes_shape split_on_absent segment_no_slash)

lemma item_path_segment:
  assumes "is_segment c"
  shows "item_path c i = (if list_all is_segment (split_on slash i) then Some (COLLECTIONS_PREFIX @ c @ slash # i) else None)"
  using assms secrets_prefix [OF kinds_are_segments(1), of "c @ slash # i"]
  by (simp add: item_path_def owned_def prefixes_shape split_on_append segment_no_slash)

lemma alias_path_segment: "is_segment n \<Longrightarrow> alias_path n = Some (Some (ALIASES_PREFIX @ n))"
  using secrets_prefix [OF kinds_are_segments(2), of n]
  by (simp add: alias_path_def owned_def prefixes_shape split_on_absent segment_no_slash)

lemma hex_digit_segment: "d < 16 \<Longrightarrow> segment_char (hex_digit d)"
  by (auto simp: segment_char_def is_ascii_alphanumeric_def hex_digit_def)

lemma unguessable_segment: "\<forall>c\<in>set (unguessable_suffix bs). segment_char c"
proof -
  have "unat b < 256" for b :: byte using unsigned_less [of b, where ?'a = nat] by simp
  then have "unat b div 16 < 16" for b :: byte by (simp add: less_mult_imp_div_less)
  then show ?thesis by (auto simp: unguessable_suffix_def hex_byte_def hex_digit_segment)
qed

lemma counter_segment:
  assumes "segment_char k"
  shows "is_segment (k # show_nat n @ underscore # unguessable_suffix bs)"
  using assms unguessable_segment [of bs] show_nat_digits [of n]
  by (auto simp: is_segment_chars segment_char_def is_ascii_alphanumeric_def)

lemma session_path_total:
  "session_path n bs = Some (SESSIONS_PREFIX @ lit ''s'' @ show_nat (unat n) @ underscore # unguessable_suffix bs)"
proof -
  let ?t = "lit ''s'' @ show_nat (unat n) @ underscore # unguessable_suffix bs"
  have "is_segment ?t" using counter_segment [of 115 "unat n" bs]
    by (simp add: lit_def segment_char_def is_ascii_alphanumeric_def)
  from segment_splits [OF this] show ?thesis using secrets_prefix [OF kinds_are_segments(3), of ?t]
    by (simp add: session_path_def owned_def prefixes_shape)
qed

lemma prompt_path_total:
  "prompt_path n bs = Some (PROMPTS_PREFIX @ lit ''p'' @ show_nat (unat n) @ underscore # unguessable_suffix bs)"
proof -
  let ?t = "lit ''p'' @ show_nat (unat n) @ underscore # unguessable_suffix bs"
  have "is_segment ?t" using counter_segment [of 112 "unat n" bs]
    by (simp add: lit_def segment_char_def is_ascii_alphanumeric_def)
  from segment_splits [OF this] show ?thesis using secrets_prefix [OF kinds_are_segments(4), of ?t]
    by (simp add: prompt_path_def owned_def prefixes_shape)
qed

lemma counter_inj:
  assumes "show_nat n @ underscore # a = show_nat m @ underscore # b"
  shows "n = m"
proof -
  have no: "underscore \<notin> set (show_nat k)" for k
    using show_nat_digits [of k] by (auto simp: underscore_def)
  have "split_on underscore (show_nat n @ underscore # a) = split_on underscore (show_nat m @ underscore # b)"
    using assms by simp
  then have "show_nat n = show_nat m" by (simp add: split_on_append no)
  then show ?thesis by (rule show_nat_inj)
qed

lemma session_path_inj: "session_path n a = Some p \<Longrightarrow> session_path m b = Some p \<Longrightarrow> n = m"
  by (auto simp: session_path_total dest!: counter_inj simp: word_unat_eq_iff)

lemma prompt_path_inj: "prompt_path n a = Some p \<Longrightarrow> prompt_path m b = Some p \<Longrightarrow> n = m"
  by (auto simp: prompt_path_total dest!: counter_inj simp: word_unat_eq_iff)

fun target_path :: "target \<Rightarrow> ustr" where
  "target_path (TCollection c) = COLLECTIONS_PREFIX @ c"
| "target_path (TAlias a) = ALIASES_PREFIX @ a"
| "target_path (TItem c i) = COLLECTIONS_PREFIX @ c @ slash # i"
| "target_path (TAliasItem a i) = ALIASES_PREFIX @ a @ slash # i"

fun target_segments :: "target \<Rightarrow> ustr list" where
  "target_segments (TCollection c) = [c]"
| "target_segments (TAlias a) = [a]"
| "target_segments (TItem c i) = [c, i]"
| "target_segments (TAliasItem a i) = [a, i]"

text \<open>
  C19: Parsing and building object paths are inverse: a path parses to a target
  exactly when it is that target's path and every name in it is a segment. No
  path is read as two targets, and nothing else is accepted.
\<close>

theorem parse_iff: "parse p = Some t \<longleftrightarrow> p = target_path t \<and> list_all is_segment (target_segments t)"
proof
  assume "parse p = Some t"
  then show "p = target_path t \<and> list_all is_segment (target_segments t)"
    by (auto simp: parse_def strip_prefix_Some split_path_Some split: option.splits)
next
  assume t: "p = target_path t \<and> list_all is_segment (target_segments t)"
  have one: "split_path a = Some (a, None)" if "is_segment a" for a
    using that by (simp add: split_path_Some)
  have two: "split_path (a @ slash # i) = Some (a, Some i)" if "is_segment a" "is_segment i" for a i
    using that by (simp add: split_path_Some)
  from t show "parse p = Some t"
    by (cases t) (simp_all add: parse_def aliases_not_collections one two)
qed

end
