(* ===== verification/Labels.thy ===== *)
theory Labels
  imports Text
begin

text \<open>
  Text that came from somewhere else made fit to be shown: the label of a
  consent dialog (\<open>display_label\<close> of \<open>src/dbus/prompt.rs\<close>) and the reason why the
  alias file could not be read (\<open>AliasError::new\<close> of \<open>src/dbus/state.rs\<close>). Both
  drop invisible characters, turn controls into spaces, collapse white space and
  truncate.
\<close>

section \<open>White space\<close>

text \<open>\<open>char::is_whitespace\<close>: the Unicode property \<open>White_Space\<close>.\<close>

definition is_whitespace :: "uchar \<Rightarrow> bool" where
  "is_whitespace c \<longleftrightarrow> (0x09 \<le> c \<and> c \<le> 0x0D) \<or> c \<in> {0x20, 0x85, 0xA0, 0x1680, 0x2028, 0x2029, 0x202F, 0x205F, 0x3000}
     \<or> (0x2000 \<le> c \<and> c \<le> 0x200A)"

function split_whitespace :: "ustr \<Rightarrow> ustr list" where
  "split_whitespace [] = []"
| "split_whitespace (c # cs) =
     (if is_whitespace c then split_whitespace cs
      else (c # takeWhile (\<lambda>x. \<not> is_whitespace x) cs) # split_whitespace (dropWhile (\<lambda>x. \<not> is_whitespace x) cs))"
  by pat_completeness auto
termination
  by (relation "measure length") (auto simp: le_imp_less_Suc length_dropWhile_le)

fun join :: "ustr \<Rightarrow> ustr list \<Rightarrow> ustr" where
  "join sep [] = []"
| "join sep [w] = w"
| "join sep (w # ws) = w @ sep @ join sep ws"

definition space :: uchar where "space = 0x20"
definition ellipsis :: uchar where "ellipsis = 0x2026"

definition collapse :: "ustr \<Rightarrow> ustr" where
  "collapse s = join [space] (split_whitespace s)"

definition truncate_chars :: "nat \<Rightarrow> ustr \<Rightarrow> ustr" where
  "truncate_chars n s = (if length s > n then take n s @ [ellipsis] else s)"

section \<open>Labels and reasons\<close>

definition DISPLAY_MAX :: nat where "DISPLAY_MAX = 64"

definition display_label :: "ustr \<Rightarrow> ustr" where
  "display_label label =
     (let cleaned = map (\<lambda>c. if is_control c \<or> c \<in> {0x22, 0x28, 0x29} then space else c)
                        (filter (\<lambda>c. \<not> is_invisible_format c) label)
      in truncate_chars DISPLAY_MAX (collapse cleaned))"

definition MAX_ALIAS_ERROR :: nat where "MAX_ALIAS_ERROR = 200"
definition ALIAS_FILE :: ustr where "ALIAS_FILE = lit ''aliases.toml''"

definition alias_error_new :: "ustr \<Rightarrow> ustr" where
  "alias_error_new e =
     (let raw = ALIAS_FILE @ lit '': '' @ e;
          cleaned = map (\<lambda>c. if is_control c then space else c) (filter (\<lambda>c. \<not> is_invisible_format c) raw)
      in truncate_chars MAX_ALIAS_ERROR (collapse cleaned))"

section \<open>Lemmas\<close>

lemma split_whitespace_words:
  "w \<in> set (split_whitespace s) \<Longrightarrow> w \<noteq> [] \<and> set w \<subseteq> set s \<and> (\<forall>c\<in>set w. \<not> is_whitespace c)"
proof (induction s rule: split_whitespace.induct)
  case (2 c cs)
  show ?case
  proof (cases "is_whitespace c")
    case True
    then have "w \<in> set (split_whitespace cs)" using 2(3) by simp
    from 2(1) [OF True this] show ?thesis by auto
  next
    case False
    then have "w = c # takeWhile (\<lambda>x. \<not> is_whitespace x) cs
        \<or> w \<in> set (split_whitespace (dropWhile (\<lambda>x. \<not> is_whitespace x) cs))"
      using 2(3) by simp
    then show ?thesis
    proof
      assume "w = c # takeWhile (\<lambda>x. \<not> is_whitespace x) cs"
      with False show ?thesis by (auto dest: set_takeWhileD)
    next
      assume "w \<in> set (split_whitespace (dropWhile (\<lambda>x. \<not> is_whitespace x) cs))"
      from 2(2) [OF False this] show ?thesis by (auto dest: set_dropWhileD)
    qed
  qed
qed simp

lemma set_join: "set (join sep ws) \<subseteq> set sep \<union> \<Union> (set ` set ws)"
  by (induction sep ws rule: join.induct) auto

lemma set_collapse: "c \<in> set (collapse s) \<Longrightarrow> c = space \<or> (c \<in> set s \<and> \<not> is_whitespace c)"
  using set_join [of "[space]" "split_whitespace s"] split_whitespace_words [of _ s]
  by (fastforce simp: collapse_def)

lemma length_truncate_chars: "length (truncate_chars n s) \<le> n + 1"
  by (simp add: truncate_chars_def)

lemma set_truncate_chars: "c \<in> set (truncate_chars n s) \<Longrightarrow> c = ellipsis \<or> c \<in> set s"
  by (auto simp: truncate_chars_def split: if_splits dest: in_set_takeD)

text \<open>No two spaces in a row, none at either end.\<close>

lemma join_words_ends:
  assumes "ws \<noteq> []" "\<forall>w\<in>set ws. w \<noteq> [] \<and> (\<forall>c\<in>set w. \<not> is_whitespace c)"
  shows "join [space] ws \<noteq> [] \<and> \<not> is_whitespace (hd (join [space] ws)) \<and> \<not> is_whitespace (last (join [space] ws))"
  using assms by (induction "[space]" ws rule: join.induct) auto

lemma visible_safe: "\<not> unsafe_char ellipsis" "\<not> unsafe_char space"
  by (simp_all add: unsafe_char_def is_control_def is_invisible_format_def ellipsis_def space_def)

lemma shown_char:
  assumes "c \<in> set (truncate_chars n (collapse (map h (filter (\<lambda>c. \<not> is_invisible_format c) s))))"
    and "\<And>d. \<not> is_invisible_format d \<Longrightarrow> \<not> unsafe_char (h d) \<and> h d \<notin> X" "X \<inter> {ellipsis, space} = {}"
  shows "\<not> unsafe_char c \<and> c \<notin> X \<and> (is_whitespace c \<longrightarrow> c = space)"
proof -
  consider "c = ellipsis" | "c = space" | d where "\<not> is_invisible_format d" "c = h d" "\<not> is_whitespace c"
    using assms(1) by (auto dest!: set_truncate_chars set_collapse)
  then show ?thesis
    using visible_safe assms(2,3) by cases (auto simp: is_whitespace_def ellipsis_def)
qed

lemma display_label_char:
  assumes "c \<in> set (display_label l)"
  shows "\<not> unsafe_char c \<and> c \<notin> {0x22, 0x28, 0x29} \<and> (is_whitespace c \<longrightarrow> c = space)"
  using assms unfolding display_label_def Let_def
  by (rule shown_char) (auto simp: unsafe_char_def is_control_def is_invisible_format_def space_def ellipsis_def)

lemma alias_error_char:
  assumes "c \<in> set (alias_error_new e)"
  shows "\<not> unsafe_char c \<and> c \<notin> {} \<and> (is_whitespace c \<longrightarrow> c = space)"
  using assms unfolding alias_error_new_def Let_def
  by (rule shown_char) (auto simp: unsafe_char_def is_control_def is_invisible_format_def space_def)

lemma shown_lengths: "length (display_label l) \<le> 65" "length (alias_error_new e) \<le> 201"
  using length_truncate_chars [of DISPLAY_MAX] length_truncate_chars [of MAX_ALIAS_ERROR]
  by (simp_all add: display_label_def alias_error_new_def Let_def DISPLAY_MAX_def MAX_ALIAS_ERROR_def)

text \<open>
  C20: A consent dialog shows a label on one line of at most 65 characters that
  holds no control character, no invisible or reordering character, no line or
  paragraph separator, and none of the three characters the daemon's own dialog
  text is built from, whatever a client chose as the label; and the recorded
  reason why the alias file is unusable obeys the same rules within 201
  characters, whatever the file holds.
\<close>

theorem shown_text_safe:
  "length (display_label l) \<le> 65 \<and> length (alias_error_new e) \<le> 201
   \<and> set (display_label l) \<inter> {0x22, 0x28, 0x29} = {}
   \<and> (\<forall>c\<in>set (display_label l) \<union> set (alias_error_new e).
        \<not> unsafe_char c \<and> (is_whitespace c \<longrightarrow> c = space))"
  using shown_lengths(1) [of l] shown_lengths(2) [of e] display_label_char [of _ l] alias_error_char [of _ e] by blast

definition forged_label :: ustr where
  "forged_label = lit ''x'' @ [0x22, 0x20, 0x28] @ lit ''id: default'' @ [0x29, 0x0A, 0x200B] @ lit ''safe''"

theorem shown_text_safe_witness:
  "display_label forged_label = lit ''x id: default safe'' \<and> set (display_label forged_label) \<inter> {0x22, 0x28, 0x29} = {}
   \<and> \<not> list_ex unsafe_char (display_label forged_label)"
  using shown_text_safe [of forged_label "[]"]
  by (simp add: list_ex_iff display_label_def forged_label_def lit_def is_control_def is_invisible_format_def is_whitespace_def
      collapse_def truncate_chars_def DISPLAY_MAX_def space_def)

end
