(* ===== verification/Alias_Table.thy ===== *)
theory Alias_Table
  imports Bus_Base Labels
begin

text \<open>
  The alias table and its file (\<open>AliasTable\<close>, \<open>load_aliases\<close>, \<open>save_aliases_to\<close>
  and \<open>update_aliases\<close> of \<open>src/dbus/state.rs\<close>). An update takes the state guard
  twice and drops it across the write, so it is modelled as the three stretches
  between those points: \<open>update_begin\<close> under the guard, the write without it,
  \<open>update_commit\<close> under the guard again. \<open>update_aliases\<close> runs them one after the
  other; \<open>alias_step\<close> interleaves the stretches of any number of writers.
\<close>

section \<open>The table\<close>

datatype alias_table = Usable attrs | Degraded ustr attrs

fun unusable :: "alias_table \<Rightarrow> ustr option" where
  "unusable (Usable _) = None"
| "unusable (Degraded reason _) = Some reason"

fun known :: "alias_table \<Rightarrow> attrs" where
  "known (Usable table) = table"
| "known (Degraded _ table) = table"

fun writable :: "alias_table \<Rightarrow> ustr + attrs" where
  "writable (Usable table) = Inr table"
| "writable (Degraded reason _) = Inl reason"

fun resolve :: "alias_table \<Rightarrow> ustr \<Rightarrow> ustr + ustr option" where
  "resolve (Usable table) name = Inr (map_of table name)"
| "resolve (Degraded reason table) name =
     (case map_of table name of None \<Rightarrow> Inl reason | Some v \<Rightarrow> Inr (Some v))"

definition degrade :: "ustr \<Rightarrow> alias_table \<Rightarrow> alias_table" where
  "degrade reason t = Degraded reason (known t)"

section \<open>The file\<close>

definition MAX_ALIAS_BYTES :: nat where "MAX_ALIAS_BYTES = 1048576"

text \<open>The \<open>toml\<close> crate on \<open>struct AliasFile\<close>.\<close>

record alias_lib =
  toml_to_string :: "attrs \<Rightarrow> ustr + ustr"
  toml_from_str :: "ustr \<Rightarrow> ustr + attrs"

definition toml_ok :: "alias_lib \<Rightarrow> bool" where
  "toml_ok T \<longleftrightarrow> (\<forall>t s. toml_to_string T t = Inr s \<longrightarrow> toml_from_str T s = Inr t \<and> (\<forall>c\<in>set s. is_scalar c))"

text \<open>An \<open>io::Error\<close>: \<open>InvalidData\<close> with its text, or any other.\<close>

datatype alias_io = InvalidData ustr | AliasIo io_error

definition alias_path_in :: "path \<Rightarrow> path" where
  "alias_path_in dir = dir @ [ALIAS_FILE]"

definition load_aliases :: "alias_lib \<Rightarrow> env \<Rightarrow> path \<Rightarrow> world \<Rightarrow> (alias_io + attrs) \<times> world" where
  "load_aliases T E dir w =
     (let path = alias_path_in dir;
          read = (\<lambda>w1. case sys_read E path w1 of
            (Inr bs, w2) \<Rightarrow>
              ((case from_utf8 bs of
                  None \<Rightarrow> Inl (InvalidData (lit ''stream did not contain valid UTF-8''))
                | Some src \<Rightarrow> map_err InvalidData (toml_from_str T src)), w2)
          | (Inl e, w2) \<Rightarrow> (if e = ENOENT then Inr [] else Inl (AliasIo (Os e)), w2))
      in case sys_metadata E path w of
           (Inr meta, w1) \<Rightarrow>
             if length (f_bytes meta) > MAX_ALIAS_BYTES
             then (Inl (InvalidData (lit ''too large: '' @ show_nat (length (f_bytes meta))
                     @ lit '' bytes, at most '' @ show_nat MAX_ALIAS_BYTES)), w1)
             else read w1
         | (Inl e, w1) \<Rightarrow> (if e = ENOENT then Inr [] else Inl (AliasIo (Os e)), w1))"

definition save_aliases_to :: "alias_lib \<Rightarrow> env \<Rightarrow> path \<Rightarrow> attrs \<Rightarrow> world \<Rightarrow> (alias_io + unit) \<times> world" where
  "save_aliases_to T E dir table w =
     (case ensure_vault_dir E dir w of
        (Inl e, w1) \<Rightarrow> (Inl (AliasIo e), w1)
      | (Inr _, w1) \<Rightarrow>
          (case toml_to_string T table of
             Inl e \<Rightarrow> (Inl (InvalidData e), w1)
           | Inr src \<Rightarrow>
               (case write_atomic E (alias_path_in dir) (str_bytes src) 438 w1 of
                  (Inl e, w2) \<Rightarrow> (Inl (AliasIo e), w2)
                | (Inr _, w2) \<Rightarrow> (Inr (), w2))))"

section \<open>Updating\<close>

datatype on_write_error = Refuse | Keep

datatype 'e alias_update = Committed | NotWritten alias_io | Unusable ustr | Rejected 'e

definition ALIAS_UPDATE_ATTEMPTS :: nat where "ALIAS_UPDATE_ATTEMPTS = 8"

text \<open>The first stretch: the table to start from and the edited copy, or the end of the call.\<close>

definition update_begin :: "alias_table \<Rightarrow> (attrs \<Rightarrow> 'e + attrs) \<Rightarrow> 'e alias_update + (attrs \<times> attrs)" where
  "update_begin t edit =
     (case writable t of
        Inl e \<Rightarrow> Inl (Unusable e)
      | Inr base \<Rightarrow> (case edit base of Inl e \<Rightarrow> Inl (Rejected e) | Inr new \<Rightarrow> Inr (base, new)))"

text \<open>The last stretch: the end of the call, or \<open>None\<close> for another attempt.\<close>

definition update_commit ::
  "on_write_error \<Rightarrow> nat \<Rightarrow> attrs \<Rightarrow> attrs \<Rightarrow> alias_io + unit \<Rightarrow> alias_table \<Rightarrow> 'e alias_update option \<times> alias_table" where
  "update_commit mode attempt base new written t =
     (case writable t of
        Inl e \<Rightarrow> (Some (Unusable e), t)
      | Inr current \<Rightarrow>
          let stale = (current \<noteq> base)
          in if stale \<and> attempt < ALIAS_UPDATE_ATTEMPTS then (None, t)
             else (case written of
                     Inr _ \<Rightarrow> (Some Committed, Usable new)
                   | Inl e \<Rightarrow> (Some (NotWritten e), if mode = Keep then Usable new else t)))"

function update_from ::
  "alias_lib \<Rightarrow> env \<Rightarrow> path \<Rightarrow> on_write_error \<Rightarrow> (attrs \<Rightarrow> 'e + attrs) \<Rightarrow> nat \<Rightarrow> alias_table \<Rightarrow> world
   \<Rightarrow> 'e alias_update \<times> alias_table \<times> world" where
  "update_from T E dir mode edit attempt t w =
     (case update_begin t edit of
        Inl r \<Rightarrow> (r, t, w)
      | Inr (base, new) \<Rightarrow>
          (case save_aliases_to T E dir new w of
             (written, w1) \<Rightarrow>
               (case update_commit mode attempt base new written t of
                  (Some r, t1) \<Rightarrow> (r, t1, w1)
                | (None, t1) \<Rightarrow> update_from T E dir mode edit (Suc attempt) t1 w1)))"
  by pat_completeness auto
termination
  by (relation "measure (\<lambda>(T, E, dir, mode, edit, attempt, t, w). ALIAS_UPDATE_ATTEMPTS - attempt)")
    (auto simp: update_commit_def Let_def ALIAS_UPDATE_ATTEMPTS_def split: sum.splits if_splits)

declare update_from.simps [simp del]

definition update_aliases ::
  "alias_lib \<Rightarrow> env \<Rightarrow> path \<Rightarrow> on_write_error \<Rightarrow> (attrs \<Rightarrow> 'e + attrs) \<Rightarrow> alias_table \<Rightarrow> world
   \<Rightarrow> 'e alias_update \<times> alias_table \<times> world" where
  "update_aliases T E dir mode edit t w = update_from T E dir mode edit 1 t w"

section \<open>Interleaved updates\<close>

datatype 'e pc =
    Ready nat
  | Writing nat attrs attrs
  | Wrote nat attrs attrs "alias_io + unit"
  | Finished "'e alias_update"

record ('s, 'e) alias_sys =
  tbl :: alias_table
  others :: 's
  disk :: world
  pcs :: "nat \<Rightarrow> 'e pc"

text \<open>\<open>others\<close> is the other state an edit may consult; anybody may change it.\<close>

inductive alias_step ::
  "alias_lib \<Rightarrow> env \<Rightarrow> path \<Rightarrow> (nat \<Rightarrow> on_write_error) \<Rightarrow> (nat \<Rightarrow> 's \<Rightarrow> attrs \<Rightarrow> 'e + attrs)
   \<Rightarrow> ('s, 'e) alias_sys \<Rightarrow> ('s, 'e) alias_sys \<Rightarrow> bool"
  for T E dir mode edit where
  edit_step: "pcs s i = Ready n \<Longrightarrow> update_begin (tbl s) (edit i (others s)) = Inr (base, new) \<Longrightarrow>
     alias_step T E dir mode edit s (s\<lparr>pcs := (pcs s)(i := Writing n base new)\<rparr>)"
| stop_step: "pcs s i = Ready n \<Longrightarrow> update_begin (tbl s) (edit i (others s)) = Inl r \<Longrightarrow>
     alias_step T E dir mode edit s (s\<lparr>pcs := (pcs s)(i := Finished r)\<rparr>)"
| write_step: "pcs s i = Writing n base new \<Longrightarrow> save_aliases_to T E dir new (disk s) = (r, w') \<Longrightarrow>
     alias_step T E dir mode edit s (s\<lparr>disk := w', pcs := (pcs s)(i := Wrote n base new r)\<rparr>)"
| commit_step: "pcs s i = Wrote n base new r \<Longrightarrow> update_commit (mode i) n base new r (tbl s) = (Some out, t') \<Longrightarrow>
     alias_step T E dir mode edit s (s\<lparr>tbl := t', pcs := (pcs s)(i := Finished out)\<rparr>)"
| retry_step: "pcs s i = Wrote n base new r \<Longrightarrow> update_commit (mode i) n base new r (tbl s) = (None :: 'e alias_update option, t') \<Longrightarrow>
     alias_step T E dir mode edit s (s\<lparr>tbl := t', pcs := (pcs s)(i := Ready (Suc n))\<rparr>)"
| other_step: "alias_step T E dir mode edit s (s\<lparr>others := x\<rparr>)"

definition alias_start :: "alias_table \<Rightarrow> 's \<Rightarrow> world \<Rightarrow> ('s, 'e) alias_sys" where
  "alias_start t x w = \<lparr>tbl = t, others = x, disk = w, pcs = \<lambda>_. Ready 1\<rparr>"

definition alias_reach ::
  "alias_lib \<Rightarrow> env \<Rightarrow> path \<Rightarrow> (nat \<Rightarrow> on_write_error) \<Rightarrow> (nat \<Rightarrow> 's \<Rightarrow> attrs \<Rightarrow> 'e + attrs)
   \<Rightarrow> ('s, 'e) alias_sys \<Rightarrow> ('s, 'e) alias_sys \<Rightarrow> bool" where
  "alias_reach T E dir mode edit = (alias_step T E dir mode edit)\<^sup>*\<^sup>*"

end
