(* ===== verification/Session.thy ===== *)
theory Session
  imports File_World
begin

text \<open>
  Transport encryption of secrets on the bus: the key agreement of
  \<open>src/session/dh.rs\<close> and the cipher of \<open>src/session/mod.rs\<close>. \<open>U1024\<close> is the type
  of 1024-bit words. Modular exponentiation (\<open>MontyForm::pow\<close>), HKDF and AES-CBC
  with PKCS#7 are the fields of \<open>session_lib\<close>; \<open>session_lib_ok\<close> says what they
  promise. \<open>random_bytes\<close> panics when the generator fails, which is the result
  \<open>None\<close>.
\<close>

section \<open>The group\<close>

type_synonym u1024 = "1024 word"

definition PRIME_BYTES :: nat where "PRIME_BYTES = 128"

definition PRIME :: u1024 where
  "PRIME =
     0xFFFFFFFFFFFFFFFFC90FDAA22168C234C4C6628B80DC1CD129024E088A67CC74020BBEA63B139B22514A08798E3404DDEF9519B3CD3A431B302B0A6DF25F14374FE1356D6D51C245E485B576625E7EC6F44C42E9A637ED6B0BFF5CB6F406B7EDEE386BFB5A899FA5AE9F24117C4B1FE649286651ECE65381FFFFFFFFFFFFFFFF"

datatype dh_error = InvalidPeerKey | HkdfError

record key_pair =
  kp_private :: u1024
  kp_public :: bytes

record session_lib =
  monty_pow :: "u1024 \<Rightarrow> u1024 \<Rightarrow> u1024"
    \<comment> \<open>\<open>MontyForm::new(base, params).pow(exponent).retrieve()\<close> modulo \<open>PRIME\<close>\<close>
  hkdf_sha256 :: "bytes \<Rightarrow> nat \<Rightarrow> bytes option"
    \<comment> \<open>\<open>Hkdf::<Sha256>::new(None, ikm).expand(&[], okm)\<close> for an output of the given length\<close>
  cbc_encrypt :: "bytes \<Rightarrow> bytes \<Rightarrow> bytes \<Rightarrow> bytes"
  cbc_decrypt :: "bytes \<Rightarrow> bytes \<Rightarrow> bytes \<Rightarrow> bytes option"

definition session_lib_ok :: "session_lib \<Rightarrow> bool" where
  "session_lib_ok S \<longleftrightarrow>
     (\<forall>b e. unat (monty_pow S b e) = unat b ^ unat e mod unat PRIME)
   \<and> (\<forall>k iv m. length iv = 16 \<longrightarrow> cbc_decrypt S k iv (cbc_encrypt S k iv m) = Some m)
   \<and> (\<forall>k iv c m. cbc_decrypt S k iv c = Some m \<longrightarrow> length c \<le> length m + 16)"

section \<open>Encoding\<close>

text \<open>\<open>U1024::to_be_bytes\<close> and \<open>U1024::from_be_slice\<close>.\<close>

definition u1024_to_be_bytes :: "u1024 \<Rightarrow> bytes" where
  "u1024_to_be_bytes x = rev (le_bytes PRIME_BYTES (unat x))"

definition u1024_from_be_slice :: "bytes \<Rightarrow> u1024" where
  "u1024_from_be_slice bs = word_of_nat (le_value (rev bs))"

definition minimal_be :: "u1024 \<Rightarrow> bytes" where
  "minimal_be x =
     (let bytes = u1024_to_be_bytes x;
          start = (case position (\<lambda>b. b \<noteq> 0) bytes of Some i \<Rightarrow> i | None \<Rightarrow> length bytes - 1)
      in drop start bytes)"

definition from_be_padded :: "bytes \<Rightarrow> u1024 option" where
  "from_be_padded bs =
     (if length bs > PRIME_BYTES then None
      else Some (u1024_from_be_slice (replicate (PRIME_BYTES - length bs) 0 @ bs)))"

section \<open>Key agreement\<close>

definition random_bytes :: "env \<Rightarrow> nat \<Rightarrow> world \<Rightarrow> bytes option \<times> world" where
  "random_bytes E n w =
     (case try_random_bytes E n w of (Inl _, w1) \<Rightarrow> (None, w1) | (Inr bs, w1) \<Rightarrow> (Some bs, w1))"

definition generate :: "session_lib \<Rightarrow> env \<Rightarrow> world \<Rightarrow> key_pair option \<times> world" where
  "generate S E w =
     (case random_bytes E PRIME_BYTES w of
        (None, w1) \<Rightarrow> (None, w1)
      | (Some raw, w1) \<Rightarrow>
          let range = PRIME - 3;
              reduced = u1024_from_be_slice raw mod range;
              private = reduced + 2
          in (Some \<lparr>kp_private = private, kp_public = minimal_be (monty_pow S 2 private)\<rparr>, w1))"

definition derive_aes_key :: "session_lib \<Rightarrow> key_pair \<Rightarrow> bytes \<Rightarrow> dh_error + bytes" where
  "derive_aes_key S pair peer_public =
     (case from_be_padded peer_public of
        None \<Rightarrow> Inl InvalidPeerKey
      | Some peer \<Rightarrow>
          if peer \<le> 1 \<or> peer \<ge> PRIME - 1 then Inl InvalidPeerKey
          else let shared = monty_pow S peer (kp_private pair);
                   ikm = u1024_to_be_bytes shared
               in case hkdf_sha256 S ikm 16 of None \<Rightarrow> Inl HkdfError | Some okm \<Rightarrow> Inr okm)"

section \<open>The cipher\<close>

datatype session_error = BadIv nat | DecryptFailed | Dh dh_error

datatype session_cipher = Plain | Aes bytes

definition ALGORITHM_PLAIN :: ustr where "ALGORITHM_PLAIN = lit ''plain''"
definition ALGORITHM_DH :: ustr where "ALGORITHM_DH = lit ''dh-ietf1024-sha256-aes128-cbc-pkcs7''"

definition from_dh :: "session_lib \<Rightarrow> key_pair \<Rightarrow> bytes \<Rightarrow> session_error + session_cipher" where
  "from_dh S pair peer_public =
     (case derive_aes_key S pair peer_public of Inl e \<Rightarrow> Inl (Dh e) | Inr k \<Rightarrow> Inr (Aes k))"

fun algorithm :: "session_cipher \<Rightarrow> ustr" where
  "algorithm Plain = ALGORITHM_PLAIN"
| "algorithm (Aes _) = ALGORITHM_DH"

fun encrypt :: "session_lib \<Rightarrow> env \<Rightarrow> session_cipher \<Rightarrow> bytes \<Rightarrow> world \<Rightarrow> (bytes \<times> bytes) option \<times> world" where
  "encrypt S E Plain plaintext w = (Some ([], plaintext), w)"
| "encrypt S E (Aes k) plaintext w =
     (case random_bytes E 16 w of
        (None, w1) \<Rightarrow> (None, w1)
      | (Some iv, w1) \<Rightarrow> (Some (iv, cbc_encrypt S k iv plaintext), w1))"

fun decrypt :: "session_lib \<Rightarrow> session_cipher \<Rightarrow> bytes \<Rightarrow> bytes \<Rightarrow> session_error + bytes" where
  "decrypt S Plain parameters v = Inr v"
| "decrypt S (Aes k) parameters v =
     (if length parameters \<noteq> 16 then Inl (BadIv (length parameters))
      else case cbc_decrypt S k parameters v of None \<Rightarrow> Inl DecryptFailed | Some m \<Rightarrow> Inr m)"

section \<open>Encoding lemmas\<close>

lemma u1024_be_roundtrip: "u1024_from_be_slice (u1024_to_be_bytes x) = x"
proof -
  have "unat x < 2 ^ LENGTH(1024)" by (rule unsigned_less)
  moreover have "(2 :: nat) ^ LENGTH(1024) = 256 ^ PRIME_BYTES"
    using power_mult [of "2 :: nat" 8 128] by (simp add: PRIME_BYTES_def)
  ultimately show ?thesis
    by (simp add: u1024_from_be_slice_def u1024_to_be_bytes_def le_value_le_bytes)
qed

lemma zeros_before_position:
  assumes "xs \<noteq> []" "start = (case position (\<lambda>b. b \<noteq> 0) xs of Some i \<Rightarrow> i | None \<Rightarrow> length xs - 1)"
  shows "start \<le> length xs" "replicate start 0 @ drop start xs = (xs :: bytes)"
proof -
  have start: "start \<le> length xs" and zero: "\<forall>i < start. xs ! i = 0"
    using assms by (auto split: option.splits dest: position_SomeD simp: position_None_iff)
  have "take start xs = replicate start 0"
    using start zero by (auto intro!: nth_equalityI)
  then show "replicate start 0 @ drop start xs = xs" by (metis append_take_drop_id)
  show "start \<le> length xs" by (rule start)
qed

lemma from_be_padded_minimal: "from_be_padded (minimal_be x) = Some x"
proof -
  define xs where "xs = u1024_to_be_bytes x"
  define start where "start = (case position (\<lambda>b. b \<noteq> 0) xs of Some i \<Rightarrow> i | None \<Rightarrow> length xs - 1)"
  have len: "length xs = PRIME_BYTES" by (simp add: xs_def u1024_to_be_bytes_def)
  then have "xs \<noteq> []" by (auto simp: PRIME_BYTES_def)
  note z = zeros_before_position [OF this start_def]
  have m: "minimal_be x = drop start xs" unfolding minimal_be_def Let_def start_def xs_def ..
  have "PRIME_BYTES - length (drop start xs) = start" using z(1) len by simp
  then show ?thesis using z(2) len by (simp add: from_be_padded_def m xs_def u1024_be_roundtrip)
qed

section \<open>Key agreement lemmas\<close>

lemma random_bytes_length: "random_bytes E n w = (Some bs, w') \<Longrightarrow> length bs = n"
  by (auto simp: random_bytes_def try_random_bytes_def split: option.splits)

lemma pow_commutes:
  assumes "session_lib_ok S"
  shows "monty_pow S (monty_pow S g a) b = monty_pow S (monty_pow S g b) a"
proof -
  have "unat (monty_pow S (monty_pow S g a) b) = unat (monty_pow S (monty_pow S g b) a)"
    using assms by (simp add: session_lib_ok_def power_mod mult.commute flip: power_mult)
  then show ?thesis by (rule word_unat_eq_iff [THEN iffD2])
qed

lemma generate_public:
  "generate S E w = (Some pair, w') \<Longrightarrow> kp_public pair = minimal_be (monty_pow S 2 (kp_private pair))"
  by (auto simp: generate_def Let_def split: option.splits prod.splits)

lemma derive_aes_key_Inr:
  assumes "derive_aes_key S pair (minimal_be x) = Inr k"
  shows "hkdf_sha256 S (u1024_to_be_bytes (monty_pow S x (kp_private pair))) 16 = Some k"
  using assms by (auto simp: derive_aes_key_def from_be_padded_minimal Let_def split: if_splits option.splits)

lemma keys_agree:
  assumes "session_lib_ok S" "generate S E w = (Some a, w1)" "generate S E' w' = (Some b, w1')"
    and "derive_aes_key S a (kp_public b) = Inr k" "derive_aes_key S b (kp_public a) = Inr k'"
  shows "k = k'"
proof -
  have "hkdf_sha256 S (u1024_to_be_bytes (monty_pow S (monty_pow S 2 (kp_private b)) (kp_private a))) 16 = Some k"
    using assms(3,4) by (simp add: generate_public derive_aes_key_Inr)
  moreover have "hkdf_sha256 S (u1024_to_be_bytes (monty_pow S (monty_pow S 2 (kp_private a)) (kp_private b))) 16 = Some k'"
    using assms(2,5) by (simp add: generate_public derive_aes_key_Inr)
  ultimately show ?thesis by (simp add: pow_commutes [OF assms(1), of 2 "kp_private a"])
qed

lemma unat_PRIME: "unat PRIME =
    0xFFFFFFFFFFFFFFFFC90FDAA22168C234C4C6628B80DC1CD129024E088A67CC74020BBEA63B139B22514A08798E3404DDEF9519B3CD3A431B302B0A6DF25F14374FE1356D6D51C245E485B576625E7EC6F44C42E9A637ED6B0BFF5CB6F406B7EDEE386BFB5A899FA5AE9F24117C4B1FE649286651ECE65381FFFFFFFFFFFFFFFF"
  unfolding PRIME_def unat_numeral by (rule mod_less) simp

lemma PRIME_value: "unat (PRIME - 3) = unat PRIME - 3" "17 < unat PRIME"
  by (subst unat_sub) (simp_all add: word_le_nat_alt unat_PRIME)

text \<open>The private exponent is in \<open>[2, p - 2]\<close>, as the comment in the source says.\<close>

lemma generate_private_range:
  assumes "generate S E w = (Some pair, w')"
  shows "2 \<le> unat (kp_private pair) \<and> unat (kp_private pair) \<le> unat PRIME - 2"
proof -
  obtain r where r: "kp_private pair = r mod (PRIME - 3) + 2"
    using assms by (auto simp: generate_def Let_def split: option.splits prod.splits)
  have "unat (r mod (PRIME - 3)) < unat PRIME - 3"
    using PRIME_value by (simp add: unat_mod)
  moreover have "unat PRIME < 2 ^ 1024" using unsigned_less [of PRIME, where ?'a = nat] by simp
  ultimately show ?thesis
    unfolding r by (simp add: unat_word_ariths)
qed

section \<open>Round trips\<close>

lemma encrypt_decrypt:
  assumes "session_lib_ok S" "encrypt S E c m w = (Some (params, v), w')"
  shows "decrypt S c params v = Inr m"
  using assms by (cases c) (auto simp: session_lib_ok_def split: option.splits prod.splits dest: random_bytes_length)

lemma decrypt_length:
  assumes "session_lib_ok S" "decrypt S c params v = Inr m"
  shows "length v \<le> length m + 16"
  using assms by (cases c) (auto simp: session_lib_ok_def split: option.splits if_splits)

end
