(* ===== verification/Service_State.thy ===== *)
theory Service_State
  imports Alias_Table Session Vault_Store
begin

text \<open>
  The daemon's shared state (\<open>src/dbus/state.rs\<close>) and the object registry
  (\<open>src/dbus/registry.rs\<close>). Vaults live behind shared references
  (\<open>Arc<Mutex<Vault>>\<close>): \<open>heap\<close> maps a reference to its vault, \<open>collections\<close>
  maps an id to a reference, so two references to one file are two different
  vaults. The object server is the list of exported objects, and the signals sent
  are recorded in order. A prompt object is found by its path, which is never
  used twice; \<open>tasks\<close> are the spawned prompt tasks that have not finished.
  \<open>platform\<close> holds everything outside: the operating
  system, the libraries, and whether the bus accepts an object or a signal.
  Log lines are not modelled.
\<close>

section \<open>Running fallible steps\<close>

text \<open>The operator \<open>?\<close> of a function that threads a state.\<close>

definition and_then :: "('e + 'a) \<times> 's \<Rightarrow> ('a \<Rightarrow> 's \<Rightarrow> ('e + 'b) \<times> 's) \<Rightarrow> ('e + 'b) \<times> 's" where
  "and_then m f = (case m of (Inl e, s) \<Rightarrow> (Inl e, s) | (Inr a, s) \<Rightarrow> f a s)"

lemma and_then_simps [simp]:
  "and_then (Inl e, s) f = (Inl e, s)" "and_then (Inr a, s) f = f a s"
  by (simp_all add: and_then_def)

lemma and_then_Inr:
  "and_then m f = (Inr b, s') \<longleftrightarrow> (\<exists>a s. m = (Inr a, s) \<and> f a s = (Inr b, s'))"
  by (auto simp: and_then_def split: prod.splits sum.splits)

lemma and_then_keeps:
  assumes "P (snd m)" "\<And>a s. m = (Inr a, s) \<Longrightarrow> P s \<Longrightarrow> P (snd (f a s))"
  shows "P (snd (and_then m f))"
  using assms by (cases m; cases "fst m") auto

section \<open>State\<close>

datatype collection_ref = CId ustr | CAlias ustr

datatype iface = ICollection collection_ref | ICollectionAdmin collection_ref | IItem ustr ustr | ISession | IPrompt

datatype signal =
    CollectionCreated ustr
  | CollectionDeleted ustr
  | CollectionChanged ustr
  | CollectionsChanged
  | LockedChanged ustr
  | ItemCreated ustr ustr
  | ItemDeleted ustr ustr
  | ItemChanged ustr ustr
  | Completed ustr bool "ustr list"

datatype prompt_action =
    PromptUnlock "ustr list" "ustr list"
  | PromptCreate ustr "ustr option"
  | PromptDelete ustr

datatype prompt_kind = KUnlock | KCreateCollection | KDeleteCollection

fun kind :: "prompt_action \<Rightarrow> prompt_kind" where
  "kind (PromptUnlock _ _) = KUnlock"
| "kind (PromptCreate _ _) = KCreateCollection"
| "kind (PromptDelete _) = KDeleteCollection"

text \<open>\<open>pr_committed\<close> is the commit gate, shared with \<open>prompt_commits\<close>.\<close>

record prompt =
  pr_kind :: prompt_kind
  pr_action :: "prompt_action option"
  pr_committed :: bool
  pr_cancelled :: bool

record session_entry =
  se_owner :: ustr
  se_cipher :: session_cipher

record service_state =
  vault_dir :: path
  st_kdf :: kdf_params
  st_index_attributes :: bool
  gpg_enabled :: bool
  collections :: "(ustr \<times> nat) list"
  broken :: "(ustr \<times> (path \<times> ustr)) list"
  aliases :: alias_table
  sessions :: "(ustr \<times> session_entry) list"
  prompt_owners :: "(ustr \<times> ustr) list"
  prompt_tasks :: "(ustr \<times> nat) list"
  prompt_commits :: "(ustr \<times> ustr) list"
  prompt_unlocked :: "(ustr \<times> ustr list) list"
  started :: nat
  last_activity :: nat
  next_session :: u64
  next_prompt :: u64

record daemon =
  st :: service_state
  heap :: "nat \<Rightarrow> vault"
  next_ref :: nat
  wld :: world
  exports :: "(ustr \<times> iface) list"
  prompts :: "ustr \<Rightarrow> prompt"
  tasks :: "(nat \<times> ustr \<times> prompt_action) list"
  next_task :: nat
  signals :: "signal list"

datatype pin_error = PinBusy | PinFailed ustr

record platform =
  os :: env
  lib :: vault_lib
  slib :: session_lib
  toml :: alias_lib
  at_fault :: "nat \<Rightarrow> ustr option option"
    \<comment> \<open>the error of \<open>ObjectServer::at\<close> at this moment, if it fails\<close>
  emit_fault :: "nat \<Rightarrow> ustr option option"
  instant :: "nat \<Rightarrow> nat"
    \<comment> \<open>\<open>Instant::now\<close>\<close>
  show_vault_error :: "vault_error \<Rightarrow> ustr"
    \<comment> \<open>\<open>Display\<close> of \<open>VaultError\<close>, generated by \<open>thiserror\<close>\<close>
  show_io_error :: "io_error \<Rightarrow> ustr"
  show_bus_error :: "bus_error \<Rightarrow> ustr"
  pin_session :: "nat \<Rightarrow> pin_error option"
    \<comment> \<open>whether the dialog slot is granted at this moment\<close>
  pin_ask :: "nat \<Rightarrow> pin_error + bytes option"
    \<comment> \<open>the password typed, or \<open>None\<close> when the user cancelled\<close>
  pin_confirm :: "nat \<Rightarrow> pin_error + bool"

type_synonym 'a reply = "(bus_error + 'a) \<times> daemon"

definition set_st :: "service_state \<Rightarrow> daemon \<Rightarrow> daemon" where
  "set_st s d = d\<lparr>st := s\<rparr>"

definition set_wld :: "world \<Rightarrow> daemon \<Rightarrow> daemon" where
  "set_wld w d = d\<lparr>wld := w\<rparr>"

text \<open>Run an operation on the vault behind a reference, under its lock.\<close>

definition on_vault :: "nat \<Rightarrow> (vault \<Rightarrow> world \<Rightarrow> 'a outcome) \<Rightarrow> daemon \<Rightarrow> (vault_error + 'a) \<times> daemon" where
  "on_vault r f d =
     (case f (heap d r) (wld d) of
        (x, v, w) \<Rightarrow> (x, d\<lparr>heap := (heap d)(r := v), wld := w\<rparr>))"

definition set_vault :: "nat \<Rightarrow> (vault \<Rightarrow> vault) \<Rightarrow> daemon \<Rightarrow> daemon" where
  "set_vault r f d = d\<lparr>heap := (heap d)(r := f (heap d r))\<rparr>"

definition vault_ref :: "vault \<Rightarrow> daemon \<Rightarrow> nat \<times> daemon" where
  "vault_ref v d = (next_ref d, d\<lparr>heap := (heap d)(next_ref d := v), next_ref := Suc (next_ref d)\<rparr>)"

definition emit :: "platform \<Rightarrow> signal \<Rightarrow> daemon \<Rightarrow> unit reply" where
  "emit P s d =
     (let t = tick (wld d); d1 = set_wld (next_tick (wld d)) d
      in case emit_fault P t of
           Some e \<Rightarrow> (Inl (ZBus (ZBusOther e)), d1)
         | None \<Rightarrow> (Inr (), d1\<lparr>signals := signals d1 @ [s]\<rparr>))"

definition server_at :: "platform \<Rightarrow> ustr \<Rightarrow> iface \<Rightarrow> daemon \<Rightarrow> unit reply" where
  "server_at P path i d =
     (let t = tick (wld d); d1 = set_wld (next_tick (wld d)) d
      in case at_fault P t of
           Some e \<Rightarrow> (Inl (ZBus (ZBusOther e)), d1)
         | None \<Rightarrow> (Inr (), d1\<lparr>exports := (if (path, i) \<in> set (exports d1) then exports d1 else exports d1 @ [(path, i)])\<rparr>))"

definition server_remove :: "ustr \<Rightarrow> (iface \<Rightarrow> bool) \<Rightarrow> daemon \<Rightarrow> daemon" where
  "server_remove path K d = d\<lparr>exports := filter (\<lambda>(p, i). \<not> (p = path \<and> K i)) (exports d)\<rparr>"

fun is_collection :: "iface \<Rightarrow> bool" where
  "is_collection (ICollection _) = True" | "is_collection _ = False"

fun is_admin :: "iface \<Rightarrow> bool" where
  "is_admin (ICollectionAdmin _) = True" | "is_admin _ = False"

fun is_item :: "iface \<Rightarrow> bool" where
  "is_item (IItem _ _) = True" | "is_item _ = False"

text \<open>A path that must be valid: the call panics otherwise.\<close>

definition expect_path :: "ustr option \<Rightarrow> daemon \<Rightarrow> ustr reply" where
  "expect_path p d = (case p of None \<Rightarrow> (Inl Panicked, d) | Some s \<Rightarrow> (Inr s, d))"

definition or_bus :: "(vault_error + 'a) \<times> daemon \<Rightarrow> 'a reply" where
  "or_bus m = (case m of (r, d) \<Rightarrow> (map_err error_from_vault r, d))"

section \<open>Lookups\<close>

definition service_state_new :: "path \<Rightarrow> kdf_params \<Rightarrow> bool \<Rightarrow> nat \<Rightarrow> service_state" where
  "service_state_new dir kdf gpg t =
     \<lparr>vault_dir = dir, st_kdf = kdf, st_index_attributes = True, gpg_enabled = gpg, collections = [], broken = [],
      aliases = Usable [], sessions = [], prompt_owners = [], prompt_tasks = [], prompt_commits = [],
      prompt_unlocked = [], started = t, last_activity = t, next_session = 0, next_prompt = 0\<rparr>"

definition loaded_ids :: "service_state \<Rightarrow> ustr list" where
  "loaded_ids s = map fst (collections s)"

definition vault_of :: "service_state \<Rightarrow> ustr \<Rightarrow> nat option" where
  "vault_of s cid = map_of (collections s) cid"

definition broken_error :: "service_state \<Rightarrow> ustr \<Rightarrow> ustr option" where
  "broken_error s cid = map_option snd (map_of (broken s) cid)"

definition aliases_unusable :: "service_state \<Rightarrow> ustr option" where
  "aliases_unusable s = unusable (aliases s)"

definition alias_target :: "service_state \<Rightarrow> ustr \<Rightarrow> ustr + ustr option" where
  "alias_target s name =
     (case resolve (aliases s) name of
        Inl e \<Rightarrow> Inl e
      | Inr None \<Rightarrow> Inr None
      | Inr (Some cid) \<Rightarrow> Inr (if bt_mem cid (collections s) then Some cid else None))"

text \<open>\<open>alias_target(..).unwrap_or(None)\<close>\<close>

definition alias_or_none :: "service_state \<Rightarrow> ustr \<Rightarrow> ustr option" where
  "alias_or_none s name = (case alias_target s name of Inl _ \<Rightarrow> None | Inr x \<Rightarrow> x)"

definition resolve_collection :: "service_state \<Rightarrow> ustr \<Rightarrow> ustr option" where
  "resolve_collection s path =
     (case parse path of
        None \<Rightarrow> None
      | Some (TCollection cid) \<Rightarrow> if bt_mem cid (collections s) \<or> bt_mem cid (broken s) then Some cid else None
      | Some (TAlias name) \<Rightarrow> alias_or_none s name
      | Some _ \<Rightarrow> None)"

datatype path_target =
    PCollection ustr nat
  | PBroken ustr
  | PItem ustr nat ustr

fun path_target_id :: "path_target \<Rightarrow> ustr" where
  "path_target_id (PCollection cid _) = cid"
| "path_target_id (PBroken cid) = cid"
| "path_target_id (PItem cid _ _) = cid"

definition resolve_path :: "service_state \<Rightarrow> ustr \<Rightarrow> path_target option" where
  "resolve_path s path =
     (case (case parse path of
              None \<Rightarrow> None
            | Some (TCollection cid) \<Rightarrow> Some (cid, None)
            | Some (TAlias name) \<Rightarrow> map_option (\<lambda>c. (c, None)) (alias_or_none s name)
            | Some (TItem c i) \<Rightarrow> Some (c, Some i)
            | Some (TAliasItem a i) \<Rightarrow> map_option (\<lambda>c. (c, Some i)) (alias_or_none s a)) of
        None \<Rightarrow> None
      | Some (cid, iid) \<Rightarrow>
          (case (vault_of s cid, iid) of
             (Some v, None) \<Rightarrow> Some (PCollection cid v)
           | (Some v, Some i) \<Rightarrow> Some (PItem cid v i)
           | (None, None) \<Rightarrow> if bt_mem cid (broken s) then Some (PBroken cid) else None
           | (None, Some _) \<Rightarrow> None))"

definition MAX_SESSIONS_PER_SENDER :: nat where "MAX_SESSIONS_PER_SENDER = 32"
definition MAX_PROMPTS_PER_OWNER :: nat where "MAX_PROMPTS_PER_OWNER = 8"

definition session_count :: "service_state \<Rightarrow> ustr \<Rightarrow> nat" where
  "session_count s owner = length (filter (\<lambda>e. se_owner (snd e) = owner) (sessions s))"

definition prompt_count :: "service_state \<Rightarrow> ustr \<Rightarrow> nat" where
  "prompt_count s owner = length (filter (\<lambda>e. snd e = owner) (prompt_owners s))"

definition check_session_quota :: "service_state \<Rightarrow> ustr \<Rightarrow> bus_error + unit" where
  "check_session_quota s owner =
     (if session_count s owner \<ge> MAX_SESSIONS_PER_SENDER then Inl (failed (lit ''too many open sessions'')) else Inr ())"

definition check_prompt_quota :: "service_state \<Rightarrow> ustr \<Rightarrow> bus_error + unit" where
  "check_prompt_quota s owner =
     (if prompt_count s owner \<ge> MAX_PROMPTS_PER_OWNER then Inl (failed (lit ''too many outstanding prompts'')) else Inr ())"

text \<open>The counter wraps as the release build's does; the suffix comes from the random number generator.\<close>

definition new_session_path :: "platform \<Rightarrow> daemon \<Rightarrow> ustr reply" where
  "new_session_path P d =
     (let n = next_session (st d) + 1; d1 = set_st ((st d)\<lparr>next_session := n\<rparr>) d
      in case random_bytes (os P) 8 (wld d1) of
           (None, w) \<Rightarrow> (Inl Panicked, set_wld w d1)
         | (Some bs, w) \<Rightarrow> expect_path (session_path n bs) (set_wld w d1))"

definition new_prompt_path :: "platform \<Rightarrow> daemon \<Rightarrow> ustr reply" where
  "new_prompt_path P d =
     (let n = next_prompt (st d) + 1; d1 = set_st ((st d)\<lparr>next_prompt := n\<rparr>) d
      in case random_bytes (os P) 8 (wld d1) of
           (None, w) \<Rightarrow> (Inl Panicked, set_wld w d1)
         | (Some bs, w) \<Rightarrow> expect_path (prompt_path n bs) (set_wld w d1))"

definition cipher_of :: "service_state \<Rightarrow> ustr \<Rightarrow> ustr \<Rightarrow> bus_error + session_cipher" where
  "cipher_of s path sender =
     (case map_of (sessions s) path of
        Some e \<Rightarrow> if se_owner e = sender then Inr (se_cipher e) else Inl NoSession
      | None \<Rightarrow> Inl NoSession)"

definition touch :: "platform \<Rightarrow> daemon \<Rightarrow> daemon" where
  "touch P d = set_st ((st d)\<lparr>last_activity := instant P (tick (wld d))\<rparr>) (set_wld (next_tick (wld d)) d)"

definition all_vaults :: "service_state \<Rightarrow> (ustr \<times> nat) list" where
  "all_vaults s = collections s"

definition search_collection :: "vault_lib \<Rightarrow> vault \<Rightarrow> attrs \<Rightarrow> ustr list" where
  "search_collection D v query =
     (case search v query of Inr its \<Rightarrow> map it_id its | Inl _ \<Rightarrow> search_ids D v query)"

text \<open>\<open>paths::item\<close> over a list of ids; one invalid path is a panic.\<close>

fun item_paths :: "ustr \<Rightarrow> ustr list \<Rightarrow> ustr list option" where
  "item_paths c [] = Some []"
| "item_paths c (i # is) =
     (case item_path c i of None \<Rightarrow> None
      | Some p \<Rightarrow> (case item_paths c is of None \<Rightarrow> None | Some ps \<Rightarrow> Some (p # ps)))"

fun search_vaults ::
  "vault_lib \<Rightarrow> (nat \<Rightarrow> vault) \<Rightarrow> attrs \<Rightarrow> (ustr \<times> nat) list \<Rightarrow> (ustr list \<times> ustr list) option" where
  "search_vaults D h query [] = Some ([], [])"
| "search_vaults D h query ((cid, r) # rest) =
     (case item_paths cid (search_collection D (h r) query) of
        None \<Rightarrow> None
      | Some ps \<Rightarrow>
          (case search_vaults D h query rest of
             None \<Rightarrow> None
           | Some (unlocked, locked) \<Rightarrow>
               Some (if is_locked (h r) then (unlocked, ps @ locked) else (ps @ unlocked, locked))))"

definition search_all :: "platform \<Rightarrow> attrs \<Rightarrow> daemon \<Rightarrow> (ustr list \<times> ustr list) reply" where
  "search_all P query d =
     (case search_vaults (lib P) (heap d) query (all_vaults (st d)) of
        None \<Rightarrow> (Inl Panicked, d)
      | Some r \<Rightarrow> (Inr r, d))"

definition is_unlocked_path :: "daemon \<Rightarrow> ustr \<Rightarrow> bool" where
  "is_unlocked_path d path =
     (case resolve_path (st d) path of
        None \<Rightarrow> False
      | Some (PBroken _) \<Rightarrow> False
      | Some (PCollection _ r) \<Rightarrow> \<not> is_locked (heap d r)
      | Some (PItem _ r i) \<Rightarrow> has_item (heap d r) i \<and> \<not> is_locked (heap d r))"

section \<open>Free ids\<close>

definition vault_file_path :: "path \<Rightarrow> ustr \<Rightarrow> path" where
  "vault_file_path dir cid = dir @ [cid @ lit ''.vault'']"

text \<open>\<open>symlink_metadata(..).is_ok()\<close>: any entry counts.\<close>

definition sys_exists :: "env \<Rightarrow> path \<Rightarrow> world \<Rightarrow> bool \<times> world" where
  "sys_exists E p w =
     (fault E (tick w) = None \<and> (map_of (fs w) p \<noteq> None \<or> map_of (dirs w) p \<noteq> None), next_tick w)"

definition id_taken :: "env \<Rightarrow> path \<Rightarrow> ustr list \<Rightarrow> ustr \<Rightarrow> world \<Rightarrow> bool \<times> world" where
  "id_taken E dir loaded cid w =
     (if cid \<in> set loaded then (True, w) else sys_exists E (vault_file_path dir cid) w)"

definition numbered :: "ustr \<Rightarrow> nat \<Rightarrow> ustr" where
  "numbered base n = base @ underscore # show_nat n"

text \<open>The numbers whose id some entry or loaded collection has.\<close>

definition taken_numbers :: "path \<Rightarrow> ustr list \<Rightarrow> ustr \<Rightarrow> nat \<Rightarrow> world \<Rightarrow> nat set" where
  "taken_numbers dir loaded base n w =
     {m. n \<le> m \<and> (numbered base m \<in> set loaded
        \<or> vault_file_path dir (numbered base m) \<in> fst ` (set (fs w)) \<union> fst ` (set (dirs w)))}"

lemma numbered_inj: "numbered base n = numbered base m \<Longrightarrow> n = m"
  using show_nat_inj by (auto simp: numbered_def)

lemma finite_taken_numbers: "finite (taken_numbers dir loaded base n w)"
proof -
  let ?X = "set loaded" let ?Y = "fst ` set (fs w) \<union> fst ` set (dirs w)"
  have "inj (numbered base)" by (rule injI) (rule numbered_inj)
  then have "finite (numbered base -` ?X)" by (intro finite_vimageI) simp
  moreover have "inj (\<lambda>m. vault_file_path dir (numbered base m))"
    by (rule injI) (simp add: vault_file_path_def numbered_inj)
  then have "finite ((\<lambda>m. vault_file_path dir (numbered base m)) -` ?Y)" by (intro finite_vimageI) simp
  ultimately have "finite (numbered base -` ?X \<union> (\<lambda>m. vault_file_path dir (numbered base m)) -` ?Y)" by simp
  then show ?thesis by (rule rev_finite_subset) (auto simp: taken_numbers_def)
qed

lemma id_taken_world:
  "id_taken E dir loaded cid w = (b, w') \<Longrightarrow> fs w' = fs w \<and> dirs w' = dirs w"
  by (auto simp: id_taken_def sys_exists_def next_tick_def split: if_splits)

lemma id_taken_number:
  assumes "id_taken E dir loaded (numbered base n) w = (True, w')"
  shows "card (taken_numbers dir loaded base (Suc n) w') < card (taken_numbers dir loaded base n w)"
proof (rule psubset_card_mono [OF finite_taken_numbers])
  have "n \<in> taken_numbers dir loaded base n w"
    using assms by (auto simp: taken_numbers_def id_taken_def sys_exists_def map_of_eq_None_iff split: if_splits)
  moreover have "n \<notin> taken_numbers dir loaded base (Suc n) w'" by (simp add: taken_numbers_def)
  moreover have "taken_numbers dir loaded base (Suc n) w' \<subseteq> taken_numbers dir loaded base n w"
    using id_taken_world [OF assms] by (auto simp: taken_numbers_def)
  ultimately show "taken_numbers dir loaded base (Suc n) w' \<subset> taken_numbers dir loaded base n w" by blast
qed

function find_free :: "env \<Rightarrow> path \<Rightarrow> ustr list \<Rightarrow> ustr \<Rightarrow> nat \<Rightarrow> world \<Rightarrow> ustr \<times> world" where
  "find_free E dir loaded base n w =
     (case id_taken E dir loaded (numbered base n) w of
        (True, w1) \<Rightarrow> find_free E dir loaded base (Suc n) w1
      | (False, w1) \<Rightarrow> (numbered base n, w1))"
  by pat_completeness auto
termination
  by (relation "measure (\<lambda>(E, dir, loaded, base, n, w). card (taken_numbers dir loaded base n w))")
    (auto dest!: sym [where s = "(True, _)"] id_taken_number)

declare find_free.simps [simp del]

definition unique_collection_id_in :: "env \<Rightarrow> path \<Rightarrow> ustr list \<Rightarrow> ustr \<Rightarrow> world \<Rightarrow> ustr \<times> world" where
  "unique_collection_id_in E dir loaded label w =
     (let base = collection_id_from_label label
      in case id_taken E dir loaded base w of
           (False, w1) \<Rightarrow> (base, w1)
         | (True, w1) \<Rightarrow> find_free E dir loaded base 2 w1)"

section \<open>Scanning the vault directory\<close>

record vault_scan =
  sc_opened :: "(ustr \<times> vault) list"
  sc_broken :: "(ustr \<times> path \<times> ustr) list"
  sc_aliases :: "ustr + attrs"
  sc_seen :: "ustr list"

text \<open>\<open>Path::extension\<close> and \<open>Path::file_stem\<close> for a name with an extension.\<close>

definition stem_and_extension :: "ustr \<Rightarrow> (ustr \<times> ustr) option" where
  "stem_and_extension name =
     (case rsplit_once 46 name of
        None \<Rightarrow> None
      | Some (stem, ext) \<Rightarrow> if stem = [] then None else Some (stem, ext))"

definition dir_entries :: "world \<Rightarrow> path \<Rightarrow> path list" where
  "dir_entries w dir = read_dir w dir @ filter (\<lambda>p. p \<noteq> [] \<and> butlast p = dir) (map fst (dirs w))"

fun scan_loop :: "platform \<Rightarrow> bool \<Rightarrow> ustr list \<Rightarrow> path list \<Rightarrow> vault_scan \<Rightarrow> world \<Rightarrow> (io_error + vault_scan) \<times> world" where
  "scan_loop P index_attrs loaded [] scan w = (Inr scan, w)"
| "scan_loop P index_attrs loaded (p # ps) scan w =
     (case fault (os P) (tick w) of
        Some e \<Rightarrow> (Inl (Os e), next_tick w)
      | None \<Rightarrow>
          let w1 = next_tick w
          in case stem_and_extension (last p) of
               None \<Rightarrow> scan_loop P index_attrs loaded ps scan w1
             | Some (cid, ext) \<Rightarrow>
                 if ext \<noteq> lit ''vault'' then scan_loop P index_attrs loaded ps scan w1
                 else let scan1 = scan\<lparr>sc_seen := cid # sc_seen scan\<rparr>
                      in if \<not> is_segment cid \<or> cid \<in> set loaded
                         then scan_loop P index_attrs loaded ps scan1 w1
                         else (case open_vault (lib P) (os P) p w1 of
                                 (Inr v, w2) \<Rightarrow>
                                   scan_loop P index_attrs loaded ps
                                     (scan1\<lparr>sc_opened := sc_opened scan1 @ [(cid, set_index_attributes index_attrs v)]\<rparr>) w2
                               | (Inl e, w2) \<Rightarrow>
                                   scan_loop P index_attrs loaded ps
                                     (scan1\<lparr>sc_broken := sc_broken scan1 @ [(cid, p, show_vault_error P e)]\<rparr>) w2))"

definition scan_vault_dir ::
  "platform \<Rightarrow> path \<Rightarrow> bool \<Rightarrow> ustr list \<Rightarrow> world \<Rightarrow> (io_error + vault_scan) \<times> world" where
  "scan_vault_dir P dir index_attrs loaded w =
     and_then (ensure_vault_dir (os P) dir w) (\<lambda>_ w1.
       case fault (os P) (tick w1) of
         Some e \<Rightarrow> (Inl (Os e), next_tick w1)
       | None \<Rightarrow>
           and_then (scan_loop P index_attrs loaded (dir_entries w1 dir)
               \<lparr>sc_opened = [], sc_broken = [], sc_aliases = Inr [], sc_seen = []\<rparr> (next_tick w1)) (\<lambda>scan w2.
             case load_aliases (toml P) (os P) dir w2 of
               (Inr table, w3) \<Rightarrow> (Inr (scan\<lparr>sc_aliases := Inr table\<rparr>), w3)
             | (Inl (InvalidData msg), w3) \<Rightarrow> (Inr (scan\<lparr>sc_aliases := Inl (alias_error_new msg)\<rparr>), w3)
             | (Inl (AliasIo e), w3) \<Rightarrow> (Inl e, w3)))"

fun merge_opened :: "(ustr \<times> vault) list \<Rightarrow> ustr list \<Rightarrow> daemon \<Rightarrow> ustr list \<times> daemon" where
  "merge_opened [] new_ids d = (new_ids, d)"
| "merge_opened ((cid, v) # rest) new_ids d =
     (let previously_broken = bt_mem cid (broken (st d));
          was_loaded = bt_mem cid (collections (st d));
          (r, d1) = vault_ref v d;
          d2 = set_st ((st d1)\<lparr>broken := bt_remove cid (broken (st d1)),
                               collections := bt_insert cid r (collections (st d1))\<rparr>) d1
      in merge_opened rest (if \<not> was_loaded \<and> \<not> previously_broken then new_ids @ [cid] else new_ids) d2)"

fun merge_broken :: "(ustr \<times> path \<times> ustr) list \<Rightarrow> ustr list \<Rightarrow> service_state \<Rightarrow> ustr list \<times> service_state" where
  "merge_broken [] new_ids s = (new_ids, s)"
| "merge_broken ((cid, p, err) # rest) new_ids s =
     (let previously_known = (bt_mem cid (broken s) \<or> bt_mem cid (collections s))
      in merge_broken rest (if previously_known then new_ids else new_ids @ [cid])
           (s\<lparr>broken := bt_insert cid (p, err) (broken s)\<rparr>))"

definition merge_scan :: "vault_scan \<Rightarrow> daemon \<Rightarrow> ustr list \<times> daemon" where
  "merge_scan scan d =
     (case merge_opened (sc_opened scan) [] d of
        (new1, d1) \<Rightarrow>
          (case merge_broken (sc_broken scan) new1 (st d1) of
             (new2, s2) \<Rightarrow>
               (new2, set_st (s2\<lparr>broken := filter (\<lambda>e. fst e \<in> set (sc_seen scan)) (broken s2),
                  aliases := (case sc_aliases scan of Inr table \<Rightarrow> Usable table
                              | Inl reason \<Rightarrow> degrade reason (aliases s2))\<rparr>) d1)))"

section \<open>The registry\<close>

fun register_items :: "platform \<Rightarrow> ustr \<Rightarrow> ustr list \<Rightarrow> daemon \<Rightarrow> unit reply" where
  "register_items P cid [] d = (Inr (), d)"
| "register_items P cid (iid # rest) d =
     and_then (expect_path (item_path cid iid) d) (\<lambda>p d1.
       and_then (server_at P p (IItem cid iid) d1) (\<lambda>_ d2. register_items P cid rest d2))"

definition register_collection :: "platform \<Rightarrow> ustr \<Rightarrow> daemon \<Rightarrow> unit reply" where
  "register_collection P cid d =
     and_then (expect_path (collection_path cid) d) (\<lambda>p d1.
       and_then (server_at P p (ICollection (CId cid)) d1) (\<lambda>_ d2.
         and_then (server_at P p (ICollectionAdmin (CId cid)) d2) (\<lambda>_ d3.
           register_items P cid
             (case vault_of (st d3) cid of Some r \<Rightarrow> item_ids (heap d3 r) | None \<Rightarrow> []) d3)))"

definition register_alias :: "platform \<Rightarrow> ustr \<Rightarrow> daemon \<Rightarrow> unit reply" where
  "register_alias P name d =
     (case alias_path name of
        None \<Rightarrow> (Inr (), d)
      | Some q \<Rightarrow>
          and_then (expect_path q d) (\<lambda>p d1.
            and_then (server_at P p (ICollection (CAlias name)) d1) (\<lambda>_ d2.
              server_at P p (ICollectionAdmin (CAlias name)) d2)))"

definition unregister_alias :: "ustr \<Rightarrow> daemon \<Rightarrow> daemon" where
  "unregister_alias name d =
     (case alias_path name of
        Some (Some p) \<Rightarrow> server_remove p is_collection (server_remove p is_admin d)
      | _ \<Rightarrow> d)"

fun remove_items :: "ustr \<Rightarrow> ustr list \<Rightarrow> daemon \<Rightarrow> daemon" where
  "remove_items cid [] d = d"
| "remove_items cid (iid # rest) d =
     (case item_path cid iid of
        None \<Rightarrow> d
      | Some p \<Rightarrow> remove_items cid rest (server_remove p is_item d))"

text \<open>A panic ends the spawned task; what it had removed stays removed.\<close>

definition unregister_collection :: "ustr \<Rightarrow> ustr list \<Rightarrow> daemon \<Rightarrow> daemon" where
  "unregister_collection cid iids d =
     (let d1 = remove_items cid iids d
      in if item_paths cid iids = None then d1
         else case collection_path cid of
                None \<Rightarrow> d1
              | Some p \<Rightarrow> server_remove p is_collection (server_remove p is_admin d1))"

definition register_item :: "platform \<Rightarrow> ustr \<Rightarrow> ustr \<Rightarrow> daemon \<Rightarrow> unit reply" where
  "register_item P cid iid d =
     and_then (expect_path (item_path cid iid) d) (\<lambda>p d1. server_at P p (IItem cid iid) d1)"

fun register_each :: "(ustr \<Rightarrow> daemon \<Rightarrow> unit reply) \<Rightarrow> ustr list \<Rightarrow> daemon \<Rightarrow> unit reply" where
  "register_each f [] d = (Inr (), d)"
| "register_each f (x # xs) d = and_then (f x d) (\<lambda>_ d1. register_each f xs d1)"

definition register_all :: "platform \<Rightarrow> daemon \<Rightarrow> unit reply" where
  "register_all P d =
     (let ids = map fst (collections (st d)) @ map fst (broken (st d));
          names = map fst (known (aliases (st d)))
      in and_then (register_each (register_collection P) ids d) (\<lambda>_ d1.
           register_each (register_alias P) names d1))"

definition try_emit :: "platform \<Rightarrow> signal \<Rightarrow> daemon \<Rightarrow> daemon" where
  "try_emit P s d = snd (emit P s d)"

definition emit_locked_changed :: "platform \<Rightarrow> ustr \<Rightarrow> daemon \<Rightarrow> daemon" where
  "emit_locked_changed P p d =
     (if list_ex (\<lambda>(q, i). q = p \<and> is_collection i) (exports d) then try_emit P (LockedChanged p) d else d)"

fun emit_alias_changes :: "platform \<Rightarrow> ustr list \<Rightarrow> daemon \<Rightarrow> daemon" where
  "emit_alias_changes P [] d = d"
| "emit_alias_changes P (name # rest) d =
     emit_alias_changes P rest
       (case alias_path name of Some (Some p) \<Rightarrow> emit_locked_changed P p d | _ \<Rightarrow> d)"

definition notify_collection_changed :: "platform \<Rightarrow> ustr \<Rightarrow> daemon \<Rightarrow> daemon" where
  "notify_collection_changed P cid d =
     (case collection_path cid of
        None \<Rightarrow> d
      | Some p \<Rightarrow>
          let d1 = try_emit P (CollectionChanged p) d
          in if \<not> list_ex (\<lambda>(q, i). q = p \<and> is_collection i) (exports d1) then d1
             else let names = map fst (filter (\<lambda>e. snd e = cid) (known (aliases (st d1))))
                  in emit_alias_changes P names (emit_locked_changed P p d1))"

definition notify_collections_changed :: "platform \<Rightarrow> daemon \<Rightarrow> daemon" where
  "notify_collections_changed P d = try_emit P CollectionsChanged d"

end
