(* ===== verification/Bus_Objects.thy ===== *)
theory Bus_Objects
  imports Service_State
begin

text \<open>
  The methods and properties of the D-Bus objects: collections and items
  (\<open>src/dbus/collection.rs\<close>, \<open>src/dbus/item.rs\<close>), the service
  (\<open>src/dbus/service.rs\<close>) and sessions (\<open>src/dbus/session.rs\<close>), with the
  argument checks of \<open>src/dbus/mod.rs\<close>. Each is a function from the daemon to its
  reply and the daemon after it; the two locks are taken in the order of the
  source, and the vault's lock is held exactly where \<open>on_vault\<close> is used. A
  \<open>HashMap\<close> argument is the list of its entries in iteration order.
\<close>

section \<open>Arguments\<close>

datatype variant = VString ustr | VDict attrs | VBytes bytes | VOther

definition require_sender :: "ustr option \<Rightarrow> bus_error + ustr" where
  "require_sender header = (case header of Some s \<Rightarrow> Inr s | None \<Rightarrow> Inl NoSession)"

definition prop_string :: "(ustr \<times> variant) list \<Rightarrow> ustr \<Rightarrow> bus_error + ustr option" where
  "prop_string props key =
     (case map_of props key of
        None \<Rightarrow> Inr None
      | Some (VString s) \<Rightarrow> Inr (Some s)
      | Some _ \<Rightarrow> Inl (invalid_args (key @ lit '' must be a string'')))"

fun cap_text :: "cap \<Rightarrow> ustr \<times> ustr" where
  "cap_text Secret = (lit ''secret is too large; at most '', lit '' bytes per item'')"
| "cap_text Label = (lit ''label is too large; at most '', lit '' bytes per item'')"
| "cap_text ContentType = (lit ''content type is too large; at most '', lit '' bytes per item'')"
| "cap_text AttributeCount = (lit ''too many attributes; at most '', lit '' per item'')"
| "cap_text AttributeKey = (lit ''attribute name is too large; at most '', lit '' bytes per attribute'')"
| "cap_text AttributeValue = (lit ''attribute value is too large; at most '', lit '' bytes per attribute'')"

definition cap_message :: "cap_violation \<Rightarrow> ustr" where
  "cap_message v = (case cap_text (cv_cap v) of (a, b) \<Rightarrow> a @ show_nat (cv_limit v) @ b)"

definition refuse_over :: "cap_violation option \<Rightarrow> fdo_error + unit" where
  "refuse_over v = (case v of Some over \<Rightarrow> Inl (InvalidArgs (cap_message over)) | None \<Rightarrow> Inr ())"

definition MAX_ITEM_CIPHERTEXT :: nat where "MAX_ITEM_CIPHERTEXT = MAX_ITEM_SECRET + 16"
definition MAX_DELETE_ITEMS :: nat where "MAX_DELETE_ITEMS = 1024"
definition MAX_GET_SECRETS_ITEMS :: nat where "MAX_GET_SECRETS_ITEMS = 1024"
definition MAX_SEARCH_ATTRIBUTES :: nat where "MAX_SEARCH_ATTRIBUTES = 1024"
definition MAX_LOCK_OBJECTS :: nat where "MAX_LOCK_OBJECTS = 1024"
definition MAX_ALIAS_NAME :: nat where "MAX_ALIAS_NAME = 128"
definition MAX_ALIASES :: nat where "MAX_ALIASES = 256"

definition check_content_type :: "ustr \<Rightarrow> fdo_error + unit" where
  "check_content_type content_type = refuse_over (cap_check ContentType (str_len content_type))"

definition check_item_label :: "ustr \<Rightarrow> fdo_error + unit" where
  "check_item_label label = refuse_over (cap_check Label (str_len label))"

fun check_pairs :: "attrs \<Rightarrow> cap_violation option" where
  "check_pairs [] = None"
| "check_pairs ((k, v) # rest) =
     (case or_else (cap_check AttributeKey (str_len k)) (cap_check AttributeValue (str_len v)) of
        Some over \<Rightarrow> Some over
      | None \<Rightarrow> check_pairs rest)"

definition check_attributes :: "nat \<Rightarrow> attrs \<Rightarrow> fdo_error + unit" where
  "check_attributes count pairs =
     (case cap_check AttributeCount count of
        Some over \<Rightarrow> refuse_over (Some over)
      | None \<Rightarrow> refuse_over (check_pairs pairs))"

text \<open>\<open>HashMap::into_iter().collect::<BTreeMap>()\<close>\<close>

fun collect :: "attrs \<Rightarrow> attrs" where
  "collect [] = []"
| "collect ((k, v) # rest) = bt_insert k v (collect rest)"

definition fdo :: "fdo_error + 'a \<Rightarrow> bus_error + 'a" where
  "fdo r = map_err (\<lambda>e. ZBus (FDO e)) r"

definition prop_attributes :: "(ustr \<times> variant) list \<Rightarrow> ustr \<Rightarrow> bus_error + attrs" where
  "prop_attributes props key =
     (case map_of props key of
        None \<Rightarrow> Inr []
      | Some (VDict m) \<Rightarrow> (case fdo (check_attributes (length m) m) of Inl e \<Rightarrow> Inl e | Inr _ \<Rightarrow> Inr (collect m))
      | Some _ \<Rightarrow> Inl (invalid_args (key @ lit '' must be a{ss}'')))"

text \<open>A check that only reads: \<open>?\<close> on a result that carries no state.\<close>

definition check :: "bus_error + 'a \<Rightarrow> daemon \<Rightarrow> 'a reply" where
  "check r d = (r, d)"

record secret_struct =
  ss_session :: ustr
  ss_parameters :: bytes
  ss_value :: bytes
  ss_content_type :: ustr

definition too_many :: "ustr \<Rightarrow> nat \<Rightarrow> ustr \<Rightarrow> bus_error" where
  "too_many what limit per = invalid_args (lit ''too many '' @ what @ lit ''; at most '' @ show_nat limit @ per)"

section \<open>Collections\<close>

definition collection_id :: "service_state \<Rightarrow> collection_ref \<Rightarrow> bus_error + ustr" where
  "collection_id s target =
     (case target of
        CId cid \<Rightarrow> if bt_mem cid (collections s) \<or> bt_mem cid (broken s) then Inr cid else Inl NoSuchObject
      | CAlias name \<Rightarrow>
          (case alias_target s name of
             Inr (Some cid) \<Rightarrow> Inr cid
           | Inr None \<Rightarrow> Inl NoSuchObject
           | Inl e \<Rightarrow> Inl (failed (lit ''alias table is unreadable: '' @ e))))"

definition collection_target :: "service_state \<Rightarrow> collection_ref \<Rightarrow> bus_error + (ustr \<times> nat option)" where
  "collection_target s target =
     (case collection_id s target of Inl e \<Rightarrow> Inl e | Inr cid \<Rightarrow> Inr (cid, vault_of s cid))"

definition collection_is_locked :: "daemon \<Rightarrow> collection_ref \<Rightarrow> bool" where
  "collection_is_locked d target =
     (case collection_target (st d) target of
        Inr (_, Some r) \<Rightarrow> is_locked (heap d r)
      | _ \<Rightarrow> True)"

text \<open>
  Take a prompt for \<open>owner\<close>: quota, path, owner entry, export; a failed export
  takes the owner entry back.
\<close>

definition new_prompt :: "platform \<Rightarrow> ustr \<Rightarrow> prompt_action \<Rightarrow> daemon \<Rightarrow> ustr reply" where
  "new_prompt P owner action d =
     and_then (check (check_prompt_quota (st d) owner) d) (\<lambda>_ d1.
       and_then (new_prompt_path P d1) (\<lambda>path d2.
         let d3 = set_st ((st d2)\<lparr>prompt_owners := bt_insert path owner (prompt_owners (st d2))\<rparr>) d2;
             d4 = d3\<lparr>prompts := (prompts d3)(path := \<lparr>pr_kind = kind action, pr_action = Some action,
                                               pr_committed = False, pr_cancelled = False\<rparr>)\<rparr>
         in case server_at P path IPrompt d4 of
              (Inr _, d5) \<Rightarrow> (Inr path, d5)
            | (Inl e, d5) \<Rightarrow>
                (Inl e, set_st ((st d5)\<lparr>prompt_owners := bt_remove path (prompt_owners (st d5))\<rparr>) d5)))"

definition collection_delete :: "platform \<Rightarrow> collection_ref \<Rightarrow> ustr option \<Rightarrow> daemon \<Rightarrow> ustr reply" where
  "collection_delete P target header d =
     and_then (check (collection_target (st d) target) d) (\<lambda>(cid, r) d1.
       let locked = (case r of Some v \<Rightarrow> is_locked (heap d1 v) | None \<Rightarrow> True)
       in if locked then (Inl IsLocked, d1)
          else and_then (check (require_sender header) d1) (\<lambda>owner d2. new_prompt P owner (PromptDelete cid) d2))"

definition collection_search_items :: "platform \<Rightarrow> collection_ref \<Rightarrow> attrs \<Rightarrow> daemon \<Rightarrow> ustr list reply" where
  "collection_search_items P target attributes d =
     (if length attributes > MAX_SEARCH_ATTRIBUTES
      then (Inl (too_many (lit ''attributes'') MAX_SEARCH_ATTRIBUTES (lit '' per call'')), d)
      else and_then (check (collection_target (st d) target) d) (\<lambda>(cid, r) d1.
        case r of
          None \<Rightarrow> (Inr [], d1)
        | Some v \<Rightarrow>
            (case item_paths cid (search_collection (lib P) (heap d1 v) (collect attributes)) of
               None \<Rightarrow> (Inl Panicked, d1)
             | Some ps \<Rightarrow> (Inr ps, d1))))"

definition LABEL_KEY :: ustr where "LABEL_KEY = lit ''org.freedesktop.Secret.Item.Label''"
definition ATTRIBUTES_KEY :: ustr where "ATTRIBUTES_KEY = lit ''org.freedesktop.Secret.Item.Attributes''"

definition secret_too_large :: bus_error where
  "secret_too_large = invalid_args (lit ''secret is too large; at most '' @ show_nat MAX_ITEM_SECRET @ lit '' bytes per item'')"

text \<open>
  The stretch of \<open>create_item\<close> and \<open>set_secret\<close> under the collection's lock:
  refuse while locked, decrypt, measure the plaintext, then edit.
\<close>

definition store_secret ::
  "platform \<Rightarrow> session_cipher \<Rightarrow> secret_struct \<Rightarrow> (bytes \<Rightarrow> vault \<Rightarrow> world \<Rightarrow> 'a outcome) \<Rightarrow> nat \<Rightarrow> daemon \<Rightarrow> 'a reply" where
  "store_secret P cipher secret edit r d =
     (if is_locked (heap d r) then (Inl IsLocked, d)
      else case decrypt (slib P) cipher (ss_parameters secret) (ss_value secret) of
             Inl e \<Rightarrow> (Inl (failed (case e of BadIv n \<Rightarrow> lit ''bad IV length '' @ show_nat n @ lit '', expected 16''
                                 | _ \<Rightarrow> lit ''secret decryption failed'')), d)
           | Inr plaintext \<Rightarrow>
               (case cap_check Secret (length plaintext) of
                  Some over \<Rightarrow> (Inl (invalid_args (cap_message over)), d)
                | None \<Rightarrow> or_bus (on_vault r (edit plaintext) d)))"

definition create_item ::
  "platform \<Rightarrow> collection_ref \<Rightarrow> (ustr \<times> variant) list \<Rightarrow> secret_struct \<Rightarrow> bool \<Rightarrow> ustr option \<Rightarrow> daemon
   \<Rightarrow> (ustr \<times> ustr) reply" where
  "create_item P target properties secret replace header d =
     and_then (check (prop_string properties LABEL_KEY) d) (\<lambda>label_opt d.
       let label = (case label_opt of Some l \<Rightarrow> l | None \<Rightarrow> [])
       in and_then (check (fdo (check_item_label label)) d) (\<lambda>_ d.
          and_then (check (fdo (check_content_type (ss_content_type secret))) d) (\<lambda>_ d.
          and_then (check (prop_attributes properties ATTRIBUTES_KEY) d) (\<lambda>attributes d.
          and_then (check (collection_id (st d) target) d) (\<lambda>cid d.
          and_then (check (require_sender header) d) (\<lambda>sender d.
          and_then (check (cipher_of (st d) (ss_session secret) sender) d) (\<lambda>cipher d.
            if length (ss_value secret) > MAX_ITEM_CIPHERTEXT then (Inl secret_too_large, d)
            else case vault_of (st d) cid of
                   None \<Rightarrow> (Inl IsLocked, d)
                 | Some r \<Rightarrow>
                     and_then (store_secret P cipher secret (\<lambda>plaintext.
                         insert_item (lib P) (os P) label attributes plaintext (ss_content_type secret) replace) r d)
                       (\<lambda>(iid, replaced) d.
                         and_then (expect_path (item_path cid iid) (touch P d)) (\<lambda>path d.
                           and_then (if replaced then (Inr (), d) else register_item P cid iid d) (\<lambda>_ d.
                             and_then (emit P (if replaced then ItemChanged cid path else ItemCreated cid path) d)
                               (\<lambda>_ d. (Inr (path, root_path), d))))))))))))"

definition collection_items :: "daemon \<Rightarrow> collection_ref \<Rightarrow> ustr list option" where
  "collection_items d target =
     (case collection_target (st d) target of
        Inr (cid, Some r) \<Rightarrow> item_paths cid (item_ids (heap d r))
      | _ \<Rightarrow> Some [])"

definition collection_label :: "daemon \<Rightarrow> collection_ref \<Rightarrow> ustr" where
  "collection_label d target =
     (case collection_target (st d) target of
        Inr (_, Some r) \<Rightarrow> h_label (v_header (heap d r))
      | Inr (cid, None) \<Rightarrow> cid
      | Inl _ \<Rightarrow> [])"

definition collection_set_label ::
  "platform \<Rightarrow> collection_ref \<Rightarrow> ustr \<Rightarrow> daemon \<Rightarrow> (fdo_error + unit) \<times> daemon" where
  "collection_set_label P target label d =
     (case collection_id (st d) target of
        Inl _ \<Rightarrow> (Inl (UnknownObject (lit ''no such collection'')), d)
      | Inr cid \<Rightarrow>
          (case vault_of (st d) cid of
             None \<Rightarrow> (Inl (vault_error_to_fdo VLocked), d)
           | Some r \<Rightarrow>
               (case on_vault r (set_label (lib P) (os P) label) d of
                  (x, d1) \<Rightarrow> (map_err vault_error_to_fdo x, d1))))"

definition collection_created :: "daemon \<Rightarrow> collection_ref \<Rightarrow> u64" where
  "collection_created d target =
     (case collection_target (st d) target of Inr (_, Some r) \<Rightarrow> h_created (v_header (heap d r)) | _ \<Rightarrow> 0)"

definition collection_modified :: "daemon \<Rightarrow> collection_ref \<Rightarrow> u64" where
  "collection_modified d target =
     (case collection_target (st d) target of Inr (_, Some r) \<Rightarrow> h_modified (v_header (heap d r)) | _ \<Rightarrow> 0)"

section \<open>Batch delete\<close>

fun resolve_items :: "service_state \<Rightarrow> ustr list \<Rightarrow> bus_error + (ustr \<times> ustr \<times> nat) list" where
  "resolve_items s [] = Inr []"
| "resolve_items s (p # ps) =
     (case resolve_path s p of
        Some (PItem cid r iid) \<Rightarrow>
          (case resolve_items s ps of Inl e \<Rightarrow> Inl e | Inr rs \<Rightarrow> Inr ((cid, iid, r) # rs))
      | _ \<Rightarrow> Inl NoSuchObject)"

text \<open>
  The loop over runs of paths naming one collection: the vault looked at is the
  one the first path of the run resolved to.
\<close>

fun check_batch ::
  "(nat \<Rightarrow> vault) \<Rightarrow> ustr \<Rightarrow> (ustr \<times> nat) option \<Rightarrow> (ustr \<times> ustr \<times> nat) list \<Rightarrow> ustr list \<Rightarrow> bus_error + ustr list" where
  "check_batch h cid run [] acc = Inr acc"
| "check_batch h cid run ((c, iid, r) # rest) acc =
     (let r' = (case run of Some (c', r0) \<Rightarrow> if c' = c then r0 else r | None \<Rightarrow> r)
      in if \<not> has_item (h r') iid then Inl NoSuchObject
         else if c \<noteq> cid then Inl (invalid_args (lit ''every item must belong to this collection''))
         else check_batch h cid (Some (c, r')) rest (if iid \<in> set acc then acc else acc @ [iid]))"

fun emit_each :: "platform \<Rightarrow> (ustr \<Rightarrow> signal) \<Rightarrow> ustr \<Rightarrow> ustr list \<Rightarrow> daemon \<Rightarrow> unit reply" where
  "emit_each P f cid [] d = (Inr (), d)"
| "emit_each P f cid (iid # rest) d =
     and_then (expect_path (item_path cid iid) d) (\<lambda>p d1.
       and_then (emit P (f p) d1) (\<lambda>_ d2. emit_each P f cid rest d2))"

definition admin_delete_items :: "platform \<Rightarrow> collection_ref \<Rightarrow> ustr list \<Rightarrow> daemon \<Rightarrow> unit reply" where
  "admin_delete_items P target paths d =
     (if length paths > MAX_DELETE_ITEMS
      then (Inl (too_many (lit ''items'') MAX_DELETE_ITEMS (lit '' per call'')), d)
      else and_then (check (collection_id (st d) target) d) (\<lambda>cid d.
        and_then (check (resolve_items (st d) paths) d) (\<lambda>resolved d.
          and_then (check (check_batch (heap d) cid None resolved []) d) (\<lambda>iids d.
            case vault_of (st d) cid of
              None \<Rightarrow> (Inl IsLocked, d)
            | Some r \<Rightarrow>
                if is_locked (heap d r) then (Inl IsLocked, d)
                else if iids = [] then (Inr (), d)
                else and_then (or_bus (on_vault r (delete_items (lib P) (os P) iids) d)) (\<lambda>_ d.
                  emit_each P (ItemDeleted cid) cid iids (remove_items cid iids (touch P d)))))))"

section \<open>Items\<close>

definition with_item :: "daemon \<Rightarrow> ustr \<Rightarrow> ustr \<Rightarrow> item option" where
  "with_item d cid iid =
     (case vault_of (st d) cid of
        None \<Rightarrow> None
      | Some r \<Rightarrow> (case vault_item (heap d r) iid of Inr i \<Rightarrow> Some i | Inl _ \<Rightarrow> None))"

definition item_update ::
  "platform \<Rightarrow> ustr \<Rightarrow> ustr \<Rightarrow> (item \<Rightarrow> item) \<Rightarrow> daemon \<Rightarrow> (fdo_error + unit) \<times> daemon" where
  "item_update P cid iid f d =
     (case vault_of (st d) cid of
        None \<Rightarrow> (Inl (UnknownObject (lit ''no such collection'')), d)
      | Some r \<Rightarrow>
          (case on_vault r (update_item (lib P) (os P) iid f) d of
             (x, d1) \<Rightarrow> (map_err vault_error_to_fdo x, d1)))"

definition item_delete :: "platform \<Rightarrow> ustr \<Rightarrow> ustr \<Rightarrow> daemon \<Rightarrow> ustr reply" where
  "item_delete P cid iid d =
     (case vault_of (st d) cid of
        None \<Rightarrow> (Inl NoSuchObject, d)
      | Some r \<Rightarrow>
          and_then (or_bus (on_vault r (delete_item (lib P) (os P) iid) d)) (\<lambda>_ d.
            and_then (expect_path (item_path cid iid) (touch P d)) (\<lambda>path d.
              and_then (emit P (ItemDeleted cid path) (server_remove path is_item d)) (\<lambda>_ d.
                (Inr root_path, d)))))"

definition get_secret :: "platform \<Rightarrow> ustr \<Rightarrow> ustr \<Rightarrow> ustr \<Rightarrow> ustr option \<Rightarrow> daemon \<Rightarrow> secret_struct reply" where
  "get_secret P cid iid session header d =
     and_then (check (require_sender header) d) (\<lambda>sender d.
       and_then (check (cipher_of (st d) session sender) d) (\<lambda>cipher d.
         case vault_of (st d) cid of
           None \<Rightarrow> (Inl NoSuchObject, d)
         | Some r \<Rightarrow>
             and_then (check (map_err error_from_vault (vault_item (heap d r) iid)) d) (\<lambda>i d.
               case encrypt (slib P) (os P) cipher (it_secret i) (wld d) of
                 (None, w) \<Rightarrow> (Inl Panicked, set_wld w d)
               | (Some (params, v), w) \<Rightarrow>
                   (Inr \<lparr>ss_session = session, ss_parameters = params, ss_value = v,
                         ss_content_type = it_content_type i\<rparr>, touch P (set_wld w d)))))"

definition set_secret :: "platform \<Rightarrow> ustr \<Rightarrow> ustr \<Rightarrow> secret_struct \<Rightarrow> ustr option \<Rightarrow> daemon \<Rightarrow> unit reply" where
  "set_secret P cid iid secret header d =
     and_then (check (fdo (check_content_type (ss_content_type secret))) d) (\<lambda>_ d.
       and_then (check (require_sender header) d) (\<lambda>sender d.
         and_then (check (cipher_of (st d) (ss_session secret) sender) d) (\<lambda>cipher d.
           if length (ss_value secret) > MAX_ITEM_CIPHERTEXT then (Inl secret_too_large, d)
           else case vault_of (st d) cid of
                  None \<Rightarrow> (Inl NoSuchObject, d)
                | Some r \<Rightarrow>
                    and_then (store_secret P cipher secret (\<lambda>plaintext.
                        update_item (lib P) (os P) iid (\<lambda>i. i\<lparr>it_secret := plaintext,
                          it_content_type := ss_content_type secret\<rparr>)) r d) (\<lambda>_ d.
                      and_then (expect_path (item_path cid iid) (touch P d)) (\<lambda>path d.
                        emit P (ItemChanged cid path) d)))))"

definition item_locked :: "daemon \<Rightarrow> ustr \<Rightarrow> ustr \<Rightarrow> bool" where
  "item_locked d cid iid = (with_item d cid iid = None)"

definition item_attributes :: "daemon \<Rightarrow> ustr \<Rightarrow> ustr \<Rightarrow> attrs" where
  "item_attributes d cid iid = (case with_item d cid iid of Some i \<Rightarrow> it_attributes i | None \<Rightarrow> [])"

definition item_label :: "daemon \<Rightarrow> ustr \<Rightarrow> ustr \<Rightarrow> ustr" where
  "item_label d cid iid = (case with_item d cid iid of Some i \<Rightarrow> it_label i | None \<Rightarrow> [])"

definition item_created :: "daemon \<Rightarrow> ustr \<Rightarrow> ustr \<Rightarrow> u64" where
  "item_created d cid iid = (case with_item d cid iid of Some i \<Rightarrow> it_created i | None \<Rightarrow> 0)"

definition item_modified :: "daemon \<Rightarrow> ustr \<Rightarrow> ustr \<Rightarrow> u64" where
  "item_modified d cid iid = (case with_item d cid iid of Some i \<Rightarrow> it_modified i | None \<Rightarrow> 0)"

definition item_set_attributes :: "platform \<Rightarrow> ustr \<Rightarrow> ustr \<Rightarrow> attrs \<Rightarrow> daemon \<Rightarrow> (fdo_error + unit) \<times> daemon" where
  "item_set_attributes P cid iid m d =
     (case check_attributes (length m) m of
        Inl e \<Rightarrow> (Inl e, d)
      | Inr _ \<Rightarrow> item_update P cid iid (\<lambda>i. i\<lparr>it_attributes := collect m\<rparr>) d)"

definition item_set_label :: "platform \<Rightarrow> ustr \<Rightarrow> ustr \<Rightarrow> ustr \<Rightarrow> daemon \<Rightarrow> (fdo_error + unit) \<times> daemon" where
  "item_set_label P cid iid label d =
     (case check_item_label label of
        Inl e \<Rightarrow> (Inl e, d)
      | Inr _ \<Rightarrow> item_update P cid iid (\<lambda>i. i\<lparr>it_label := label\<rparr>) d)"

section \<open>The service\<close>

definition check_object_count :: "nat \<Rightarrow> bus_error + unit" where
  "check_object_count n =
     (if n > MAX_LOCK_OBJECTS then Inl (too_many (lit ''objects'') MAX_LOCK_OBJECTS (lit '' per call'')) else Inr ())"

definition check_alias_name :: "ustr \<Rightarrow> bus_error + unit" where
  "check_alias_name name =
     (if \<not> is_segment name then Inl (invalid_args (lit ''alias names must match [A-Za-z0-9_]+''))
      else if str_len name > MAX_ALIAS_NAME
      then Inl (invalid_args (lit ''alias name too long; at most '' @ show_nat MAX_ALIAS_NAME @ lit '' characters''))
      else Inr ())"

definition check_alias_room :: "attrs \<Rightarrow> ustr \<Rightarrow> bus_error + unit" where
  "check_alias_room table name =
     (if \<not> bt_mem name table \<and> length table \<ge> MAX_ALIASES
      then Inl (failed (lit ''too many aliases; at most '' @ show_nat MAX_ALIASES)) else Inr ())"

text \<open>\<open>group_by_collection\<close>: indices grouped by key, groups in order of first appearance.\<close>

fun add_to_group :: "ustr \<Rightarrow> nat \<Rightarrow> (ustr \<times> nat list) list \<Rightarrow> (ustr \<times> nat list) list" where
  "add_to_group c i [] = [(c, [i])]"
| "add_to_group c i ((c', is) # gs) = (if c = c' then (c', is @ [i]) # gs else (c', is) # add_to_group c i gs)"

fun group_from :: "nat \<Rightarrow> ustr list \<Rightarrow> (ustr \<times> nat list) list \<Rightarrow> (ustr \<times> nat list) list" where
  "group_from i [] gs = gs"
| "group_from i (c # cs) gs = group_from (Suc i) cs (add_to_group c i gs)"

definition group_by_collection :: "ustr list \<Rightarrow> (ustr \<times> nat list) list" where
  "group_by_collection cids = group_from 0 cids []"

definition open_session ::
  "platform \<Rightarrow> ustr \<Rightarrow> variant \<Rightarrow> ustr option \<Rightarrow> daemon \<Rightarrow> (variant \<times> ustr) reply" where
  "open_session P alg input header d =
     and_then (check (require_sender header) d) (\<lambda>owner d.
     and_then (check (check_session_quota (st d) owner) d) (\<lambda>_ d.
     and_then
       (if alg = ALGORITHM_PLAIN then (Inr (Plain, VString []), d)
        else if alg = ALGORITHM_DH
        then (case input of
                VBytes peer \<Rightarrow>
                  (case generate (slib P) (os P) (wld d) of
                     (None, w) \<Rightarrow> (Inl Panicked, set_wld w d)
                   | (Some pair, w) \<Rightarrow>
                       (case from_dh (slib P) pair peer of
                          Inl e \<Rightarrow> (Inl (invalid_args (case e of Dh HkdfError \<Rightarrow> lit ''hkdf expansion failed''
                                     | _ \<Rightarrow> lit ''invalid peer public key'')), set_wld w d)
                        | Inr cipher \<Rightarrow> (Inr (cipher, VBytes (kp_public pair)), set_wld w d)))
              | _ \<Rightarrow> (Inl (invalid_args (lit ''input must be a byte array'')), d))
        else (Inl (not_supported (lit ''unsupported algorithm '' @ [39] @ alg @ [39])), d))
       (\<lambda>(cipher, output) d.
     and_then (check (check_session_quota (st d) owner) d) (\<lambda>_ d.
     and_then (new_session_path P d) (\<lambda>path d.
       let d1 = set_st ((st d)\<lparr>sessions := bt_insert path \<lparr>se_owner = owner, se_cipher = cipher\<rparr> (sessions (st d))\<rparr>) d
       in case server_at P path ISession d1 of
            (Inr _, d2) \<Rightarrow> (Inr (output, path), d2)
          | (Inl e, d2) \<Rightarrow> (Inl e, set_st ((st d2)\<lparr>sessions := bt_remove path (sessions (st d2))\<rparr>) d2))))))"

definition session_close :: "ustr \<Rightarrow> ustr option \<Rightarrow> daemon \<Rightarrow> unit reply" where
  "session_close path header d =
     and_then (check (require_sender header) d) (\<lambda>who d.
       case map_of (sessions (st d)) path of
         Some e \<Rightarrow>
           if se_owner e \<noteq> who then (Inl NoSession, d)
           else (Inr (), server_remove path (\<lambda>i. i = ISession)
                  (set_st ((st d)\<lparr>sessions := bt_remove path (sessions (st d))\<rparr>) d))
       | None \<Rightarrow> (Inl NoSession, d))"

definition service_search_items :: "platform \<Rightarrow> attrs \<Rightarrow> daemon \<Rightarrow> (ustr list \<times> ustr list) reply" where
  "service_search_items P attributes d =
     (if length attributes > MAX_SEARCH_ATTRIBUTES
      then (Inl (too_many (lit ''attributes'') MAX_SEARCH_ATTRIBUTES (lit '' per call'')), d)
      else search_all P (collect attributes) d)"

definition read_alias :: "ustr \<Rightarrow> daemon \<Rightarrow> ustr reply" where
  "read_alias name d =
     (case alias_target (st d) name of
        Inr (Some cid) \<Rightarrow> expect_path (collection_path cid) d
      | Inr None \<Rightarrow> (Inr root_path, d)
      | Inl e \<Rightarrow> (Inl (failed (lit ''alias table is unreadable: '' @ e)), d))"

text \<open>\<open>get_secrets\<close>: resolve and group, read per collection, then encrypt.\<close>

fun add_wanted ::
  "ustr \<Rightarrow> nat \<Rightarrow> (ustr \<times> ustr) \<Rightarrow> (ustr \<times> (ustr \<times> ustr) list \<times> nat) list \<Rightarrow> (ustr \<times> (ustr \<times> ustr) list \<times> nat) list" where
  "add_wanted c r x [] = [(c, [x], r)]"
| "add_wanted c r x ((c', xs, r') # ws) =
     (if c = c' then (c', xs @ [x], r') # ws else (c', xs, r') # add_wanted c r x ws)"

fun group_wanted ::
  "service_state \<Rightarrow> ustr list \<Rightarrow> (ustr \<times> (ustr \<times> ustr) list \<times> nat) list \<Rightarrow> (ustr \<times> (ustr \<times> ustr) list \<times> nat) list" where
  "group_wanted s [] ws = ws"
| "group_wanted s (p # ps) ws =
     (case resolve_path s p of
        Some (PItem cid r iid) \<Rightarrow> group_wanted s ps (add_wanted cid r (p, iid) ws)
      | _ \<Rightarrow> group_wanted s ps ws)"

definition read_wanted :: "(nat \<Rightarrow> vault) \<Rightarrow> (ustr \<times> (ustr \<times> ustr) list \<times> nat) list \<Rightarrow> (ustr \<times> bytes \<times> ustr) list" where
  "read_wanted h ws =
     concat (map (\<lambda>(c, xs, r).
       concat (map (\<lambda>(p, iid). case vault_item (h r) iid of
           Inr i \<Rightarrow> [(p, it_secret i, it_content_type i)] | Inl _ \<Rightarrow> []) xs)) ws)"

fun encrypt_plan ::
  "platform \<Rightarrow> session_cipher \<Rightarrow> ustr \<Rightarrow> (ustr \<times> bytes \<times> ustr) list \<Rightarrow> (ustr \<times> secret_struct) list \<Rightarrow> daemon
   \<Rightarrow> (ustr \<times> secret_struct) list reply" where
  "encrypt_plan P cipher session [] out d = (Inr out, d)"
| "encrypt_plan P cipher session ((p, secret, ct) # rest) out d =
     (case encrypt (slib P) (os P) cipher secret (wld d) of
        (None, w) \<Rightarrow> (Inl Panicked, set_wld w d)
      | (Some (params, v), w) \<Rightarrow>
          encrypt_plan P cipher session rest
            (bt_insert p \<lparr>ss_session = session, ss_parameters = params, ss_value = v, ss_content_type = ct\<rparr> out)
            (set_wld w d))"

definition get_secrets ::
  "platform \<Rightarrow> ustr list \<Rightarrow> ustr \<Rightarrow> ustr option \<Rightarrow> daemon \<Rightarrow> (ustr \<times> secret_struct) list reply" where
  "get_secrets P paths session header d =
     (if length paths > MAX_GET_SECRETS_ITEMS
      then (Inl (too_many (lit ''items'') MAX_GET_SECRETS_ITEMS (lit '' per call'')), d)
      else and_then (check (require_sender header) d) (\<lambda>sender d.
        and_then (check (cipher_of (st d) session sender) d) (\<lambda>cipher d.
          let d1 = touch P d;
              wanted = group_wanted (st d1) paths []
          in encrypt_plan P cipher session (read_wanted (heap d1) wanted) [] d1)))"

text \<open>The edit \<open>set_alias\<close> hands to \<open>update_aliases\<close>.\<close>

definition set_alias_edit :: "service_state \<Rightarrow> ustr \<Rightarrow> ustr \<Rightarrow> attrs \<Rightarrow> bus_error + attrs" where
  "set_alias_edit s name collection table =
     (if collection = root_path then Inr (bt_remove name table)
      else case resolve_collection s collection of
             None \<Rightarrow> Inl NoSuchObject
           | Some cid \<Rightarrow>
               (case check_alias_room table name of
                  Inl e \<Rightarrow> Inl e
                | Inr _ \<Rightarrow> Inr (bt_insert name cid table)))"

text \<open>\<open>update_aliases\<close> on the daemon, with no other writer in between.\<close>

definition daemon_update_aliases ::
  "platform \<Rightarrow> on_write_error \<Rightarrow> (service_state \<Rightarrow> attrs \<Rightarrow> 'e + attrs) \<Rightarrow> daemon \<Rightarrow> 'e alias_update \<times> daemon" where
  "daemon_update_aliases P mode edit d =
     (case update_aliases (toml P) (os P) (vault_dir (st d)) mode (edit (st d)) (aliases (st d)) (wld d) of
        (r, t, w) \<Rightarrow> (r, set_wld w (set_st ((st d)\<lparr>aliases := t\<rparr>) d)))"

definition show_alias_io :: "platform \<Rightarrow> alias_io \<Rightarrow> ustr" where
  "show_alias_io P e = (case e of InvalidData m \<Rightarrow> m | AliasIo x \<Rightarrow> show_io_error P x)"

definition set_alias :: "platform \<Rightarrow> ustr \<Rightarrow> ustr \<Rightarrow> daemon \<Rightarrow> unit reply" where
  "set_alias P name collection d =
     and_then (check (check_alias_name name) d) (\<lambda>_ d.
       case daemon_update_aliases P Refuse (\<lambda>s. set_alias_edit s name collection) d of
         (Committed, d1) \<Rightarrow>
           if collection = root_path then (Inr (), unregister_alias name d1) else register_alias P name d1
       | (Rejected e, d1) \<Rightarrow> (Inl e, d1)
       | (Unusable e, d1) \<Rightarrow>
           (Inl (failed (lit ''alias table is unreadable ('' @ e @ lit ''); refusing to replace it'')), d1)
       | (NotWritten e, d1) \<Rightarrow> (Inl (failed (show_alias_io P e)), d1))"

record pending =
  pd_path :: ustr
  pd_cid :: ustr
  pd_vault :: "nat option"
  pd_item :: "ustr option"

fun pending_of :: "ustr \<Rightarrow> path_target \<Rightarrow> pending" where
  "pending_of p (PBroken cid) = \<lparr>pd_path = p, pd_cid = cid, pd_vault = None, pd_item = None\<rparr>"
| "pending_of p (PCollection cid r) = \<lparr>pd_path = p, pd_cid = cid, pd_vault = Some r, pd_item = None\<rparr>"
| "pending_of p (PItem cid r i) = \<lparr>pd_path = p, pd_cid = cid, pd_vault = Some r, pd_item = Some i\<rparr>"

definition pending_list :: "service_state \<Rightarrow> ustr list \<Rightarrow> pending list" where
  "pending_list s objects =
     concat (map (\<lambda>p. case resolve_path s p of Some t \<Rightarrow> [pending_of p t] | None \<Rightarrow> []) objects)"

text \<open>One group's verdicts, with the vault the group's first element resolved to.\<close>

definition group_verdicts :: "(nat \<Rightarrow> vault) \<Rightarrow> pending list \<Rightarrow> nat list \<Rightarrow> bool option list \<Rightarrow> bool option list" where
  "group_verdicts h pend is verdict =
     (case pd_vault (pend ! hd is) of
        None \<Rightarrow> fold (\<lambda>i vs. vs[i := Some True]) is verdict
      | Some r \<Rightarrow>
          fold (\<lambda>i vs. case pd_item (pend ! i) of
                  Some iid \<Rightarrow> if has_item (h r) iid then vs[i := Some (is_locked (h r))] else vs
                | None \<Rightarrow> vs[i := Some (is_locked (h r))]) is verdict)"

definition verdicts :: "(nat \<Rightarrow> vault) \<Rightarrow> pending list \<Rightarrow> bool option list" where
  "verdicts h pend =
     fold (\<lambda>(c, is) vs. group_verdicts h pend is vs) (group_by_collection (map pd_cid pend))
       (replicate (length pend) None)"

fun split_verdicts ::
  "(pending \<times> bool option) list \<Rightarrow> ustr list \<Rightarrow> ustr list \<Rightarrow> ustr list \<Rightarrow> ustr list \<times> ustr list \<times> ustr list" where
  "split_verdicts [] unlocked colls requested = (unlocked, colls, requested)"
| "split_verdicts ((p, v) # rest) unlocked colls requested =
     (case v of
        None \<Rightarrow> split_verdicts rest unlocked colls requested
      | Some locked \<Rightarrow>
          if \<not> locked then split_verdicts rest (unlocked @ [pd_path p]) colls requested
          else split_verdicts rest unlocked
                 (if pd_cid p \<in> set colls then colls else colls @ [pd_cid p]) (requested @ [pd_path p]))"

definition service_unlock :: "platform \<Rightarrow> ustr list \<Rightarrow> ustr option \<Rightarrow> daemon \<Rightarrow> (ustr list \<times> ustr) reply" where
  "service_unlock P objects header d =
     and_then (check (check_object_count (length objects)) d) (\<lambda>_ d.
       and_then (check (require_sender header) d) (\<lambda>owner d.
         let pend = pending_list (st d) objects
         in case split_verdicts (zip pend (verdicts (heap d) pend)) [] [] [] of
              (unlocked, colls, requested) \<Rightarrow>
                if colls = [] then (Inr (unlocked, root_path), d)
                else and_then (new_prompt P owner (PromptUnlock colls requested) d) (\<lambda>path d.
                  (Inr (unlocked, path), d))))"

definition lock_group :: "pending list \<Rightarrow> (ustr \<times> nat list) \<Rightarrow> (bool list \<times> ustr list) \<times> daemon \<Rightarrow> (bool list \<times> ustr list) \<times> daemon" where
  "lock_group pend g acc =
     (case acc of ((answered, changed), d) \<Rightarrow>
        (case pd_vault (pend ! hd (snd g)) of
           None \<Rightarrow> acc
         | Some r \<Rightarrow>
             let hit = filter (\<lambda>i. case pd_item (pend ! i) of Some iid \<Rightarrow> has_item (heap d r) iid | None \<Rightarrow> True) (snd g);
                 answered1 = fold (\<lambda>i vs. vs[i := True]) hit answered
             in if hit \<noteq> [] \<and> \<not> is_locked (heap d r)
                then ((answered1, changed @ [fst g]), set_vault r lock d)
                else ((answered1, changed), d)))"

definition service_lock :: "platform \<Rightarrow> ustr list \<Rightarrow> daemon \<Rightarrow> (ustr list \<times> ustr) reply" where
  "service_lock P objects d =
     and_then (check (check_object_count (length objects)) d) (\<lambda>_ d.
       let pend = filter (\<lambda>p. pd_vault p \<noteq> None) (pending_list (st d) objects)
       in case fold (lock_group pend) (group_by_collection (map pd_cid pend)) ((replicate (length pend) False, []), d) of
            ((answered, changed), d1) \<Rightarrow>
              (Inr (map (pd_path \<circ> fst) (filter snd (zip pend answered)), root_path),
               fold (notify_collection_changed P) changed d1))"

definition COLLECTION_LABEL_KEY :: ustr where "COLLECTION_LABEL_KEY = lit ''org.freedesktop.Secret.Collection.Label''"

definition service_create_collection ::
  "platform \<Rightarrow> (ustr \<times> variant) list \<Rightarrow> ustr \<Rightarrow> ustr option \<Rightarrow> daemon \<Rightarrow> (ustr \<times> ustr) reply" where
  "service_create_collection P properties name header d =
     and_then (check (prop_string properties COLLECTION_LABEL_KEY) d) (\<lambda>label_opt d.
       let label = (case label_opt of Some l \<Rightarrow> l | None \<Rightarrow> lit ''Unnamed'')
       in if str_len label > MAX_LABEL
          then (Inl (invalid_args (lit ''label is too large; at most '' @ show_nat MAX_LABEL @ lit '' bytes'')), d)
          else and_then (check (if name = [] then Inr () else check_alias_name name) d) (\<lambda>_ d.
            case (if name = [] then Inr None else alias_target (st d) name) of
              Inl e \<Rightarrow> (Inl (failed (lit ''alias table is unreadable ('' @ e
                         @ lit ''); cannot tell whether that alias is already taken'')), d)
            | Inr (Some existing) \<Rightarrow>
                and_then (expect_path (collection_path existing) d) (\<lambda>p d. (Inr (p, root_path), d))
            | Inr None \<Rightarrow>
                and_then (check (require_sender header) d) (\<lambda>owner d.
                  and_then (new_prompt P owner (PromptCreate label (if name = [] then None else Some name)) d)
                    (\<lambda>path d. (Inr (root_path, path), d)))))"

definition service_collections :: "daemon \<Rightarrow> ustr option list" where
  "service_collections d = map collection_path (map fst (collections (st d)) @ map fst (broken (st d)))"

end
