(* ===== verification/Prompts.thy ===== *)
theory Prompts
  imports Bus_Objects
begin

text \<open>
  Prompts (\<open>src/dbus/prompt.rs\<close>): the calls that start and dismiss one, the
  task behind it, and what each kind of prompt does. While a task waits for a
  dialog or a key derivation, everything else in the daemon goes on: that is the
  function \<open>other\<close>, which may do anything to the daemon at such a point, abort
  the waiting task included. The theorems hold for every \<open>other\<close>.
\<close>

section \<open>Waiting\<close>

type_synonym interference = "nat \<Rightarrow> daemon \<Rightarrow> daemon"

text \<open>A task that was aborted stops at its next waiting point: \<open>Inl ()\<close>.\<close>

definition alive :: "nat \<Rightarrow> daemon \<Rightarrow> bool" where
  "alive tid d \<longleftrightarrow> map_of (tasks d) tid \<noteq> None"

definition await :: "interference \<Rightarrow> nat \<Rightarrow> daemon \<Rightarrow> (unit + nat) \<times> daemon" where
  "await other tid d =
     (let t = tick (wld d); d1 = other t (set_wld (next_tick (wld d)) d)
      in if alive tid d1 then (Inr t, d1) else (Inl (), d1))"

definition claim :: "ustr \<Rightarrow> daemon \<Rightarrow> bool \<times> daemon" where
  "claim path d =
     (let p = prompts d path
      in if pr_committed p then (False, d)
         else (True, d\<lparr>prompts := (prompts d)(path := p\<lparr>pr_committed := True\<rparr>)\<rparr>))"

definition release_gate :: "ustr \<Rightarrow> daemon \<Rightarrow> daemon" where
  "release_gate path d = d\<lparr>prompts := (prompts d)(path := (prompts d path)\<lparr>pr_committed := False\<rparr>)\<rparr>"

definition owner_present :: "ustr \<Rightarrow> daemon \<Rightarrow> bool" where
  "owner_present path d = bt_mem path (prompt_owners (st d))"

section \<open>Unlocking\<close>

datatype outcome_kind = OUnlocked | OAlreadyUnlocked | OFailed | OCancelled | OBusy

definition still_loaded :: "daemon \<Rightarrow> ustr \<Rightarrow> nat \<Rightarrow> bool" where
  "still_loaded d cid r = (vault_of (st d) cid = Some r)"

text \<open>\<open>prompt_unlocked.entry(path).or_default().push(id)\<close> and its undo.\<close>

definition push_unlocked :: "ustr \<Rightarrow> ustr \<Rightarrow> daemon \<Rightarrow> daemon" where
  "push_unlocked path cid d =
     (let old = (case map_of (prompt_unlocked (st d)) path of Some ids \<Rightarrow> ids | None \<Rightarrow> [])
      in set_st ((st d)\<lparr>prompt_unlocked := bt_insert path (old @ [cid]) (prompt_unlocked (st d))\<rparr>) d)"

definition remove_last :: "ustr \<Rightarrow> ustr list \<Rightarrow> ustr list" where
  "remove_last x xs =
     (case position (\<lambda>y. y = x) (rev xs) of None \<Rightarrow> xs | Some i \<Rightarrow> rev (vec_remove i (rev xs)))"

definition drop_unlocked :: "ustr \<Rightarrow> ustr \<Rightarrow> daemon \<Rightarrow> daemon" where
  "drop_unlocked path cid d =
     (case map_of (prompt_unlocked (st d)) path of
        None \<Rightarrow> d
      | Some ids \<Rightarrow>
          let ids1 = remove_last cid ids
          in set_st ((st d)\<lparr>prompt_unlocked :=
               (if ids1 = [] then bt_remove path (prompt_unlocked (st d))
                else bt_insert path ids1 (prompt_unlocked (st d)))\<rparr>) d)"

text \<open>The three attempts; \<open>gate\<close> says whether the commit gate is still to be claimed.\<close>

fun unlock_attempts ::
  "platform \<Rightarrow> interference \<Rightarrow> nat \<Rightarrow> ustr \<Rightarrow> ustr \<Rightarrow> nat \<Rightarrow> nat \<Rightarrow> bool \<Rightarrow> daemon \<Rightarrow> (unit + outcome_kind) \<times> daemon" where
  "unlock_attempts P other tid path cid r 0 gate d = (Inr OFailed, d)"
| "unlock_attempts P other tid path cid r (Suc n) gate d =
     and_then (await other tid d) (\<lambda>t d.
       case pin_ask P t of
         Inl PinBusy \<Rightarrow> (Inr OBusy, d)
       | Inl (PinFailed _) \<Rightarrow> (Inr OFailed, d)
       | Inr None \<Rightarrow> (Inr OCancelled, d)
       | Inr (Some pin) \<Rightarrow>
           (case (if gate then claim path d else (True, d)) of
              (False, d) \<Rightarrow> (Inr OCancelled, d)
            | (True, d) \<Rightarrow>
                if \<not> still_loaded d cid r then (Inr OFailed, d)
                else let h = v_header (heap d r)
                     in and_then (await other tid d) (\<lambda>_ d.
                          case derive_key (lib P) pin (h_salt h) (h_kdf h) of
                            Inl _ \<Rightarrow> (Inr OFailed, d)
                          | Inr k \<Rightarrow>
                              if \<not> still_loaded d cid r then (Inr OFailed, d)
                              else (case on_vault r (unlock_with_key (lib P) (os P) k) (push_unlocked path cid d) of
                                      (Inr _, d) \<Rightarrow> (Inr OUnlocked, notify_collection_changed P cid (touch P d))
                                    | (Inl e, d) \<Rightarrow>
                                        if e = WrongPassword
                                        then unlock_attempts P other tid path cid r n False (drop_unlocked path cid d)
                                        else (Inr OFailed, drop_unlocked path cid d)))))"

definition unlock_collection_inner ::
  "platform \<Rightarrow> interference \<Rightarrow> nat \<Rightarrow> ustr \<Rightarrow> ustr \<Rightarrow> daemon \<Rightarrow> (unit + outcome_kind) \<times> daemon" where
  "unlock_collection_inner P other tid path cid d =
     (if broken_error (st d) cid \<noteq> None then (Inr OFailed, d)
      else case vault_of (st d) cid of
             None \<Rightarrow> (Inr OFailed, d)
           | Some r \<Rightarrow>
               if \<not> is_locked (heap d r) then (Inr OAlreadyUnlocked, d)
               else and_then (await other tid d) (\<lambda>t d.
                 case pin_session P t of
                   Some PinBusy \<Rightarrow> (Inr OBusy, d)
                 | Some (PinFailed _) \<Rightarrow> (Inr OFailed, d)
                 | None \<Rightarrow> unlock_attempts P other tid path cid r 3 True d))"

text \<open>The loop over the collections of one prompt.\<close>

fun unlock_loop ::
  "platform \<Rightarrow> interference \<Rightarrow> nat \<Rightarrow> ustr \<Rightarrow> ustr list \<Rightarrow> bool \<Rightarrow> ustr list \<Rightarrow> daemon
   \<Rightarrow> (unit + (bool \<times> ustr list)) \<times> daemon" where
  "unlock_loop P other tid path [] any mine d = (Inr (any, mine), d)"
| "unlock_loop P other tid path (cid # rest) any mine d =
     (let d = release_gate path d
      in if pr_cancelled (prompts d path) \<or> \<not> owner_present path d then (Inr (any, mine), d)
         else and_then (unlock_collection_inner P other tid path cid d) (\<lambda>out d.
           case out of
             OUnlocked \<Rightarrow> unlock_loop P other tid path rest True (mine @ [cid]) d
           | OAlreadyUnlocked \<Rightarrow> unlock_loop P other tid path rest True mine d
           | OFailed \<Rightarrow> unlock_loop P other tid path rest any mine d
           | OCancelled \<Rightarrow> (Inr (any, mine), d)
           | OBusy \<Rightarrow> (Inr (any, mine), d)))"

fun relock_all :: "platform \<Rightarrow> (ustr \<times> nat option) list \<Rightarrow> daemon \<Rightarrow> daemon" where
  "relock_all P [] d = d"
| "relock_all P ((cid, r) # rest) d =
     relock_all P rest (notify_collection_changed P cid (case r of Some v \<Rightarrow> set_vault v lock d | None \<Rightarrow> d))"

definition run_unlock ::
  "platform \<Rightarrow> interference \<Rightarrow> nat \<Rightarrow> ustr \<Rightarrow> ustr list \<Rightarrow> ustr list \<Rightarrow> daemon \<Rightarrow> (unit + (bool \<times> ustr list)) \<times> daemon" where
  "run_unlock P other tid path colls requested d =
     and_then (unlock_loop P other tid path colls False [] d) (\<lambda>(any, mine) d.
       if \<not> owner_present path d
       then let vaults = map (\<lambda>cid. (cid, vault_of (st d) cid)) mine;
                d1 = set_st ((st d)\<lparr>prompt_unlocked := bt_remove path (prompt_unlocked (st d))\<rparr>) d
            in (Inr (True, []), relock_all P vaults d1)
       else if \<not> any then (Inr (True, []), d)
       else (Inr (False, filter (is_unlocked_path d) requested), d))"

section \<open>Creating a collection\<close>

definition NAME_ATTEMPTS :: nat where "NAME_ATTEMPTS = 3"

text \<open>The naming loop: \<open>n\<close> attempts are left.\<close>

fun create_attempts ::
  "platform \<Rightarrow> interference \<Rightarrow> nat \<Rightarrow> ustr \<Rightarrow> bytes \<Rightarrow> nat \<Rightarrow> daemon \<Rightarrow> (unit + (ustr \<times> vault) option) \<times> daemon" where
  "create_attempts P other tid label pin 0 d = (Inr None, d)"
| "create_attempts P other tid label pin (Suc n) d =
     (let dir = vault_dir (st d); kdf = st_kdf (st d)
      in case unique_collection_id_in (os P) dir (loaded_ids (st d)) label (wld d) of
           (cid, w) \<Rightarrow>
             and_then (await other tid (set_wld w d)) (\<lambda>_ d.
               case create (lib P) (os P) (vault_file_path dir cid) label pin kdf (wld d) of
                 (Inr v, w) \<Rightarrow> (Inr (Some (cid, v)), set_wld w d)
               | (Inl (AlreadyExists _), w) \<Rightarrow>
                   if n = 0 then (Inr None, set_wld w d)
                   else create_attempts P other tid label pin n (set_wld w d)
               | (Inl _, w) \<Rightarrow> (Inr None, set_wld w d)))"

definition create_alias_edit :: "ustr \<Rightarrow> ustr \<Rightarrow> attrs \<Rightarrow> bus_error + attrs" where
  "create_alias_edit name cid table =
     (case check_alias_room table name of Inl e \<Rightarrow> Inl e | Inr _ \<Rightarrow> Inr (bt_insert name cid table))"

text \<open>The alias of a new collection, when it was recorded.\<close>

definition record_alias :: "platform \<Rightarrow> ustr option \<Rightarrow> ustr \<Rightarrow> daemon \<Rightarrow> ustr option \<times> daemon" where
  "record_alias P name cid d =
     (case name of
        None \<Rightarrow> (None, d)
      | Some a \<Rightarrow>
          (case daemon_update_aliases P Keep (\<lambda>_. create_alias_edit a cid) d of
             (Committed, d1) \<Rightarrow> (Some a, d1)
           | (NotWritten _, d1) \<Rightarrow> (Some a, d1)
           | (_, d1) \<Rightarrow> (None, d1)))"

text \<open>What follows a successful creation: the collection is entered, named, exported and announced.\<close>

definition announce_collection :: "platform \<Rightarrow> ustr \<Rightarrow> ustr option \<Rightarrow> daemon \<Rightarrow> (unit + ustr option) \<times> daemon" where
  "announce_collection P cid recorded d =
     (let d1 = snd (register_collection P cid d);
          d2 = (case recorded of Some a \<Rightarrow> snd (register_alias P a d1) | None \<Rightarrow> d1);
          d3 = notify_collections_changed P d2
      in case collection_path cid of
           None \<Rightarrow> (Inl (), d3)
         | Some p \<Rightarrow> (Inr (Some p), try_emit P (CollectionCreated p) d3))"

definition enter_collection :: "platform \<Rightarrow> ustr \<Rightarrow> vault \<Rightarrow> ustr option \<Rightarrow> daemon \<Rightarrow> (unit + ustr option) \<times> daemon" where
  "enter_collection P cid v name d =
     (case vault_ref (set_index_attributes (st_index_attributes (st d)) v) d of
        (r, d1) \<Rightarrow>
          (case record_alias P name cid (set_st ((st d1)\<lparr>collections := bt_insert cid r (collections (st d1))\<rparr>) d1) of
             (recorded, d2) \<Rightarrow> announce_collection P cid recorded d2))"

definition create_collection ::
  "platform \<Rightarrow> interference \<Rightarrow> nat \<Rightarrow> ustr \<Rightarrow> ustr \<Rightarrow> ustr option \<Rightarrow> daemon \<Rightarrow> (unit + ustr option) \<times> daemon" where
  "create_collection P other tid path label name d =
     (if pr_cancelled (prompts d path) then (Inr None, d)
      else and_then (await other tid d) (\<lambda>t d.
        case pin_ask P t of
          Inl _ \<Rightarrow> (Inr None, d)
        | Inr None \<Rightarrow> (Inr None, d)
        | Inr (Some pin) \<Rightarrow>
            if pin = [] \<or> pr_cancelled (prompts d path) then (Inr None, d)
            else (case claim path d of
                    (False, d) \<Rightarrow> (Inr None, d)
                  | (True, d) \<Rightarrow>
                      and_then (create_attempts P other tid label pin NAME_ATTEMPTS d) (\<lambda>made d.
                        case made of
                          None \<Rightarrow> (Inr None, d)
                        | Some (cid, v) \<Rightarrow> enter_collection P cid v name d))))"

section \<open>Deleting a collection\<close>

text \<open>\<open>std::fs::remove_file\<close>\<close>

definition remove_file :: "platform \<Rightarrow> path \<Rightarrow> daemon \<Rightarrow> bool \<times> daemon" where
  "remove_file P p d = (case sys_unlink (os P) p (wld d) of (x, w) \<Rightarrow> (is_ok x, set_wld w d))"

definition purge_alias_edit :: "ustr \<Rightarrow> attrs \<Rightarrow> unit + attrs" where
  "purge_alias_edit cid table = Inr (filter (\<lambda>e. snd e \<noteq> cid) table)"

text \<open>What a confirmed delete does, with the reference taken before the dialog.\<close>

definition delete_confirmed :: "platform \<Rightarrow> ustr \<Rightarrow> nat \<Rightarrow> daemon \<Rightarrow> ustr option \<times> daemon" where
  "delete_confirmed P cid r d =
     (if is_locked (heap d r) then (None, d)
      else case remove_file P (v_path (heap d r)) (set_vault r retire d) of
             (False, d) \<Rightarrow> (None, set_vault r unretire d)
           | (True, d) \<Rightarrow>
               let iids = item_ids (heap d r);
                   d = set_st ((st d)\<lparr>collections := bt_remove cid (collections (st d))\<rparr>) d;
                   d = snd (daemon_update_aliases P Keep (\<lambda>_. purge_alias_edit cid) d);
                   d = notify_collections_changed P (unregister_collection cid iids d)
               in case collection_path cid of
                    None \<Rightarrow> (None, d)
                  | Some p \<Rightarrow> (Some p, try_emit P (CollectionDeleted p) d))"

definition delete_collection ::
  "platform \<Rightarrow> interference \<Rightarrow> nat \<Rightarrow> ustr \<Rightarrow> ustr \<Rightarrow> daemon \<Rightarrow> (unit + ustr option) \<times> daemon" where
  "delete_collection P other tid path cid d =
     (case vault_of (st d) cid of
        None \<Rightarrow> (Inr None, d)
      | Some r \<Rightarrow>
          if pr_cancelled (prompts d path) then (Inr None, d)
          else and_then (await other tid d) (\<lambda>t d.
            let confirmed = (case pin_confirm P t of Inr ok \<Rightarrow> ok | Inl _ \<Rightarrow> False)
            in if \<not> confirmed \<or> pr_cancelled (prompts d path) then (Inr None, d)
               else (case claim path d of
                       (False, d) \<Rightarrow> (Inr None, d)
                     | (True, d) \<Rightarrow> (case delete_confirmed P cid r d of (x, d) \<Rightarrow> (Inr x, d)))))"

section \<open>The task and the calls\<close>

definition run ::
  "platform \<Rightarrow> interference \<Rightarrow> nat \<Rightarrow> ustr \<Rightarrow> prompt_action \<Rightarrow> daemon \<Rightarrow> (unit + (bool \<times> ustr list)) \<times> daemon" where
  "run P other tid path action d =
     (case action of
        PromptUnlock colls requested \<Rightarrow> run_unlock P other tid path colls requested d
      | PromptCreate label name \<Rightarrow>
          and_then (create_collection P other tid path label name d) (\<lambda>x d.
            (Inr (case x of Some p \<Rightarrow> (False, [p]) | None \<Rightarrow> (True, [root_path])), d))
      | PromptDelete cid \<Rightarrow>
          and_then (delete_collection P other tid path cid d) (\<lambda>x d.
            (Inr (case x of Some p \<Rightarrow> (False, [p]) | None \<Rightarrow> (True, [root_path])), d)))"

definition finish :: "platform \<Rightarrow> ustr \<Rightarrow> bool \<Rightarrow> ustr list \<Rightarrow> daemon \<Rightarrow> daemon" where
  "finish P path dismissed result d =
     (let already_done = \<not> bt_mem path (prompt_owners (st d));
          d1 = set_st ((st d)\<lparr>prompt_tasks := bt_remove path (prompt_tasks (st d)),
                              prompt_commits := bt_remove path (prompt_commits (st d)),
                              prompt_unlocked := bt_remove path (prompt_unlocked (st d)),
                              prompt_owners := bt_remove path (prompt_owners (st d))\<rparr>) d
      in if already_done then d1
         else server_remove path (\<lambda>i. i = IPrompt) (try_emit P (Completed path dismissed result) d1))"

definition end_task :: "nat \<Rightarrow> daemon \<Rightarrow> daemon" where
  "end_task tid d = d\<lparr>tasks := bt_remove tid (tasks d)\<rparr>"

text \<open>The spawned future: run, then finish. An aborted one does neither from there on.\<close>

definition prompt_task :: "platform \<Rightarrow> interference \<Rightarrow> nat \<Rightarrow> daemon \<Rightarrow> daemon" where
  "prompt_task P other tid d =
     (case map_of (tasks d) tid of
        None \<Rightarrow> d
      | Some (path, action) \<Rightarrow>
          (case run P other tid path action d of
             (Inl _, d1) \<Rightarrow> end_task tid d1
           | (Inr (dismissed, result), d1) \<Rightarrow> end_task tid (finish P path dismissed result d1)))"

definition check_owner :: "ustr \<Rightarrow> ustr option \<Rightarrow> daemon \<Rightarrow> unit reply" where
  "check_owner path header d =
     and_then (check (require_sender header) d) (\<lambda>who d.
       if map_of (prompt_owners (st d)) path = Some who then (Inr (), d) else (Inl NoSuchObject, d))"

definition prompt_call :: "ustr \<Rightarrow> ustr option \<Rightarrow> daemon \<Rightarrow> unit reply" where
  "prompt_call path header d =
     and_then (check_owner path header d) (\<lambda>_ d.
       case pr_action (prompts d path) of
         None \<Rightarrow> (Inl (failed (lit ''prompt already performed'')), d)
       | Some action \<Rightarrow>
           let tid = next_task d;
               d1 = d\<lparr>prompts := (prompts d)(path := (prompts d path)\<lparr>pr_action := None\<rparr>),
                     tasks := bt_insert tid (path, action) (tasks d), next_task := Suc tid\<rparr>
           in (Inr (), set_st ((st d1)\<lparr>prompt_tasks := bt_insert path tid (prompt_tasks (st d1)),
                                       prompt_commits := bt_insert path path (prompt_commits (st d1))\<rparr>) d1))"

definition dismissed_result :: "prompt_kind \<Rightarrow> ustr list" where
  "dismissed_result k = (case k of KUnlock \<Rightarrow> [] | _ \<Rightarrow> [root_path])"

definition prompt_dismiss :: "platform \<Rightarrow> ustr \<Rightarrow> ustr option \<Rightarrow> daemon \<Rightarrow> unit reply" where
  "prompt_dismiss P path header d =
     and_then (check_owner path header d) (\<lambda>_ d.
       let d1 = d\<lparr>prompts := (prompts d)(path := (prompts d path)\<lparr>pr_action := None, pr_cancelled := True\<rparr>)\<rparr>
       in case claim path d1 of
            (False, d2) \<Rightarrow> (Inr (), d2)
          | (True, d2) \<Rightarrow>
              let handle = map_of (prompt_tasks (st d2)) path;
                  d3 = set_st ((st d2)\<lparr>prompt_tasks := bt_remove path (prompt_tasks (st d2))\<rparr>) d2;
                  d4 = (case handle of Some tid \<Rightarrow> end_task tid d3 | None \<Rightarrow> d3)
              in (Inr (), finish P path True (dismissed_result (pr_kind (prompts d4 path))) d4))"

end
