(* ===== verification/Control_Server.thy ===== *)
theory Control_Server
  imports Protocol Session Vault_Files
begin

text \<open>
  The control socket's server (\<open>src/control/server.rs\<close>): binding the socket, the
  accept loop with its connection slots and backoff, who may connect, and one
  connection from its request to its response. The loop is a step relation,
  because connections are served by spawned tasks that end in any order. A
  handler is the list of stretches it goes through, each with the state after
  it: \<open>tokio::time::timeout\<close> can end it while it waits and not while it works.
  Times are in nanoseconds.
\<close>

section \<open>Limits\<close>

definition CONNECTION_TIMEOUT :: nat where "CONNECTION_TIMEOUT = 5 * 1000000000"
definition MAX_CONNECTIONS :: nat where "MAX_CONNECTIONS = 16"
definition HANDLER_TIMEOUT :: nat where "HANDLER_TIMEOUT = 120 * 1000000000"
definition ACCEPT_BACKOFF_START :: nat where "ACCEPT_BACKOFF_START = 100 * 1000000"
definition ACCEPT_BACKOFF_MAX :: nat where "ACCEPT_BACKOFF_MAX = 1000000000"

section \<open>Binding\<close>

definition MODE_SOCKET :: nat where "MODE_SOCKET = 384"

text \<open>\<open>bind(2)\<close> on a socket address: a new socket file, with the bits the umask leaves.\<close>

definition sys_bind :: "env \<Rightarrow> nat \<Rightarrow> path \<Rightarrow> world \<Rightarrow> (errno + unit) \<times> world" where
  "sys_bind E umask_bits p w =
     (case fault E (tick w) of
        Some e \<Rightarrow> (Inl e, next_tick w)
      | None \<Rightarrow>
          if map_of (fs w) p \<noteq> None \<or> map_of (dirs w) p \<noteq> None then (Inl (Errno 98), next_tick w)
          else if map_of (dirs w) (parent_or_dot p) = None then (Inl ENOENT, next_tick w)
          else (Inr (), set_fs (AList.update p
                 \<lparr>f_bytes = [], f_mode = umask_bits, f_mtime = clock E (tick w), f_regular = False\<rparr> (fs w))
                 (next_tick w)))"

definition sys_chmod :: "env \<Rightarrow> path \<Rightarrow> nat \<Rightarrow> world \<Rightarrow> (errno + unit) \<times> world" where
  "sys_chmod E p mode w =
     (case fault E (tick w) of
        Some e \<Rightarrow> (Inl e, next_tick w)
      | None \<Rightarrow>
          (case map_of (fs w) p of
             None \<Rightarrow> (Inl ENOENT, next_tick w)
           | Some node \<Rightarrow> (Inr (), set_fs (AList.update p (node\<lparr>f_mode := mode\<rparr>) (fs w)) (next_tick w))))"

text \<open>The private directory: created with mode 0700, and set to it when it was there before.\<close>

definition private_dir :: "env \<Rightarrow> path \<Rightarrow> world \<Rightarrow> (errno + unit) \<times> world" where
  "private_dir E dir w =
     (case fault E (tick w) of
        Some e \<Rightarrow> (Inl e, next_tick w)
      | None \<Rightarrow>
          if map_of (fs w) dir \<noteq> None then (Inl EEXIST, next_tick w)
          else let w1 = (next_tick w)\<lparr>dirs := foldl add_dir (dirs w) (prefixes dir)\<rparr>
               in case fault E (tick w1) of
                    Some e \<Rightarrow> (Inl e, next_tick w1)
                  | None \<Rightarrow> (Inr (), next_tick (w1\<lparr>dirs := AList.update dir MODE_DIR (dirs w1)\<rparr>)))"

definition staging_name :: "bytes \<Rightarrow> ustr" where
  "staging_name suf = lit ''.control.'' @ concat (map (\<lambda>b. hex_byte (unat b)) suf) @ lit ''.sock''"

datatype bind_error = NoParent | BindIo errno | RandomPanic

text \<open>The probe for a squatter only decides a log line; it is one effect here.\<close>

definition bind_with_timeouts :: "env \<Rightarrow> nat \<Rightarrow> path \<Rightarrow> world \<Rightarrow> (bind_error + unit) \<times> world" where
  "bind_with_timeouts E umask_bits p w =
     (case parent p of
        None \<Rightarrow> (Inl NoParent, w)
      | Some dir \<Rightarrow>
          (case private_dir E dir w of
             (Inl e, w1) \<Rightarrow> (Inl (BindIo e), w1)
           | (Inr _, w1) \<Rightarrow>
               (case random_bytes E 8 (next_tick w1) of
                  (None, w2) \<Rightarrow> (Inl RandomPanic, w2)
                | (Some suf, w2) \<Rightarrow>
                    let staging = dir @ [staging_name suf];
                        w3 = snd (sys_unlink E staging w2)
                    in case sys_bind E umask_bits staging w3 of
                         (Inl e, w4) \<Rightarrow> (Inl (BindIo e), w4)
                       | (Inr _, w4) \<Rightarrow>
                           (case sys_chmod E staging MODE_SOCKET w4 of
                              (Inl e, w5) \<Rightarrow> (Inl (BindIo e), w5)
                            | (Inr _, w5) \<Rightarrow>
                                (case sys_rename E staging p w5 of
                                   (Inl e, w6) \<Rightarrow> (Inl (BindIo e), snd (sys_unlink E staging w6))
                                 | (Inr _, w6) \<Rightarrow> (Inr (), w6))))))"

text \<open>\<open>Drop for ControlServer\<close>\<close>

definition server_drop :: "env \<Rightarrow> path \<Rightarrow> world \<Rightarrow> world" where
  "server_drop E p w = snd (sys_unlink E p w)"

section \<open>Who may connect\<close>

definition uid_allowed :: "u32 \<Rightarrow> u32 \<Rightarrow> bool" where
  "uid_allowed me peer \<longleftrightarrow> peer = me \<or> peer = 0"

definition peer_allowed_from :: "io_kind + u32 \<Rightarrow> u32 \<Rightarrow> bool" where
  "peer_allowed_from c me = (case c of Inr peer \<Rightarrow> uid_allowed me peer | Inl _ \<Rightarrow> False)"

section \<open>The accept loop\<close>

definition next_accept_backoff :: "nat \<Rightarrow> nat" where
  "next_accept_backoff current =
     (if current = 0 then ACCEPT_BACKOFF_START else min (current * 2) ACCEPT_BACKOFF_MAX)"

datatype loop_pc = Acquiring | Accepting | Sleeping

record accept_loop =
  al_pc :: loop_pc
  al_slots :: nat
  al_backoff :: nat
  al_serving :: "(nat \<times> (io_kind + u32)) list"
  al_seen :: nat

definition accept_init :: accept_loop where
  "accept_init = \<lparr>al_pc = Acquiring, al_slots = MAX_CONNECTIONS, al_backoff = 0, al_serving = [], al_seen = 0\<rparr>"

text \<open>
  One step of the loop or of a connection's task. The permit taken at the top of
  the loop is dropped when a refused connection or a failed accept goes round
  again, and moves into the task otherwise.
\<close>

inductive accept_step :: "u32 \<Rightarrow> accept_loop \<Rightarrow> accept_loop \<Rightarrow> bool" for me where
  acquire: "al_pc s = Acquiring \<Longrightarrow> al_slots s > 0 \<Longrightarrow>
    accept_step me s (s\<lparr>al_pc := Accepting, al_slots := al_slots s - 1\<rparr>)"
| fail: "al_pc s = Accepting \<Longrightarrow>
    accept_step me s (s\<lparr>al_pc := Sleeping, al_backoff := next_accept_backoff (al_backoff s)\<rparr>)"
| wake: "al_pc s = Sleeping \<Longrightarrow>
    accept_step me s (s\<lparr>al_pc := Acquiring, al_slots := al_slots s + 1\<rparr>)"
| reject: "al_pc s = Accepting \<Longrightarrow> \<not> peer_allowed_from c me \<Longrightarrow>
    accept_step me s (s\<lparr>al_pc := Acquiring, al_slots := al_slots s + 1, al_backoff := 0, al_seen := Suc (al_seen s)\<rparr>)"
| serve: "al_pc s = Accepting \<Longrightarrow> peer_allowed_from c me \<Longrightarrow>
    accept_step me s (s\<lparr>al_pc := Acquiring, al_backoff := 0,
      al_serving := (al_seen s, c) # al_serving s, al_seen := Suc (al_seen s)\<rparr>)"
| finish_serving: "x \<in> set (al_serving s) \<Longrightarrow>
    accept_step me s (s\<lparr>al_serving := remove1 x (al_serving s), al_slots := al_slots s + 1\<rparr>)"

inductive_cases accept_stepE: "accept_step me s s'"

inductive accept_reach :: "u32 \<Rightarrow> accept_loop \<Rightarrow> bool" for me where
  start: "accept_reach me accept_init"
| step: "accept_reach me s \<Longrightarrow> accept_step me s s' \<Longrightarrow> accept_reach me s'"

section \<open>One connection\<close>

text \<open>\<open>read_exact\<close> and \<open>write_all\<close> of an asynchronous stream: no retry of an interrupted call.\<close>

function read_exact_async :: "deadline \<Rightarrow> nat \<Rightarrow> sock \<Rightarrow> (io_kind + bytes) \<times> sock" where
  "read_exact_async d n s =
     (if n = 0 then (Inr [], s)
      else case timed_read d n s of
        (Inl e, s1) \<Rightarrow> (Inl e, s1)
      | (Inr bs, s1) \<Rightarrow>
          if bs = [] then (Inl UnexpectedEof, s1)
          else (case read_exact_async d (n - length bs) s1 of
                  (Inl e, s2) \<Rightarrow> (Inl e, s2)
                | (Inr more_bytes, s2) \<Rightarrow> (Inr (bs @ more_bytes), s2)))"
  by pat_completeness auto
termination
  by (relation "measure (\<lambda>(d, n, s). n)") auto

function write_all_async :: "deadline \<Rightarrow> bytes \<Rightarrow> sock \<Rightarrow> (io_kind + unit) \<times> sock" where
  "write_all_async d bs s =
     (if bs = [] then (Inr (), s)
      else case timed_write d bs s of
        (Inl e, s1) \<Rightarrow> (Inl e, s1)
      | (Inr n, s1) \<Rightarrow> if n = 0 then (Inl WriteZero, s1) else write_all_async d (drop n bs) s1)"
  by pat_completeness auto
termination
  by (relation "measure (\<lambda>(d, bs, s). length bs)") auto

declare read_exact_async.simps [simp del] write_all_async.simps [simp del]

datatype conn_error =
    NoRequestInTime
  | StoppedReading
  | FrameExceedsLimit nat
  | ConnIo io_kind
  | CannotEncode protocol_error

definition io_or_timeout :: "conn_error \<Rightarrow> io_kind \<Rightarrow> conn_error" where
  "io_or_timeout late e = (if e = WouldBlock \<or> e = TimedOut then late else ConnIo e)"

definition read_frame :: "deadline \<Rightarrow> sock \<Rightarrow> (conn_error + bytes) \<times> sock" where
  "read_frame d s =
     (case read_exact_async d 4 s of
        (Inl e, s1) \<Rightarrow> (Inl (io_or_timeout NoRequestInTime e), s1)
      | (Inr len_bytes, s1) \<Rightarrow>
          let len = unat (from_be_bytes len_bytes)
          in if len > MAX_FRAME then (Inl (FrameExceedsLimit len), s1)
             else (case read_exact_async d len s1 of
                     (Inl e, s2) \<Rightarrow> (Inl (io_or_timeout NoRequestInTime e), s2)
                   | (Inr body, s2) \<Rightarrow> (Inr body, s2)))"

datatype stretch = Wait nat | Work nat

text \<open>
  \<open>tokio::time::timeout\<close> around a future that started at \<open>start\<close>: what it had
  reached, whether it completed, and when.
\<close>

fun timeout_run :: "nat \<Rightarrow> (stretch \<times> 's) list \<Rightarrow> 's \<Rightarrow> nat \<Rightarrow> bool \<times> 's \<times> nat" where
  "timeout_run limit [] s t = (True, s, t)"
| "timeout_run limit ((Work n, s') # rest) s t = timeout_run limit rest s' (t + n)"
| "timeout_run limit ((Wait n, s') # rest) s t =
     (if 0 < n \<and> limit < t + n then (False, s, max t limit) else timeout_run limit rest s' (t + n))"

fun work_total :: "(stretch \<times> 's) list \<Rightarrow> nat" where
  "work_total [] = 0"
| "work_total ((Work n, _) # rest) = n + work_total rest"
| "work_total ((Wait n, _) # rest) = work_total rest"

type_synonym 's handler = "request \<Rightarrow> 's \<Rightarrow> (stretch \<times> 's) list \<times> response"

record control_lib =
  req_codec :: "request msg_codec"
  resp_codec :: "response msg_codec"
  show_protocol_error :: "protocol_error \<Rightarrow> ustr"

definition TOO_LONG :: response where "TOO_LONG = RError (lit ''the daemon took too long to answer'')"
definition TOO_LARGE :: response where "TOO_LARGE = RError (lit ''response too large'')"

text \<open>The response to a request body, the state after it and the time.\<close>

definition answer :: "control_lib \<Rightarrow> 's handler \<Rightarrow> nat \<Rightarrow> bytes \<Rightarrow> 's \<Rightarrow> nat \<Rightarrow> response \<times> 's \<times> nat" where
  "answer L handler handler_timeout body s t =
     (case decode_frame (req_codec L) body of
        Inl e \<Rightarrow> (RError (lit ''malformed request: '' @ show_protocol_error L e), s, t)
      | Inr req \<Rightarrow>
          (case handler req s of
             (stretches, response) \<Rightarrow>
               (case timeout_run (t + handler_timeout) stretches s t of
                  (True, s1, t1) \<Rightarrow> (response, s1, t1)
                | (False, s1, t1) \<Rightarrow> (TOO_LONG, s1, t1))))"

definition response_frame :: "control_lib \<Rightarrow> response \<Rightarrow> protocol_error + bytes" where
  "response_frame L r =
     (case encode_frame (resp_codec L) r of
        Inr frame \<Rightarrow> Inr frame
      | Inl _ \<Rightarrow> encode_frame (resp_codec L) TOO_LARGE)"

definition handle_connection ::
  "control_lib \<Rightarrow> 's handler \<Rightarrow> nat \<Rightarrow> nat \<Rightarrow> sock \<Rightarrow> 's \<Rightarrow> (conn_error + unit) \<times> sock \<times> 's" where
  "handle_connection L handler timeout handler_timeout k s =
     (case read_frame \<lparr>d_start = clk k, d_budget = timeout\<rparr> k of
        (Inl e, k1) \<Rightarrow> (Inl e, k1, s)
      | (Inr body, k1) \<Rightarrow>
          (case answer L handler handler_timeout body s (clk k1) of
             (response, s1, t1) \<Rightarrow>
               (case response_frame L response of
                  Inl e \<Rightarrow> (Inl (CannotEncode e), k1\<lparr>clk := t1\<rparr>, s1)
                | Inr frame \<Rightarrow>
                    (case write_all_async \<lparr>d_start = t1, d_budget = timeout\<rparr> frame (k1\<lparr>clk := t1\<rparr>) of
                       (Inl e, k2) \<Rightarrow> (Inl (io_or_timeout StoppedReading e), k2, s1)
                     | (Inr _, k2) \<Rightarrow> (Inr (), k2, s1)))))"

end
