(* ===== verification/Kdf_Slots.thy ===== *)
theory Kdf_Slots
  imports Vault_Crypto
begin

text \<open>
  Bounded key derivation (\<open>src/kdf.rs\<close>) and the memory budget the daemon asks
  the kernel for (\<open>lock_memory\<close> of \<open>src/daemon.rs\<close>). Derivations of any number
  of callers interleave: a step relation over the semaphore, the jobs on the
  blocking pool and the futures waiting for them. A caller may drop its future
  at any moment; the job it started runs on and keeps its permit.
\<close>

section \<open>Derivation slots\<close>

definition MAX_CONCURRENT :: nat where "MAX_CONCURRENT = 2"

record slots =
  permits :: nat
  queued :: "nat set"
  working :: "nat set"
  awaited :: "nat set"

definition slots_init :: slots where
  "slots_init = \<lparr>permits = MAX_CONCURRENT, queued = {}, working = {}, awaited = {}\<rparr>"

inductive run_bounded :: "slots \<Rightarrow> slots \<Rightarrow> bool" where
  call: "j \<notin> queued s \<union> working s \<union> awaited s \<Longrightarrow>
     run_bounded s (s\<lparr>queued := insert j (queued s), awaited := insert j (awaited s)\<rparr>)"
| acquire: "j \<in> queued s \<Longrightarrow> 0 < permits s \<Longrightarrow>
     run_bounded s (s\<lparr>permits := permits s - 1, queued := queued s - {j}, working := insert j (working s)\<rparr>)"
| drop_future: "j \<in> awaited s \<Longrightarrow>
     run_bounded s (s\<lparr>queued := queued s - {j}, awaited := awaited s - {j}\<rparr>)"
| finish: "j \<in> working s \<Longrightarrow>
     run_bounded s (s\<lparr>permits := permits s + 1, working := working s - {j}, awaited := awaited s - {j}\<rparr>)"

inductive slots_reachable :: "slots \<Rightarrow> bool" where
  start: "slots_reachable slots_init"
| step: "slots_reachable s \<Longrightarrow> run_bounded s s' \<Longrightarrow> slots_reachable s'"

definition slots_ok :: "slots \<Rightarrow> bool" where
  "slots_ok s \<longleftrightarrow> finite (working s) \<and> card (working s) + permits s = MAX_CONCURRENT
     \<and> queued s \<inter> working s = {} \<and> queued s \<subseteq> awaited s"

lemma slots_ok_step: "run_bounded s s' \<Longrightarrow> slots_ok s \<Longrightarrow> slots_ok s'"
proof (induction rule: run_bounded.induct)
  case (acquire j s)
  then have "j \<notin> working s" by (auto simp: slots_ok_def)
  with acquire show ?case by (auto simp: slots_ok_def)
next
  case (finish j s)
  then have "card (working s - {j}) + 1 = card (working s)"
    by (auto simp: slots_ok_def intro!: card_Suc_Diff1 simp del: card_Diff_insert)
  with finish show ?case by (auto simp: slots_ok_def)
qed (auto simp: slots_ok_def)

lemma slots_reachable_ok: "slots_reachable s \<Longrightarrow> slots_ok s"
proof (induction rule: slots_reachable.induct)
  case start
  show ?case by (simp add: slots_ok_def slots_init_def)
qed (rule slots_ok_step)

text \<open>Nothing is lost: a free permit and a queued caller can always make progress.\<close>

lemma slots_progress:
  assumes "slots_ok s" "j \<in> queued s" "working s = {}"
  shows "\<exists>s'. run_bounded s s' \<and> j \<in> working s'"
proof -
  have "0 < permits s" using assms by (simp add: slots_ok_def MAX_CONCURRENT_def)
  from run_bounded.acquire [OF assms(2) this] show ?thesis by force
qed

section \<open>Locking memory\<close>

text \<open>
  The bytes one derivation maps: \<open>derive_key\<close> refuses parameters that do not
  validate before Argon2 allocates anything.
\<close>

definition arena_bytes :: "kdf_params \<Rightarrow> nat" where
  "arena_bytes p = (if validate p = Inr () then unat (m_cost_kib p) * 1024 else 0)"

definition lock_needed :: nat where
  "lock_needed = unat MAX_M_COST_KIB * 1024 * MAX_CONCURRENT + 64 * 1024 * 1024"

text \<open>\<open>None\<close> is \<open>RLIM_INFINITY\<close>.\<close>

record rlimit =
  rlim_cur :: "nat option"
  rlim_max :: "nat option"

datatype lock_error = OsError nat | LimitTooLow nat nat

record lock_kernel =
  k_getrlimit :: "nat + rlimit"
  k_setrlimit :: "rlimit \<Rightarrow> bool"
  k_mlockall :: "nat option"
  k_dumpable :: "nat option"

definition disable_dumping :: "lock_kernel \<Rightarrow> nat + unit" where
  "disable_dumping K = (case k_dumpable K of None \<Rightarrow> Inr () | Some e \<Rightarrow> Inl e)"

definition below :: "nat option \<Rightarrow> nat \<Rightarrow> bool" where
  "below l n \<longleftrightarrow> (case l of None \<Rightarrow> False | Some x \<Rightarrow> x < n)"

text \<open>The result, and the limit in force when the function returns.\<close>

definition lock_memory :: "lock_kernel \<Rightarrow> (lock_error + unit) \<times> rlimit option" where
  "lock_memory K =
     (case k_getrlimit K of
        Inl e \<Rightarrow> (Inl (OsError e), None)
      | Inr lim0 \<Rightarrow>
          let lim =
            (if below (rlim_cur lim0) lock_needed \<and> \<not> below (rlim_max lim0) lock_needed
             then let raised = \<lparr>rlim_cur = (case rlim_max lim0 of None \<Rightarrow> Some lock_needed | Some m \<Rightarrow> Some m),
                                rlim_max = rlim_max lim0\<rparr>
                  in if k_setrlimit K raised then raised else lim0
             else lim0)
          in if below (rlim_cur lim) lock_needed
             then (Inl (LimitTooLow (the (rlim_cur lim)) lock_needed), Some lim)
             else (case k_mlockall K of
                     None \<Rightarrow> (Inr (), Some lim)
                   | Some e \<Rightarrow> (Inl (OsError e), Some lim)))"

lemma lock_memory_Inr:
  assumes "lock_memory K = (Inr (), Some lim)"
  shows "\<not> below (rlim_cur lim) lock_needed" "k_mlockall K = None"
  using assms by (auto simp: lock_memory_def Let_def split: sum.splits if_splits option.splits)

lemma arena_bytes_le: "arena_bytes p \<le> 262144 * 1024"
  by (simp add: arena_bytes_def validate_Inr_iff)

lemma lock_needed_eq: "lock_needed = 2 * (262144 * 1024) + 67108864"
  by (simp add: lock_needed_def MAX_M_COST_KIB_def MAX_CONCURRENT_def)

definition demo_slots :: slots where
  "demo_slots = \<lparr>permits = 0, queued = {}, working = {1, 2}, awaited = {1, 2}\<rparr>"

definition demo_kernel :: lock_kernel where
  "demo_kernel = \<lparr>k_getrlimit = Inr \<lparr>rlim_cur = Some 8388608, rlim_max = None\<rparr>,
     k_setrlimit = \<lambda>_. True, k_mlockall = None, k_dumpable = None\<rparr>"

lemma demo_slots_reachable: "slots_reachable demo_slots"
proof -
  let ?s1 = "\<lparr>permits = 2, queued = {1}, working = {}, awaited = {1}\<rparr>"
  let ?s2 = "\<lparr>permits = 1, queued = {}, working = {1}, awaited = {1}\<rparr>"
  let ?s3 = "\<lparr>permits = 1, queued = {2}, working = {1}, awaited = {1, 2}\<rparr>"
  have "slots_reachable ?s1"
    using step [OF start call [of 1]] by (simp add: slots_init_def MAX_CONCURRENT_def)
  from step [OF this acquire [of 1]] have "slots_reachable ?s2" by simp
  from step [OF this call [of 2]] have "slots_reachable ?s3" by (simp add: insert_commute)
  from step [OF this acquire [of 2]] show ?thesis by (simp add: demo_slots_def insert_commute)
qed

lemma demo_lock_memory: "lock_memory demo_kernel = (Inr (), Some \<lparr>rlim_cur = Some lock_needed, rlim_max = None\<rparr>)"
  by (simp add: lock_memory_def demo_kernel_def below_def lock_needed_eq)

text \<open>
  C18: However callers start, cancel and finish derivations, at most
  MAX_CONCURRENT run at once, and the memory all of them map together stays
  below the budget that \<open>lock_memory\<close> checks the limit against, with 64 MiB to
  spare; so when \<open>lock_memory\<close> succeeded, no derivation can exceed the locked
  limit.
\<close>

theorem derivations_fit_locked_memory:
  assumes "slots_reachable s" "lock_memory K = (Inr (), Some lim)"
  shows "card (working s) \<le> MAX_CONCURRENT \<and>
    \<not> below (rlim_cur lim) ((\<Sum>j\<in>working s. arena_bytes (params j)) + 67108864)"
proof
  note ok = slots_reachable_ok [OF assms(1), unfolded slots_ok_def]
  then show le: "card (working s) \<le> MAX_CONCURRENT" by linarith
  have "(\<Sum>j\<in>working s. arena_bytes (params j)) \<le> card (working s) * (262144 * 1024)"
    using sum_bounded_above [OF arena_bytes_le, where A = "working s"] by simp
  also have "\<dots> \<le> 2 * (262144 * 1024)" using le by (simp add: MAX_CONCURRENT_def)
  finally have "(\<Sum>j\<in>working s. arena_bytes (params j)) + 67108864 \<le> lock_needed"
    by (simp add: lock_needed_eq)
  with lock_memory_Inr(1) [OF assms(2)]
  show "\<not> below (rlim_cur lim) ((\<Sum>j\<in>working s. arena_bytes (params j)) + 67108864)"
    by (auto simp: below_def split: option.splits)
qed

theorem derivations_fit_locked_memory_witness:
  "\<not> below (Some lock_needed) (arena_bytes kdf_default + arena_bytes kdf_default + 67108864)"
  using derivations_fit_locked_memory [OF demo_slots_reachable demo_lock_memory, where params = "\<lambda>_. kdf_default"]
  by (simp add: demo_slots_def)

end
