(* ===== verification/Daemon_Control.thy ===== *)
theory Daemon_Control
  imports Prompts Control_Server Kdf_Slots
begin

text \<open>
  The daemon's assembly and its background work (\<open>src/daemon.rs\<close>): starting,
  the handler of control requests, reclaiming what a client that left the bus
  owned, and locking after inactivity. A handler that panics gives no response
  (\<open>None\<close>). The gpg-agent preset that an unlock may spawn reads vaults and talks
  to other processes; it does not touch the daemon and is left out here.
\<close>

section \<open>Control requests\<close>

definition quoted :: "ustr \<Rightarrow> ustr" where
  "quoted s = 39 # s @ [39]"

definition no_collection :: "ustr \<Rightarrow> ustr" where
  "no_collection cid = lit ''no collection '' @ quoted cid"

definition CANNOT_UNLOCK :: ustr where "CANNOT_UNLOCK = lit ''cannot unlock that collection''"

text \<open>The request \<open>UnlockWithKey\<close>: the pin is set under the same guard as the decryption.\<close>

definition control_unlock_with_key :: "platform \<Rightarrow> ustr \<Rightarrow> key \<Rightarrow> bool \<Rightarrow> daemon \<Rightarrow> response \<times> daemon" where
  "control_unlock_with_key P collection k pin d =
     (case vault_of (st d) collection of
        None \<Rightarrow> (RError (case broken_error (st d) collection of Some e \<Rightarrow> e | None \<Rightarrow> CANNOT_UNLOCK), d)
      | Some r \<Rightarrow>
          (case on_vault r (unlock_with_key (lib P) (os P) k) d of
             (Inl _, d1) \<Rightarrow> (RError CANNOT_UNLOCK, d1)
           | (Inr _, d1) \<Rightarrow>
               (ROk, notify_collection_changed P collection (touch P (set_vault r (set_pinned pin) d1)))))"

definition control_change_key ::
  "platform \<Rightarrow> ustr \<Rightarrow> key \<Rightarrow> bytes \<Rightarrow> kdf_params \<Rightarrow> key \<Rightarrow> daemon \<Rightarrow> response \<times> daemon" where
  "control_change_key P collection old_key new_salt new_kdf new_key d =
     (case vault_of (st d) collection of
        None \<Rightarrow> (RError (case broken_error (st d) collection of Some e \<Rightarrow> e | None \<Rightarrow> no_collection collection), d)
      | Some r \<Rightarrow>
          (case on_vault r (change_key (lib P) (os P) old_key new_salt new_kdf new_key) d of
             (Inl e, d1) \<Rightarrow> (RError (show_vault_error P e), d1)
           | (Inr _, d1) \<Rightarrow> (ROk, d1)))"

text \<open>The request \<open>Lock\<close>: what was locked now, and the named collection that is missing.\<close>

fun lock_targets ::
  "(ustr \<times> nat option) list \<Rightarrow> ustr list \<Rightarrow> ustr option \<Rightarrow> daemon \<Rightarrow> (ustr list \<times> ustr option) \<times> daemon" where
  "lock_targets [] changed missing d = ((changed, missing), d)"
| "lock_targets ((cid, Some r) # targets) changed missing d =
     (if is_locked (heap d r) then lock_targets targets changed missing d
      else lock_targets targets (changed @ [cid]) missing (set_vault r lock d))"
| "lock_targets ((cid, None) # targets) changed missing d = lock_targets targets changed (Some cid) d"

definition control_lock :: "platform \<Rightarrow> ustr option \<Rightarrow> daemon \<Rightarrow> response \<times> daemon" where
  "control_lock P collection d =
     (let targets = (case collection of
                       Some c \<Rightarrow> [(c, vault_of (st d) c)]
                     | None \<Rightarrow> map (\<lambda>(c, r). (c, Some r)) (all_vaults (st d)))
      in case lock_targets targets [] None d of
           ((changed, missing), d1) \<Rightarrow>
             (case missing of Some cid \<Rightarrow> RError (no_collection cid) | None \<Rightarrow> ROk,
              fold (notify_collection_changed P) changed d1))"

definition vault_status :: "platform \<Rightarrow> ustr \<Rightarrow> vault \<Rightarrow> collection_status" where
  "vault_status P cid v =
     \<lparr>cs_id = cid, cs_label = h_label (v_header v), cs_locked = is_locked v, cs_items = length (item_ids v),
      cs_warning = map_option (\<lambda>e. lit ''cannot rewrite the attribute index: '' @ show_vault_error P e)
        (index_warning v)\<rparr>"

definition broken_status :: "ustr \<Rightarrow> ustr \<Rightarrow> collection_status" where
  "broken_status cid err = \<lparr>cs_id = cid, cs_label = cid, cs_locked = True, cs_items = 0, cs_warning = Some err\<rparr>"

definition SECOND :: nat where "SECOND = 1000000000"

definition control_status :: "platform \<Rightarrow> daemon \<Rightarrow> response \<times> daemon" where
  "control_status P d =
     (RStatus (map (\<lambda>(cid, r). vault_status P cid (heap d r)) (all_vaults (st d))
               @ map (\<lambda>(cid, _, err). broken_status cid err) (broken (st d)))
        ((instant P (tick (wld d)) - started (st d)) div SECOND) (aliases_unusable (st d)),
      set_wld (next_tick (wld d)) d)"

fun emit_created :: "platform \<Rightarrow> ustr list \<Rightarrow> daemon \<Rightarrow> unit reply" where
  "emit_created P [] d = (Inr (), d)"
| "emit_created P (cid # rest) d =
     and_then (expect_path (collection_path cid) d) (\<lambda>p d1. emit_created P rest (try_emit P (CollectionCreated p) d1))"

text \<open>
  The request \<open>Reload\<close>. The scan runs with no lock held; \<open>other\<close> is what the
  rest of the daemon does meanwhile.
\<close>

definition control_reload :: "platform \<Rightarrow> interference \<Rightarrow> daemon \<Rightarrow> response option \<times> daemon" where
  "control_reload P other d =
     (case scan_vault_dir P (vault_dir (st d)) (st_index_attributes (st d)) (loaded_ids (st d)) (wld d) of
        (Inl e, w) \<Rightarrow> (Some (RError (show_io_error P e)), set_wld w d)
      | (Inr scan, w) \<Rightarrow>
          (case merge_scan scan (other (tick w) (set_wld w d)) of
             (new_ids, d1) \<Rightarrow>
               (case register_all P d1 of
                  (Inl Panicked, d2) \<Rightarrow> (None, d2)
                | (Inl e, d2) \<Rightarrow> (Some (RError (show_bus_error P e)), d2)
                | (Inr _, d2) \<Rightarrow>
                    (case emit_created P new_ids d2 of
                       (Inl _, d3) \<Rightarrow> (None, d3)
                     | (Inr _, d3) \<Rightarrow>
                         (Some ROk, if new_ids = [] then d3 else notify_collections_changed P d3)))))"

fun handle_control :: "platform \<Rightarrow> interference \<Rightarrow> request \<Rightarrow> daemon \<Rightarrow> response option \<times> daemon" where
  "handle_control P other (UnlockWithKey collection k pin) d =
     apfst Some (control_unlock_with_key P collection k pin d)"
| "handle_control P other (ChangeKey collection old_key new_salt new_kdf new_key) d =
     apfst Some (control_change_key P collection old_key new_salt new_kdf new_key d)"
| "handle_control P other (ReqLock collection) d = apfst Some (control_lock P collection d)"
| "handle_control P other ReqStatus d = apfst Some (control_status P d)"
| "handle_control P other ReqReload d = control_reload P other d"

section \<open>Clients that left the bus\<close>

definition WATCH_BACKOFF_START :: nat where "WATCH_BACKOFF_START = SECOND"
definition WATCH_BACKOFF_MAX :: nat where "WATCH_BACKOFF_MAX = 30 * SECOND"

text \<open>
  After a run of the watch that took \<open>elapsed\<close>: how long \<open>watch_clients\<close> sleeps, and
  its next backoff.
\<close>

definition watch_backoff :: "nat \<Rightarrow> nat \<Rightarrow> nat \<times> nat" where
  "watch_backoff elapsed backoff =
     (let b = (if elapsed \<ge> 30 * SECOND then SECOND else backoff) in (b, min (b * 2) (30 * SECOND)))"

definition reclaim_unlocked ::
  "ustr \<Rightarrow> (ustr \<times> nat option) list \<Rightarrow> daemon \<Rightarrow> (ustr \<times> nat option) list \<times> daemon" where
  "reclaim_unlocked p relock d =
     (case map_of (prompt_unlocked (st d)) p of
        None \<Rightarrow> (relock, d)
      | Some ids \<Rightarrow>
          (relock @ map (\<lambda>cid. (cid, vault_of (st d) cid)) ids,
           set_st ((st d)\<lparr>prompt_unlocked := bt_remove p (prompt_unlocked (st d))\<rparr>) d))"

definition reclaim_prompt ::
  "ustr \<Rightarrow> (ustr \<times> nat option) list \<Rightarrow> daemon \<Rightarrow> (ustr \<times> nat option) list \<times> daemon" where
  "reclaim_prompt p relock d =
     (let commit = map_of (prompt_commits (st d)) p;
          task = map_of (prompt_tasks (st d)) p;
          d1 = set_st ((st d)\<lparr>prompt_owners := bt_remove p (prompt_owners (st d)),
                              prompt_commits := bt_remove p (prompt_commits (st d)),
                              prompt_tasks := bt_remove p (prompt_tasks (st d))\<rparr>) d;
          committed = (case commit of Some gate \<Rightarrow> pr_committed (prompts d1 gate) | None \<Rightarrow> False)
      in case task of
           Some tid \<Rightarrow> if committed then (relock, d1) else reclaim_unlocked p relock (end_task tid d1)
         | None \<Rightarrow> reclaim_unlocked p relock d1)"

fun reclaim_prompts ::
  "ustr list \<Rightarrow> (ustr \<times> nat option) list \<Rightarrow> daemon \<Rightarrow> (ustr \<times> nat option) list \<times> daemon" where
  "reclaim_prompts [] relock d = (relock, d)"
| "reclaim_prompts (p # ps) relock d =
     (case reclaim_prompt p relock d of (relock1, d1) \<Rightarrow> reclaim_prompts ps relock1 d1)"

fun relock_open :: "platform \<Rightarrow> (ustr \<times> nat option) list \<Rightarrow> daemon \<Rightarrow> daemon" where
  "relock_open P [] d = d"
| "relock_open P ((cid, Some r) # rest) d =
     relock_open P rest
       (if is_locked (heap d r) then d else notify_collection_changed P cid (set_vault r lock d))"
| "relock_open P ((cid, None) # rest) d = relock_open P rest d"

definition session_paths :: "service_state \<Rightarrow> ustr \<Rightarrow> ustr list" where
  "session_paths s name = map fst (filter (\<lambda>e. se_owner (snd e) = name) (sessions s))"

definition prompt_paths :: "service_state \<Rightarrow> ustr \<Rightarrow> ustr list" where
  "prompt_paths s name = map fst (filter (\<lambda>e. snd e = name) (prompt_owners s))"

text \<open>One \<open>NameOwnerChanged\<close> signal of \<open>watch_clients_once\<close>.\<close>

definition name_owner_changed :: "platform \<Rightarrow> ustr \<Rightarrow> ustr option \<Rightarrow> daemon \<Rightarrow> daemon" where
  "name_owner_changed P name new_owner d =
     (if new_owner \<noteq> None then d
      else let gone = session_paths (st d) name;
               d1 = set_st ((st d)\<lparr>sessions := fold bt_remove gone (sessions (st d))\<rparr>) d;
               left_prompts = prompt_paths (st d1) name
           in case reclaim_prompts left_prompts [] d1 of
                (relock, d2) \<Rightarrow>
                  fold (\<lambda>p. server_remove p (\<lambda>i. i = IPrompt)) left_prompts
                    (fold (\<lambda>p. server_remove p (\<lambda>i. i = ISession)) gone (relock_open P relock d2)))"

section \<open>Inactivity\<close>

fun idle_lock_vaults :: "(ustr \<times> nat) list \<Rightarrow> ustr list \<Rightarrow> daemon \<Rightarrow> ustr list \<times> daemon" where
  "idle_lock_vaults [] ids d = (ids, d)"
| "idle_lock_vaults ((cid, r) # rest) ids d =
     (if pinned (heap d r) \<or> is_locked (heap d r) then idle_lock_vaults rest ids d
      else idle_lock_vaults rest (ids @ [cid]) (set_vault r lock d))"

text \<open>One tick of \<open>idle_lock\<close>.\<close>

definition idle_lock :: "platform \<Rightarrow> nat \<Rightarrow> daemon \<Rightarrow> daemon" where
  "idle_lock P after d =
     (let t = instant P (tick (wld d)); d1 = set_wld (next_tick (wld d)) d
      in if t - last_activity (st d1) < after then d1
         else case idle_lock_vaults (all_vaults (st d1)) [] d1 of
                (ids, d2) \<Rightarrow> fold (notify_collection_changed P) ids d2)"

section \<open>Starting\<close>

datatype daemon_error =
    NameTaken
  | DaemonZBus ustr
  | Export bus_error
  | VaultsIo io_error
  | ControlSocket bind_error
  | DaemonNoRuntimeDir
  | HardeningDump nat
  | HardeningMemory lock_error
  | StartPanicked

record daemon_options =
  o_dir :: path
  o_kdf :: kdf_params
  o_gpg :: bool
  o_lock_memory :: bool
  o_locked_search :: bool
  o_control_socket :: "path option"

datatype bus_answer = BusOk | BusNameTaken | BusError ustr

definition from_zbus :: "bus_answer \<Rightarrow> daemon_error + unit" where
  "from_zbus a = (case a of BusOk \<Rightarrow> Inr () | BusNameTaken \<Rightarrow> Inl NameTaken | BusError e \<Rightarrow> Inl (DaemonZBus e))"

definition new_daemon :: "service_state \<Rightarrow> (nat \<Rightarrow> vault) \<Rightarrow> world \<Rightarrow> daemon" where
  "new_daemon s h w =
     \<lparr>st = s, heap = h, next_ref = 0, wld = w, exports = [],
      prompts = (\<lambda>_. \<lparr>pr_kind = KUnlock, pr_action = None, pr_committed = False, pr_cancelled = False\<rparr>),
      tasks = [], next_task = 0, signals = []\<rparr>"

text \<open>The hardening steps before anything else.\<close>

definition hardened :: "lock_kernel \<Rightarrow> bool \<Rightarrow> daemon_error + unit" where
  "hardened K memory =
     (case disable_dumping K of
        Inl e \<Rightarrow> Inl (HardeningDump e)
      | Inr _ \<Rightarrow>
          if memory then (case fst (lock_memory K) of Inl e \<Rightarrow> Inl (HardeningMemory e) | Inr _ \<Rightarrow> Inr ())
          else Inr ())"

text \<open>
  \<open>Daemon::start\<close>: \<open>bus\<close> is what the bus answers to the connection and the name,
  \<open>runtime_socket\<close> what \<open>protocol::socket_path\<close> finds.
\<close>

definition daemon_start ::
  "platform \<Rightarrow> lock_kernel \<Rightarrow> bus_answer \<Rightarrow> path option \<Rightarrow> nat \<Rightarrow> daemon_options \<Rightarrow> (nat \<Rightarrow> vault) \<Rightarrow> world
   \<Rightarrow> (daemon_error + unit) \<times> daemon" where
  "daemon_start P K bus runtime_socket umask_bits opts h w =
     (let s = (service_state_new (o_dir opts) (o_kdf opts) (o_gpg opts) (instant P (tick w)))
                \<lparr>st_index_attributes := o_locked_search opts\<rparr>;
          d = new_daemon s h w
      in and_then (hardened K (o_lock_memory opts), d) (\<lambda>_ d.
         let d = set_wld (snd (sweep_stale_temp_files (os P) (o_dir opts) (wld d))) d
         in case scan_vault_dir P (vault_dir (st d)) (st_index_attributes (st d)) (loaded_ids (st d)) (wld d) of
              (Inl e, w) \<Rightarrow> (Inl (VaultsIo e), set_wld w d)
            | (Inr scan, w) \<Rightarrow>
                let d = snd (merge_scan scan (set_wld w d))
                in and_then (from_zbus bus, d) (\<lambda>_ d.
                   and_then (case register_all P d of
                               (Inl Panicked, d) \<Rightarrow> (Inl StartPanicked, d)
                             | (Inl e, d) \<Rightarrow> (Inl (Export e), d)
                             | (Inr _, d) \<Rightarrow> (Inr (), d)) (\<lambda>_ d.
                   and_then (case o_control_socket opts of
                               Some p \<Rightarrow> (Inr p, d)
                             | None \<Rightarrow> (case runtime_socket of Some p \<Rightarrow> (Inr p, d) | None \<Rightarrow> (Inl DaemonNoRuntimeDir, d)))
                     (\<lambda>p d.
                      case bind_with_timeouts (os P) umask_bits p (wld d) of
                        (Inl RandomPanic, w) \<Rightarrow> (Inl StartPanicked, set_wld w d)
                      | (Inl e, w) \<Rightarrow> (Inl (ControlSocket e), set_wld w d)
                      | (Inr _, w) \<Rightarrow> (Inr (), set_wld w d))))))"

end
