(* ===== verification/Vault_Frames.thy ===== *)
theory Vault_Frames
  imports Vault_Lifecycle
begin

text \<open>
  An operation on one vault touches no other vault's file: whatever it does and
  however it fails, every file other than the vault's own and the temp files has
  the content it had, and the vault keeps its path and its retirement mark.
\<close>

definition confined :: "vault \<Rightarrow> world \<Rightarrow> 'a outcome \<Rightarrow> bool" where
  "confined v w out \<longleftrightarrow> v_path (fst (snd out)) = v_path v \<and> retired (fst (snd out)) = retired v
     \<and> (\<forall>q. vault_path q \<longrightarrow> q \<noteq> v_path v \<longrightarrow> content (snd (snd out)) q = content w q)"

lemma confinedI:
  "v_path v' = v_path v \<Longrightarrow> retired v' = retired v \<Longrightarrow> fs w' = fs w \<Longrightarrow> confined v w (r, v', w')"
  by (simp add: confined_def content_def)

lemma confined_trans:
  assumes "confined v w (r, v1, w1)" "confined v1 w1 out"
  shows "confined v w out"
  using assms by (auto simp: confined_def)

lemma confined_from:
  assumes "fs w1 = fs w" "confined v w1 out"
  shows "confined v w out"
  using assms by (simp add: confined_def content_def)

lemma confined_draft:
  assumes "v_path v1 = v_path v" "retired v1 = retired v" "confined v1 w out"
  shows "confined v w out"
  using assms by (simp add: confined_def)

lemma confined_result: "confined v w (r, v', w') = confined v w (r', v', w')"
  by (simp add: confined_def)

lemma save_keeps_flags: "save D E v w = (r, v', w') \<Longrightarrow> v_path v' = v_path v \<and> retired v' = retired v"
  by (auto simp: save_def save_with_def Let_def split: if_splits vault_state.splits prod.splits sum.splits)

lemma save_confined: "confined v w (save D E v w)"
proof -
  obtain r v' w' where s: "save D E v w = (r, v', w')" by (cases "save D E v w")
  have "content w' q = content w q" if "vault_path q" "q \<noteq> v_path v" for q
    using replacing.save_with_frame [of q v, OF _ that(2)] that(1) s unfolding save_def vault_path_def
    by (metis snd_conv)
  with save_keeps_flags [OF s] s show ?thesis by (simp add: confined_def)
qed

lemma save_or_restore_confined:
  assumes "v_path v1 = v_path v" "retired v1 = retired v"
    and "\<And>u. v_path (restore before u) = v_path u \<and> retired (restore before u) = retired u"
  shows "confined v w (save_or_restore D E before restore v1 w)"
proof -
  obtain r v2 w2 where s: "save D E v1 w = (r, v2, w2)" by (cases "save D E v1 w")
  then have "confined v w (r, v2, w2)"
    using save_confined [of v1 w D E] confined_draft [OF assms(1,2)] by simp
  with s assms(3) show ?thesis
    by (cases r) (auto simp: save_or_restore_def confined_def)
qed

lemma restore_delta_flags: "v_path (restore_delta x u) = v_path u \<and> retired (restore_delta x u) = retired u"
  by (simp add: restore_delta_def split: vault_state.splits)

lemma edit_confined:
  assumes "v_path v1 = v_path v" "retired v1 = retired v" "fs w1 = fs w"
  shows "confined v w (save_or_restore D E x restore_delta v1 w1)"
  using confined_from [OF assms(3) save_or_restore_confined [OF assms(1,2) restore_delta_flags]] .

lemma confined_map:
  "confined v w out \<Longrightarrow>
     confined v w (case out of (Inl e, v', w') \<Rightarrow> (Inl e, v', w') | (Inr _, v', w') \<Rightarrow> (Inr x, v', w'))"
  by (auto simp: confined_def split: prod.splits sum.splits)

lemma tick_fs [simp]: "fs (next_tick w) = fs w"
  by (simp add: next_tick_def)

lemma insert_item_confined: "confined v w (insert_item D E label attributes secret content_type replace v w)"
proof -
  have "confined v w (insert_item_unchecked D E label attributes secret content_type replace v w)"
  proof (cases "v_state v")
    case Locked
    then show ?thesis by (simp add: insert_item_unchecked_def now_def confinedI)
  next
    case (Unlocked k its)
    show ?thesis
      unfolding insert_item_unchecked_def Let_def now_def uuid_v4_def prod.case Unlocked vault_state.case
      by (cases "if replace then position (\<lambda>i. it_attributes i = attributes) its else None")
        (simp_all only: option.case, (rule confined_map, rule edit_confined, simp_all)+)
  qed
  then show ?thesis by (auto simp: insert_item_def intro: confinedI split: sum.splits)
qed

lemma update_item_confined: "confined v w (update_item D E i f v w)"
  unfolding update_item_def Let_def now_def prod.case
  by (auto intro!: confinedI edit_confined simp: next_tick_def split: vault_state.splits option.splits)

lemma delete_item_confined: "confined v w (delete_item D E i v w)"
  unfolding delete_item_def by (auto intro!: confinedI edit_confined split: vault_state.splits option.splits)

lemma delete_items_confined: "confined v w (delete_items D E ids v w)"
  unfolding delete_items_def Let_def
  by (auto intro!: confinedI edit_confined split: vault_state.splits option.splits prod.splits)

lemma set_label_confined: "confined v w (set_label D E label v w)"
  unfolding set_label_def Let_def
  by (auto intro!: confinedI save_or_restore_confined split: vault_state.splits sum.splits)

lemma unlock_with_key_confined: "confined v w (unlock_with_key D E k v w)"
proof -
  have saved: "confined v w (case save D E u w of
      (Inr _, v2, w2) \<Rightarrow> (Inr (), v2\<lparr>index_warning := None\<rparr>, w2)
    | (Inl e, v2, w2) \<Rightarrow> (Inr (), v2\<lparr>index_warning := Some e\<rparr>, w2))"
    if "v_path u = v_path v" "retired u = retired v" for u
    using confined_draft [OF that save_confined, of w D E]
    by (auto simp: confined_def split: prod.splits sum.splits)
  show ?thesis
    unfolding unlock_with_key_def Let_def by (auto intro!: confinedI saved split: sum.splits)
qed

lemma sweep_confined:
  assumes "confined v w (r, v', w')"
  shows "confined v w (r', v', sweep_dir_now E u w')"
proof -
  have "content (sweep_dir_now E u w') q = content w' q" if "vault_path q" for q
    using that by (intro keeps_content sweep_dir_now_keeps)
  with assms show ?thesis by (simp add: confined_def)
qed

lemma set_key_flags [simp]: "v_path (set_key k v) = v_path v" "retired (set_key k v) = retired v"
  by (simp_all add: set_key_def split: vault_state.splits)

lemma lock_flags [simp]: "v_path (lock v) = v_path v" "retired (lock v) = retired v"
  by (simp_all add: lock_def)

lemma rotate_key_confined:
  "confined v w (rotate_key D E was_locked old_key new_salt new_kdf new_key new_index_salt v w)"
proof -
  define v1 where "v1 = set_key new_key (v\<lparr>v_header := (v_header v)\<lparr>h_salt := new_salt, h_kdf := new_kdf,
    h_index_salt := new_index_salt\<rparr>\<rparr>)"
  have f: "v_path v1 = v_path v" "retired v1 = retired v" by (simp_all add: v1_def)
  obtain r v2 w2 where s: "save D E v1 w = (r, v2, w2)" by (cases "save D E v1 w")
  then have c: "confined v w (r, v2, w2)" using confined_draft [OF f save_confined, of w D E] by simp
  have c': "confined v w (r' :: vault_error + unit, v', w2)" if "v_path v' = v_path v2" "retired v' = retired v2" for r' v'
    using c that by (simp add: confined_def)
  show ?thesis
  proof (cases r)
    case (Inl e)
    then show ?thesis
      unfolding rotate_key_def Let_def v1_def [symmetric] s by (simp add: c')
  next
    case (Inr u)
    then show ?thesis
      unfolding rotate_key_def Let_def v1_def [symmetric] s
      by (auto intro!: sweep_confined [where r = "Inr ()"] c')
  qed
qed

lemma change_key_confined: "confined v w (change_key D E old_key new_salt new_kdf new_key v w)"
proof (cases "\<exists>u n w1. validate new_kdf = Inr u \<and> new_salt \<noteq> h_salt (v_header v)
    \<and> try_random_bytes E SALT_LEN w = (Inr n, w1)")
  case False
  then show ?thesis
    using try_random_bytes_world [of E SALT_LEN w]
    by (auto simp: change_key_def intro: confinedI split: sum.splits prod.splits)
next
  case True
  then obtain u n w1 where g: "validate new_kdf = Inr u" "new_salt \<noteq> h_salt (v_header v)"
    and rb: "try_random_bytes E SALT_LEN w = (Inr n, w1)" by blast
  have w1: "w1 = next_tick w" using try_random_bytes_world [of E SALT_LEN w] rb by simp
  let ?w2 = "sweep_dir_now E v w1"
  have c0: "confined v w (r, v, ?w2)" for r :: "vault_error + unit"
    by (rule sweep_confined [OF confinedI]) (simp_all add: w1)
  note rotates = confined_trans [OF c0 rotate_key_confined]
  show ?thesis
  proof (cases "is_locked v")
    case False
    with g rb rotates c0 show ?thesis by (simp add: change_key_def Let_def)
  next
    case True
    obtain r3 v3 w3 where u: "unlock_with_key D E old_key v ?w2 = (r3, v3, w3)"
      by (cases "unlock_with_key D E old_key v ?w2")
    then have c3: "confined v w (r3, v3, w3)"
      using confined_trans [OF c0 unlock_with_key_confined] by metis
    then have "confined v w (Inl e :: vault_error + unit, v3, w3)" for e by (simp add: confined_def)
    with g rb True u confined_trans [OF c3 rotate_key_confined] show ?thesis
      by (cases r3) (simp_all add: change_key_def Let_def)
  qed
qed

text \<open>Creating a vault touches no file that has content.\<close>

lemma create_confined:
  assumes "create D E p label password kdf w = (r, w')" "vault_path q"
    and "q \<noteq> p \<or> (\<exists>b. content w q = Some b \<and> b \<noteq> [])"
  shows "content w' q = content w q"
proof (cases "q = p")
  case True
  with assms create_existing(2) show ?thesis by metis
next
  case False
  obtain r1 w1 where e: "ensure_vault_dir E (parent_or_dot p) w = (r1, w1)" by fastforce
  obtain r2 w2 where b: "build D E p label password kdf w1 = (r2, w2)" by fastforce
  have c1: "content w1 q = content w q"
    using keeps_content [OF ensure_vault_dir_keeps [of q w E "parent_or_dot p"]] e by simp
  then have c2: "content w2 q = content w q" using keeps_content [OF build_world [OF b]] by simp
  show ?thesis
  proof (cases "\<exists>u v. r1 = Inr u \<and> r2 = Inr v")
    case False
    with assms(1) e b c1 c2 show ?thesis by (auto simp: create_def Let_def split: sum.splits)
  next
    case True
    then obtain v where v: "r1 = Inr ()" "r2 = Inr v" by auto
    then have "v_path v = p" using build_Inr(1) b by blast
    then have "content (snd (snd (save_with D E (publish_new E) v w2))) q = content w2 q"
      using creating.save_with_frame [of q v] assms(2) False by (simp add: vault_path_def)
    with assms(1) e b v c2 show ?thesis by (auto simp: create_def Let_def split: prod.splits sum.splits)
  qed
qed

section \<open>Operations the daemon may run on a vault\<close>

definition well_behaved :: "vault_lib \<Rightarrow> (vault \<Rightarrow> world \<Rightarrow> 'a outcome) \<Rightarrow> bool" where
  "well_behaved D f \<longleftrightarrow> (\<forall>v w. confined v w (f v w)
     \<and> (vault_ok D v w \<longrightarrow> vault_ok D (fst (snd (f v w))) (snd (snd (f v w)))))"

lemma well_behaved_contract:
  assumes "\<And>v w. confined v w (f v w)" "\<And>v w. vault_ok D v w \<Longrightarrow> contract D v (f v w) (eff v w)"
  shows "well_behaved D f"
proof -
  have "vault_ok D (fst (snd (f v w))) (snd (snd (f v w)))" if "vault_ok D v w" for v w
    using assms(2) [OF that] by (cases "f v w") (simp add: contract_def)
  with assms(1) show ?thesis by (simp add: well_behaved_def)
qed

lemma operations_well_behaved:
  assumes "lib_correct D"
  shows "well_behaved D (insert_item D E label attributes secret content_type replace)"
    "well_behaved D (update_item D E i f)" "well_behaved D (delete_item D E i)" "well_behaved D (set_label D E label)"
  by (rule well_behaved_contract, rule insert_item_confined, erule insert_item_contract [OF assms])
    (rule well_behaved_contract, rule update_item_confined, erule update_item_contract [OF assms],
     rule well_behaved_contract, rule delete_item_confined, erule delete_item_contract [OF assms],
     rule well_behaved_contract, rule set_label_confined, erule set_label_contract [OF assms])

lemma delete_items_well_behaved: "lib_correct D \<Longrightarrow> well_behaved D (delete_items D E ids)"
proof (cases "ids = []")
  case True
  then show ?thesis by (simp add: well_behaved_def delete_items_def confinedI)
next
  case False
  assume "lib_correct D"
  show ?thesis
    by (rule well_behaved_contract, rule delete_items_confined, rule delete_items_contract [OF \<open>lib_correct D\<close> _ False])
qed

lemma unlock_with_key_well_behaved:
  assumes "lib_correct D"
  shows "well_behaved D (unlock_with_key D E k)"
proof -
  have "vault_ok D (fst (snd (unlock_with_key D E k v w))) (snd (snd (unlock_with_key D E k v w)))"
    if "vault_ok D v w" for v w
    using unlock_with_key_ok(1) [OF assms that, of E k] by (cases "unlock_with_key D E k v w") simp
  then show ?thesis by (simp add: well_behaved_def unlock_with_key_confined)
qed

lemma change_key_well_behaved:
  assumes "lib_correct D"
  shows "well_behaved D (change_key D E old_key new_salt new_kdf new_key)"
proof -
  let ?f = "change_key D E old_key new_salt new_kdf new_key"
  have "vault_ok D (fst (snd (?f v w))) (snd (snd (?f v w)))" if "vault_ok D v w" for v w
    using change_key_ok [OF assms that, of old_key new_salt new_kdf new_key E]
    by (cases "?f v w") (simp add: key_changed_def)
  then show ?thesis by (simp add: well_behaved_def change_key_confined)
qed

end
