(* ===== verification/Alias_Proofs.thy ===== *)
theory Alias_Proofs
  imports Alias_Table Vault_Demo
begin

text \<open>
  What an update of the alias table guarantees: alone, and interleaved with
  other writers.
\<close>

section \<open>The file\<close>

text \<open>The table the alias file holds, if it holds one.\<close>

definition file_table :: "alias_lib \<Rightarrow> path \<Rightarrow> world \<Rightarrow> attrs option" where
  "file_table T dir w =
     (case content w (alias_path_in dir) of
        None \<Rightarrow> None
      | Some bs \<Rightarrow> (case from_utf8 bs of
                     None \<Rightarrow> None
                   | Some src \<Rightarrow> (case toml_from_str T src of Inl _ \<Rightarrow> None | Inr t \<Rightarrow> Some t)))"

lemma save_aliases_Inr:
  assumes "toml_ok T" "save_aliases_to T E dir table w = (Inr (), w')"
  shows "file_table T dir w' = Some table"
proof -
  obtain w1 src where t: "toml_to_string T table = Inr src"
    and wr: "write_atomic E (alias_path_in dir) (str_bytes src) 438 w1 = (Inr (), w')"
    using assms(2) by (auto simp: save_aliases_to_def split: prod.splits sum.splits)
  have "content w' (alias_path_in dir) = Some (str_bytes src)" by (rule write_atomic_Inr [OF wr])
  with assms(1) t show ?thesis by (auto simp: file_table_def toml_ok_def from_utf8_str_bytes)
qed

lemma save_aliases_Inl:
  assumes "save_aliases_to T E dir table w = (Inl e, w')"
  shows "keeps (alias_path_in dir) w w'"
proof -
  obtain r w1 where e: "ensure_vault_dir E dir w = (r, w1)" by fastforce
  have k: "keeps (alias_path_in dir) w w1" using ensure_vault_dir_keeps [of _ w E dir] e by simp
  show ?thesis
    using assms e k by (auto simp: save_aliases_to_def split: sum.splits prod.splits
        dest!: write_atomic_Inl intro: keeps_trans)
qed

lemma save_aliases_other:
  assumes "\<not> is_temp_path q" "q \<noteq> alias_path_in dir"
  shows "keeps q w (snd (save_aliases_to T E dir table w))"
proof -
  obtain r w1 where e: "ensure_vault_dir E dir w = (r, w1)" by fastforce
  have k: "keeps q w w1" using ensure_vault_dir_keeps [of q w E dir] e by simp
  have wr: "keeps q w1 w2" if "write_atomic E (alias_path_in dir) bs m w1 = (r2, w2)" for bs m r2 w2
    using write_atomic_keeps [OF assms, of w1 E bs m] that by simp
  show ?thesis
    using e k by (auto simp: save_aliases_to_def split: sum.splits prod.splits dest!: wr intro: keeps_trans)
qed

text \<open>What is saved is what the next start reads.\<close>

lemma load_after_save:
  assumes "working E" "file_table T dir w = Some table"
    and "\<And>bs. content w (alias_path_in dir) = Some bs \<Longrightarrow> length bs \<le> MAX_ALIAS_BYTES"
  shows "\<exists>w'. load_aliases T E dir w = (Inr table, w')"
proof -
  obtain bs src where c: "content w (alias_path_in dir) = Some bs" and u: "from_utf8 bs = Some src"
    and t: "toml_from_str T src = Inr table"
    using assms(2) by (auto simp: file_table_def split: option.splits sum.splits)
  from c obtain node where n: "map_of (fs w) (alias_path_in dir) = Some node" "f_bytes node = bs"
    by (auto simp: content_def)
  have "content (next_tick w) (alias_path_in dir) = Some bs" using c by (simp add: content_def next_tick_def)
  with n u t assms(1) assms(3) [OF c] show ?thesis
    by (auto simp: load_aliases_def sys_metadata_def sys_read_def working_def)
qed

text \<open>
  The temp file of an interrupted alias write is not one of those the stale-file
  sweep recognises.
\<close>

lemma alias_temp_not_recognised: "\<not> is_write_atomic_temp_name (temp_name ALIAS_FILE suf)"
proof
  assume "is_write_atomic_temp_name (temp_name ALIAS_FILE suf)"
  then obtain base hex where b: "temp_name ALIAS_FILE suf = base @ lit ''.vault'' @ lit ''.'' @ hex @ lit ''.tmp''"
    and h: "list_all lower_hex_byte hex"
    by (auto simp: temp_name_recognised_iff temp_shape_def)
  let ?hex = "concat (map (\<lambda>b. hex_byte (unat b)) suf)"
  have small: "list_all lower_hex_byte ?hex"
    using hex_byte_lower unsigned_less [where ?'a = nat and ?'b = 8] by (fastforce simp: list_all_iff)
  have dot: "lower_hex_byte x \<Longrightarrow> x \<noteq> 46" for x by (auto simp: lower_hex_byte_def)
  have "ALIAS_FILE @ 46 # ?hex = (base @ lit ''.vault'') @ 46 # hex"
    using b by (simp add: temp_name_def lit_def)
  then have "rsplit_once 46 (ALIAS_FILE @ 46 # ?hex) = rsplit_once 46 ((base @ lit ''.vault'') @ 46 # hex)" by simp
  moreover have "rsplit_once 46 (ALIAS_FILE @ 46 # ?hex) = Some (ALIAS_FILE, ?hex)"
    using small dot by (auto simp: rsplit_once_Some_iff list_all_iff)
  moreover have "rsplit_once 46 ((base @ lit ''.vault'') @ 46 # hex) = Some (base @ lit ''.vault'', hex)"
    using h dot by (auto simp: rsplit_once_Some_iff list_all_iff)
  ultimately have "ALIAS_FILE = base @ lit ''.vault''" by simp
  then have "last ALIAS_FILE = last (base @ lit ''.vault'')" by simp
  then show False by (simp add: ALIAS_FILE_def lit_def)
qed

section \<open>One update\<close>

lemma update_begin_Inr: "update_begin t edit = Inr (base, new) \<longleftrightarrow> t = Usable base \<and> edit base = Inr new"
  by (cases t) (auto simp: update_begin_def split: sum.splits)

lemma update_commit_fresh:
  "update_commit mode n base new written (Usable base) =
     (case written of Inr _ \<Rightarrow> (Some Committed, Usable new)
      | Inl e \<Rightarrow> (Some (NotWritten e), if mode = Keep then Usable new else Usable base))"
  by (simp add: update_commit_def)

lemma update_aliases_eq:
  "update_aliases T E dir mode edit t w =
     (case update_begin t edit of
        Inl r \<Rightarrow> (r, t, w)
      | Inr (base, new) \<Rightarrow>
          (case save_aliases_to T E dir new w of
             (Inr _, w1) \<Rightarrow> (Committed, Usable new, w1)
           | (Inl e, w1) \<Rightarrow> (NotWritten e, if mode = Keep then Usable new else t, w1)))"
proof (cases "update_begin t edit")
  case (Inr x)
  obtain base new where x: "x = (base, new)" by fastforce
  with Inr have t: "t = Usable base" by (simp add: update_begin_Inr)
  have b: "update_begin (Usable base) edit = Inr (base, new)" using Inr x t by simp
  obtain wr w1 where sv: "save_aliases_to T E dir new w = (wr, w1)" by fastforce
  show ?thesis
    unfolding update_aliases_def t
    by (subst update_from.simps, cases wr) (simp_all add: b sv update_commit_fresh)
qed (simp add: update_aliases_def update_from.simps)

text \<open>The concrete file format and state used to evaluate the theorems below.\<close>

definition demo_toml :: alias_lib where
  "demo_toml = \<lparr>
     toml_to_string = (\<lambda>t. case put (w_list (w_pair w_str w_str)) t of
        None \<Rightarrow> Inl [] | Some bs \<Rightarrow> Inr (map unat bs)),
     toml_from_str = (\<lambda>s. case get (w_list (w_pair w_str w_str)) (map word_of_nat s) of
        Some (t, []) \<Rightarrow> Inr t | _ \<Rightarrow> Inl [])\<rparr>"

lemma demo_toml_ok: "toml_ok demo_toml"
proof -
  have ok: "wire_ok (w_list (w_pair w_str w_str))" unfolding w_str_def by (intro wire_oks)
  have "is_scalar (unat b)" for b :: byte
    using unsigned_less [of b, where ?'a = nat] by (auto simp: is_scalar_def)
  with wire_okD [OF ok, where rest = "[]"] show ?thesis
    by (auto simp: toml_ok_def demo_toml_def o_def split: option.splits)
qed

definition demo_dir :: path where "demo_dir = [lit ''v'']"
definition demo_alias :: attrs where "demo_alias = [(lit ''a'', lit ''b'')]"

definition demo_saved :: "attrs \<Rightarrow> world \<Rightarrow> world" where
  "demo_saved t w = snd (save_aliases_to demo_toml demo_env demo_dir t w)"

lemma demo_save_works:
  assumes "tidy (alias_path_in demo_dir) w"
  shows "save_aliases_to demo_toml demo_env demo_dir t w = (Inr (), demo_saved t w)
    \<and> tidy (alias_path_in demo_dir) (demo_saved t w)"
proof -
  have E: "working demo_env" by (simp add: working_def demo_env_def)
  have d: "parent_or_dot (alias_path_in demo_dir) = demo_dir"
    by (simp add: alias_path_in_def parent_or_dot_def parent_def)
  with assms have free: "map_of (fs w) demo_dir = None" by (simp add: tidy_def)
  obtain w1 where e: "ensure_vault_dir demo_env demo_dir w = (Inr (), w1)" "fs w1 = fs w" "map_of (dirs w1) demo_dir \<noteq> None"
    and fr: "\<And>q. \<not> prefix q demo_dir \<Longrightarrow> map_of (dirs w1) q = map_of (dirs w) q"
    using ensure_vault_dir_works [OF E free] by blast
  have "tidy (alias_path_in demo_dir) w1" using assms e(2) fr d by (simp add: tidy_def)
  note t1 = this
  have ne: "\<not> is_temp_path (alias_path_in demo_dir)" "demo_dir \<noteq> alias_path_in demo_dir"
    by (simp_all add: is_temp_path_def alias_path_in_def ALIAS_FILE_def lit_def strip_suffix_def)
  have wr: "\<exists>w'. write_atomic demo_env (alias_path_in demo_dir) bs m w1 = (Inr (), w') \<and> tidy (alias_path_in demo_dir) w'" for bs m
  proof -
    obtain w' where w': "write_atomic demo_env (alias_path_in demo_dir) bs m w1 = (Inr (), w')" "dirs w' = dirs w1"
      and fs: "\<And>q. q \<noteq> alias_path_in demo_dir \<Longrightarrow> map_of (fs w') q = map_of (fs w1) q"
      using write_atomic_works [OF E t1, of bs m] d e(3) by auto
    have "map_of (fs w') (demo_dir @ [n]) = map_of (fs w1) (demo_dir @ [n])" if "is_temp_path (demo_dir @ [n])" for n
      using that ne(1) by (intro fs) auto
    with t1 w'(2) fs [OF ne(2)] have "tidy (alias_path_in demo_dir) w'" by (simp add: tidy_def d)
    with w'(1) show ?thesis by blast
  qed
  have "toml_to_string demo_toml t \<noteq> Inl x" for x
  proof -
    have "put_seq w_nat s \<noteq> None" for s by (induction s) (auto simp: w_nat_def split: option.splits)
    then have "put w_str s \<noteq> None" for s by (auto simp: w_str_def w_list_def split: option.splits)
    then have str: "\<exists>bs. put w_str s = Some bs" for s by auto
    have "put (w_pair w_str w_str) p \<noteq> None" for p
      using str [of "fst p"] str [of "snd p"] by (cases p) (auto simp: w_pair_def)
    then have "put_seq (w_pair w_str w_str) t \<noteq> None" by (induction t) (auto split: option.splits)
    then show ?thesis by (auto simp: demo_toml_def w_list_def split: option.splits)
  qed
  then obtain s where "toml_to_string demo_toml t = Inr s" by (metis sum.exhaust)
  with wr [of "str_bytes s" 438] show ?thesis by (auto simp: demo_saved_def save_aliases_to_def e(1))
qed

text \<open>
  C21: One update on its own. A commit means the edit applied to the table is in
  memory and in the file; a failed write leaves the file as it was and the
  table either as it was or edited, as the caller asked; an unreadable table is
  never replaced, and neither that nor a refused edit touches anything.
\<close>

theorem update_aliases_alone:
  assumes "toml_ok T" "update_aliases T E dir mode edit t w = (r, t', w')"
  shows "case r of
      Committed \<Rightarrow> \<exists>base new. t = Usable base \<and> edit base = Inr new \<and> t' = Usable new \<and> file_table T dir w' = Some new
    | NotWritten e \<Rightarrow> keeps (alias_path_in dir) w w' \<and>
        (\<exists>base new. t = Usable base \<and> edit base = Inr new \<and> t' = (if mode = Keep then Usable new else t))
    | Unusable reason \<Rightarrow> unusable t = Some reason \<and> t' = t \<and> w' = w
    | Rejected e \<Rightarrow> (\<exists>base. t = Usable base \<and> edit base = Inl e) \<and> t' = t \<and> w' = w"
proof (cases "update_begin t edit")
  case (Inl stop)
  with assms(2) show ?thesis
    by (cases t) (auto simp: update_aliases_eq update_begin_def split: sum.splits)
next
  case (Inr x)
  obtain base new where x: "x = (base, new)" by fastforce
  with Inr have t: "t = Usable base" "edit base = Inr new" by (simp_all add: update_begin_Inr)
  obtain wr w1 where s: "save_aliases_to T E dir new w = (wr, w1)" by fastforce
  have run: "(r, t', w') = (case wr of Inr _ \<Rightarrow> (Committed, Usable new, w1)
      | Inl e \<Rightarrow> (NotWritten e, if mode = Keep then Usable new else t, w1))"
    using assms(2) Inr x s by (simp add: update_aliases_eq split: sum.splits)
  show ?thesis
  proof (cases wr)
    case (Inl e)
    have "keeps (alias_path_in dir) w w1" by (rule save_aliases_Inl [OF s [unfolded Inl]])
    with run t Inl show ?thesis by (auto intro!: exI [of _ base] exI [of _ new])
  next
    case (Inr u)
    with save_aliases_Inr [OF assms(1), of E dir new w w1] run t s show ?thesis by auto
  qed
qed

lemma demo_tidy0: "tidy (alias_path_in demo_dir) demo_start"
  by (simp add: tidy_def demo_start_def)

theorem update_aliases_alone_witness:
  "fst (update_aliases demo_toml demo_env demo_dir Refuse (\<lambda>t. Inr demo_alias :: unit + attrs) (Usable []) demo_start) = Committed
   \<and> file_table demo_toml demo_dir (demo_saved demo_alias demo_start) = Some demo_alias"
proof -
  have run: "update_aliases demo_toml demo_env demo_dir Refuse (\<lambda>t. Inr demo_alias :: unit + attrs) (Usable []) demo_start
     = (Committed, Usable demo_alias, demo_saved demo_alias demo_start)"
    by (simp add: update_aliases_eq update_begin_def demo_save_works [OF demo_tidy0, THEN conjunct1])
  from update_aliases_alone [OF demo_toml_ok run] show ?thesis by (simp add: run)
qed

section \<open>Interleaved updates\<close>








definition demo_edit :: "nat \<Rightarrow> unit \<Rightarrow> attrs \<Rightarrow> unit + attrs" where
  "demo_edit i y t = Inr (if i = 0 then demo_alias else t)"






text \<open>
  C23: The compare-and-swap compares contents, so an update that changes nothing
  is invisible to it. A writer sets an alias while another rewrites the table
  unchanged: both are told their update was committed, the table in memory has
  the new alias, and the file does not. The next start forgets the alias.
\<close>

theorem alias_commit_not_in_file:
  fixes edit :: "nat \<Rightarrow> 's \<Rightarrow> attrs \<Rightarrow> 'e + attrs"
  assumes "toml_ok T" "i \<noteq> j" "edit i x t0 = Inr t1" "edit j x t0 = Inr t0" "t1 \<noteq> t0"
    and "save_aliases_to T E dir t1 w = (Inr (), w1)" "save_aliases_to T E dir t0 w1 = (Inr (), w2)"
  shows "\<exists>s. alias_reach T E dir mode edit (alias_start (Usable t0) x w) s
    \<and> pcs s i = Finished Committed \<and> pcs s j = Finished Committed
    \<and> tbl s = Usable t1 \<and> file_table T dir (disk s) = Some t0"
proof -
  let ?step = "alias_step T E dir mode edit"
  define s0 where "s0 = (alias_start (Usable t0) x w :: ('s, 'e) alias_sys)"
  define s1 where "s1 = s0\<lparr>pcs := (pcs s0)(i := Writing 1 t0 t1)\<rparr>"
  define s2 where "s2 = s1\<lparr>pcs := (pcs s1)(j := Writing 1 t0 t0)\<rparr>"
  define s3 where "s3 = s2\<lparr>disk := w1, pcs := (pcs s2)(i := Wrote 1 t0 t1 (Inr ()))\<rparr>"
  define s4 where "s4 = s3\<lparr>disk := w2, pcs := (pcs s3)(j := Wrote 1 t0 t0 (Inr ()))\<rparr>"
  define s5 where "s5 = s4\<lparr>tbl := Usable t0, pcs := (pcs s4)(j := Finished Committed)\<rparr>"
  define s6 where "s6 = s5\<lparr>tbl := Usable t1, pcs := (pcs s5)(i := Finished Committed)\<rparr>"
  note defs = s1_def s2_def s3_def s4_def s5_def s6_def s0_def alias_start_def
  have "?step s0 s1" unfolding s1_def
    using assms by - (rule alias_step.edit_step, (simp add: defs update_begin_Inr)+)
  moreover have "?step s1 s2" unfolding s2_def
    using assms by - (rule alias_step.edit_step, (simp add: defs update_begin_Inr)+)
  moreover have "?step s2 s3" unfolding s3_def
    using assms by - (rule alias_step.write_step, (simp add: defs)+)
  moreover have "?step s3 s4" unfolding s4_def
    using assms by - (rule alias_step.write_step, (simp add: defs)+)
  moreover have "?step s4 s5" unfolding s5_def
    using assms by - (rule alias_step.commit_step, (simp add: defs update_commit_fresh)+)
  moreover have "?step s5 s6" unfolding s6_def
    using assms by - (rule alias_step.commit_step, (simp add: defs update_commit_fresh)+)
  ultimately have "alias_reach T E dir mode edit s0 s6"
    unfolding alias_reach_def by (meson r_into_rtranclp rtranclp.rtrancl_into_rtrancl)
  moreover have "file_table T dir (disk s6) = Some t0"
    using save_aliases_Inr [OF assms(1,7)] by (simp add: defs)
  ultimately show ?thesis
    using assms(2) unfolding s0_def [symmetric] by (intro exI [of _ s6]) (simp add: s5_def s6_def)
qed

theorem alias_commit_not_in_file_witness:
  "\<exists>s. alias_reach demo_toml demo_env demo_dir (\<lambda>_. Refuse) demo_edit (alias_start (Usable []) () demo_start) s
    \<and> pcs s 0 = Finished Committed \<and> pcs s 1 = Finished Committed
    \<and> tbl s = Usable demo_alias \<and> file_table demo_toml demo_dir (disk s) = Some []"
proof -
  note a = demo_save_works [OF demo_tidy0, of demo_alias]
  note b = demo_save_works [OF a [THEN conjunct2], of "[]"]
  have "(0 :: nat) \<noteq> 1" "demo_edit 0 () [] = Inr demo_alias" "demo_edit 1 () [] = Inr []" "demo_alias \<noteq> []"
    by (simp_all add: demo_edit_def demo_alias_def)
  from alias_commit_not_in_file [where edit = demo_edit, OF demo_toml_ok this a [THEN conjunct1] b [THEN conjunct1]]
  show ?thesis .
qed

end
