(* ===== verification/Daemon_Invariant.thy ===== *)
theory Daemon_Invariant
  imports Daemon_Control Vault_Frames Alias_Proofs
begin

text \<open>
  The daemon's invariant and how its steps are shown to keep it: every loaded
  collection is an intact vault of its own file, the tables are maps, and no
  client holds more sessions or prompts than its quota. \<open>safe\<close> relates a daemon
  to one after some work: the invariant is kept, and so is what a suspended task
  may rely on, that references stay valid and keep their file. The operations
  are composed from steps by \<open>and_then\<close>, so their proofs are too.
\<close>

section \<open>The invariant\<close>

definition vaults_ok :: "platform \<Rightarrow> daemon \<Rightarrow> bool" where
  "vaults_ok P d \<longleftrightarrow>
     (\<forall>cid r. (cid, r) \<in> set (collections (st d)) \<longrightarrow>
        r < next_ref d \<and> is_segment cid \<and> v_path (heap d r) = vault_file_path (vault_dir (st d)) cid
        \<and> \<not> retired (heap d r) \<and> vault_ok (lib P) (heap d r) (wld d))"

definition tables_ok :: "service_state \<Rightarrow> bool" where
  "tables_ok s \<longleftrightarrow> bt_sorted (collections s) \<and> bt_sorted (broken s) \<and> bt_sorted (sessions s)
     \<and> bt_sorted (prompt_owners s) \<and> bt_sorted (prompt_tasks s) \<and> bt_sorted (prompt_commits s)
     \<and> bt_sorted (prompt_unlocked s)"

definition quotas_ok :: "service_state \<Rightarrow> bool" where
  "quotas_ok s \<longleftrightarrow>
     (\<forall>owner. session_count s owner \<le> MAX_SESSIONS_PER_SENDER \<and> prompt_count s owner \<le> MAX_PROMPTS_PER_OWNER)"

definition daemon_ok :: "platform \<Rightarrow> daemon \<Rightarrow> bool" where
  "daemon_ok P d \<longleftrightarrow> vaults_ok P d \<and> tables_ok (st d) \<and> quotas_ok (st d)"

definition evolves :: "daemon \<Rightarrow> daemon \<Rightarrow> bool" where
  "evolves d d' \<longleftrightarrow> next_ref d \<le> next_ref d' \<and> vault_dir (st d') = vault_dir (st d)
     \<and> (\<forall>r<next_ref d. v_path (heap d' r) = v_path (heap d r))"

definition safe :: "platform \<Rightarrow> daemon \<Rightarrow> daemon \<Rightarrow> bool" where
  "safe P d d' \<longleftrightarrow> (daemon_ok P d \<longrightarrow> daemon_ok P d' \<and> evolves d d')"

lemma evolves_refl [simp]: "evolves d d"
  by (simp add: evolves_def)

lemma evolves_trans: "evolves d d1 \<Longrightarrow> evolves d1 d2 \<Longrightarrow> evolves d d2"
  by (auto simp: evolves_def)

lemma safe_refl [simp]: "safe P d d"
  by (simp add: safe_def)

lemma safe_trans: "safe P d d1 \<Longrightarrow> safe P d1 d2 \<Longrightarrow> safe P d d2"
  unfolding safe_def using evolves_trans by blast

lemma safe_and_then:
  assumes "safe P d (snd m)" "\<And>a s. m = (Inr a, s) \<Longrightarrow> safe P s (snd (f a s))"
  shows "safe P d (snd (and_then m f))"
  using assms by (cases m; cases "fst m") (auto intro: safe_trans)

lemma safe_fold: "(\<And>x d. x \<in> set xs \<Longrightarrow> safe P d (f x d)) \<Longrightarrow> safe P d (fold f xs d)"
  by (induction xs arbitrary: d) (auto intro: safe_trans)

section \<open>Steps that touch no vault and no table\<close>

lemma vault_file_path_ok [simp]: "vault_path (vault_file_path dir cid)"
  using vault_path_not_temp [of dir cid] by (simp add: vault_path_def vault_file_path_def)

lemma vault_file_path_inj [simp]: "vault_file_path dir a = vault_file_path dir b \<longleftrightarrow> a = b"
  by (simp add: vault_file_path_def)

lemma vault_file_not_aliases [simp]: "vault_file_path dir cid \<noteq> alias_path_in dir"
proof
  assume "vault_file_path dir cid = alias_path_in dir"
  then have "last (cid @ lit ''.vault'') = last ALIAS_FILE"
    by (simp add: vault_file_path_def alias_path_in_def)
  then show False by (simp add: lit_def ALIAS_FILE_def)
qed

definition same_book :: "service_state \<Rightarrow> service_state \<Rightarrow> bool" where
  "same_book s s' \<longleftrightarrow> vault_dir s' = vault_dir s \<and> collections s' = collections s \<and> broken s' = broken s
     \<and> sessions s' = sessions s \<and> prompt_owners s' = prompt_owners s \<and> prompt_tasks s' = prompt_tasks s
     \<and> prompt_commits s' = prompt_commits s \<and> prompt_unlocked s' = prompt_unlocked s"

definition same_files :: "path \<Rightarrow> world \<Rightarrow> world \<Rightarrow> bool" where
  "same_files dir w w' \<longleftrightarrow> (\<forall>cid. content w' (vault_file_path dir cid) = content w (vault_file_path dir cid))"

definition quiet :: "daemon \<Rightarrow> daemon \<Rightarrow> bool" where
  "quiet d d' \<longleftrightarrow> same_book (st d) (st d') \<and> heap d' = heap d \<and> next_ref d' = next_ref d
     \<and> same_files (vault_dir (st d)) (wld d) (wld d')"

lemma same_files_refl [simp]: "same_files dir w w"
  by (simp add: same_files_def)

lemma same_files_fs: "fs w' = fs w \<Longrightarrow> same_files dir w w'"
  by (simp add: same_files_def content_def)

lemma same_files_trans: "same_files dir w w1 \<Longrightarrow> same_files dir w1 w2 \<Longrightarrow> same_files dir w w2"
  by (simp add: same_files_def)

lemma quiet_refl [simp]: "quiet d d"
  by (simp add: quiet_def same_book_def)

lemma quiet_trans: "quiet d d1 \<Longrightarrow> quiet d1 d2 \<Longrightarrow> quiet d d2"
  by (auto simp: quiet_def same_book_def same_files_def)

lemma vaults_okD:
  assumes "vaults_ok P d" "(cid, r) \<in> set (collections (st d))"
  shows "r < next_ref d" "is_segment cid" "v_path (heap d r) = vault_file_path (vault_dir (st d)) cid"
    "\<not> retired (heap d r)" "vault_ok (lib P) (heap d r) (wld d)"
  using assms by (auto simp: vaults_ok_def)

lemma same_book_ok: "same_book s s' \<Longrightarrow> tables_ok s' = tables_ok s \<and> quotas_ok s' = quotas_ok s"
  by (simp add: tables_ok_def quotas_ok_def same_book_def session_count_def prompt_count_def)

lemma vaults_ok_same_files:
  assumes "vaults_ok P d" "collections (st d') = collections (st d)" "vault_dir (st d') = vault_dir (st d)"
    and "heap d' = heap d" "next_ref d' = next_ref d" "same_files (vault_dir (st d)) (wld d) (wld d')"
  shows "vaults_ok P d'"
  unfolding vaults_ok_def
proof (intro allI impI)
  fix cid r
  assume "(cid, r) \<in> set (collections (st d'))"
  then have m: "(cid, r) \<in> set (collections (st d))" using assms(2) by simp
  note v = vaults_okD [OF assms(1) m]
  have "content (wld d') (v_path (heap d r)) = content (wld d) (v_path (heap d r))"
    using assms(6) v(3) by (simp add: same_files_def)
  from vault_ok_world [OF v(5) this] v(1-4) assms(3-5)
  show "r < next_ref d' \<and> is_segment cid \<and> v_path (heap d' r) = vault_file_path (vault_dir (st d')) cid
      \<and> \<not> retired (heap d' r) \<and> vault_ok (lib P) (heap d' r) (wld d')" by simp
qed

lemma quiet_safe: "quiet d d' \<Longrightarrow> safe P d d'"
  using vaults_ok_same_files [of P d d'] same_book_ok [of "st d" "st d'"]
  unfolding safe_def daemon_ok_def quiet_def evolves_def by (simp add: same_book_def)

lemma quiet_and_then:
  assumes "quiet d (snd m)" "\<And>a s. m = (Inr a, s) \<Longrightarrow> quiet s (snd (f a s))"
  shows "quiet d (snd (and_then m f))"
  using assms by (cases m; cases "fst m") (auto intro: quiet_trans)

lemma quiet_fold: "(\<And>x d. x \<in> set xs \<Longrightarrow> quiet d (f x d)) \<Longrightarrow> quiet d (fold f xs d)"
  by (induction xs arbitrary: d) (auto intro: quiet_trans)

named_theorems quiet

lemma quiet_fields [quiet]:
  "quiet d (d\<lparr>exports := x\<rparr>)" "quiet d (d\<lparr>signals := s\<rparr>)" "quiet d (d\<lparr>prompts := p\<rparr>)"
  "quiet d (d\<lparr>tasks := t\<rparr>)" "quiet d (d\<lparr>tasks := t, next_task := n\<rparr>)"
  by (simp_all add: quiet_def same_book_def)

lemma quiet_tick [quiet]: "quiet d (set_wld (next_tick (wld d)) d)"
  by (simp add: quiet_def same_book_def set_wld_def same_files_fs)

lemma quiet_wld: "same_files (vault_dir (st d)) (wld d) w \<Longrightarrow> quiet d (set_wld w d)"
  by (simp add: quiet_def same_book_def set_wld_def)

lemma quiet_emit [quiet]: "quiet d (snd (emit P s d))"
  by (simp add: emit_def quiet_def same_book_def set_wld_def same_files_fs Let_def split: option.splits)

lemma quiet_server_at [quiet]: "quiet d (snd (server_at P p i d))"
  by (simp add: server_at_def quiet_def same_book_def set_wld_def same_files_fs Let_def split: option.splits)

lemma quiet_server_remove [quiet]: "quiet d (server_remove p K d)"
  by (simp add: server_remove_def quiet)

lemma quiet_expect_path [quiet]: "quiet d (snd (expect_path p d))"
  by (simp add: expect_path_def split: option.splits)

lemma quiet_check [quiet]: "quiet d (snd (check r d))"
  by (simp add: check_def)

lemma quiet_touch [quiet]: "quiet d (touch P d)"
  by (simp add: touch_def quiet_def same_book_def set_st_def set_wld_def same_files_fs)

lemma quiet_try_emit [quiet]: "quiet d (try_emit P s d)"
  by (simp add: try_emit_def quiet)

lemma quiet_register_items [quiet]: "quiet d (snd (register_items P cid iids d))"
  by (induction P cid iids d rule: register_items.induct) (auto intro!: quiet_and_then quiet)

lemma quiet_register_item [quiet]: "quiet d (snd (register_item P cid iid d))"
  unfolding register_item_def by (intro quiet_and_then quiet)

lemma quiet_register_collection [quiet]: "quiet d (snd (register_collection P cid d))"
  unfolding register_collection_def by (intro quiet_and_then quiet)

lemma quiet_register_alias [quiet]: "quiet d (snd (register_alias P name d))"
  unfolding register_alias_def by (auto intro!: quiet_and_then quiet split: option.splits)

lemma quiet_register_each: "(\<And>x d. quiet d (snd (f x d))) \<Longrightarrow> quiet d (snd (register_each f xs d))"
  by (induction f xs d rule: register_each.induct) (auto intro!: quiet_and_then)

lemma quiet_register_all [quiet]: "quiet d (snd (register_all P d))"
  unfolding register_all_def Let_def by (intro quiet_and_then quiet_register_each quiet)

lemma quiet_server_remove2: "quiet d (server_remove p K (server_remove q L d))"
  by (rule quiet_trans [OF quiet_server_remove quiet_server_remove])

lemma quiet_unregister_alias [quiet]: "quiet d (unregister_alias name d)"
  by (simp add: unregister_alias_def quiet_server_remove2 split: option.splits)

lemma quiet_remove_items [quiet]: "quiet d (remove_items cid iids d)"
proof (induction cid iids d rule: remove_items.induct)
  case (2 cid iid rest d)
  then show ?case by (auto split: option.splits intro: quiet_trans [OF quiet_server_remove])
qed simp

lemma quiet_unregister_collection [quiet]: "quiet d (unregister_collection cid iids d)"
proof -
  have "quiet d (server_remove p is_collection (server_remove p is_admin (remove_items cid iids d)))" for p
    by (rule quiet_trans [OF quiet_remove_items quiet_server_remove2])
  then show ?thesis by (auto simp: unregister_collection_def Let_def quiet split: option.splits)
qed

lemma quiet_emit_locked_changed [quiet]: "quiet d (emit_locked_changed P p d)"
  by (simp add: emit_locked_changed_def quiet)

lemma quiet_emit_alias_changes [quiet]: "quiet d (emit_alias_changes P names d)"
proof (induction P names d rule: emit_alias_changes.induct)
  case (2 P name rest d)
  show ?case unfolding emit_alias_changes.simps
    by (rule quiet_trans [OF _ "2.IH"]) (simp add: quiet split: option.splits)
qed simp

lemma quiet_notify [quiet]: "quiet d (notify_collection_changed P cid d)" "quiet d (notify_collections_changed P d)"
proof -
  have "quiet d (emit_alias_changes P names (emit_locked_changed P p (try_emit P s d)))" for names p s
    by (rule quiet_trans [OF quiet_trans [OF quiet_try_emit quiet_emit_locked_changed] quiet_emit_alias_changes])
  then show "quiet d (notify_collection_changed P cid d)"
    by (auto simp: notify_collection_changed_def Let_def quiet split: option.splits)
  show "quiet d (notify_collections_changed P d)" by (simp add: notify_collections_changed_def quiet)
qed

lemma quiet_random: "random_bytes E n (wld d) = (r, w) \<Longrightarrow> quiet d (set_wld w d)"
  by (rule quiet_wld) (auto simp: random_bytes_def try_random_bytes_def split: option.splits intro: same_files_fs)

lemma quiet_new_paths [quiet]: "quiet d (snd (new_session_path P d))" "quiet d (snd (new_prompt_path P d))"
proof -
  have book: "quiet d (set_st ((st d)\<lparr>next_session := n\<rparr>) d)" "quiet d (set_st ((st d)\<lparr>next_prompt := n\<rparr>) d)" for n
    by (simp_all add: quiet_def same_book_def set_st_def)
  have step: "quiet d (snd (case random_bytes E n (wld d1) of
      (None, w) \<Rightarrow> (Inl Panicked, set_wld w d1) | (Some bs, w) \<Rightarrow> expect_path (f bs) (set_wld w d1)))"
    if "quiet d d1" for E n d1 and f :: "bytes \<Rightarrow> ustr option"
  proof -
    obtain r w where "random_bytes E n (wld d1) = (r, w)" by fastforce
    with quiet_trans [OF that quiet_random [OF this]] show ?thesis
      by (auto split: option.splits intro: quiet_trans [OF _ quiet_expect_path])
  qed
  show "quiet d (snd (new_session_path P d))" "quiet d (snd (new_prompt_path P d))"
    unfolding new_session_path_def new_prompt_path_def Let_def by (rule step, rule book)+
qed

section \<open>Steps on vaults\<close>

lemma vault_of_member: "vault_of s cid = Some r \<Longrightarrow> (cid, r) \<in> set (collections s)"
  by (simp add: vault_of_def map_of_SomeD)

lemma loaded_once:
  assumes "tables_ok s" "(a, r) \<in> set (collections s)" "(b, r') \<in> set (collections s)" "r \<noteq> r'"
  shows "a \<noteq> b"
proof
  assume "a = b"
  have "distinct (map fst (collections s))" using assms(1) by (simp add: tables_ok_def bt_sorted_distinct)
  from map_of_is_SomeI [OF this] assms(2,3) \<open>a = b\<close> have "Some r = Some r'" by metis
  with assms(4) show False by simp
qed

lemma on_vault_safe:
  assumes "well_behaved (lib P) f" "vault_of (st d) cid = Some r"
  shows "safe P d (snd (on_vault r f d))"
proof -
  obtain x v w where f: "f (heap d r) (wld d) = (x, v, w)" by (cases "f (heap d r) (wld d)")
  have c: "v_path v = v_path (heap d r)" "retired v = retired (heap d r)"
    "\<And>q. vault_path q \<Longrightarrow> q \<noteq> v_path (heap d r) \<Longrightarrow> content w q = content (wld d) q"
    "vault_ok (lib P) (heap d r) (wld d) \<Longrightarrow> vault_ok (lib P) v w"
    using assms(1) f unfolding well_behaved_def confined_def by (metis fst_conv snd_conv)+
  let ?d = "d\<lparr>heap := (heap d)(r := v), wld := w\<rparr>"
  have "vaults_ok P ?d" if ok: "vaults_ok P d" "tables_ok (st d)"
    unfolding vaults_ok_def
  proof (intro allI impI)
    fix cid' r'
    assume "(cid', r') \<in> set (collections (st ?d))"
    then have m: "(cid', r') \<in> set (collections (st d))" by simp
    note v' = vaults_okD [OF ok(1) m] and v = vaults_okD [OF ok(1) vault_of_member [OF assms(2)]]
    have "vault_ok (lib P) (heap d r') w" if "r' \<noteq> r"
    proof -
      have "cid' \<noteq> cid" using loaded_once [OF ok(2) m vault_of_member [OF assms(2)] that] .
      then show ?thesis using c(3) [of "v_path (heap d r')"] v(3) v'(3) by (intro vault_ok_world [OF v'(5)]) simp
    qed
    with v' c show "r' < next_ref ?d \<and> is_segment cid' \<and> v_path (heap ?d r') = vault_file_path (vault_dir (st ?d)) cid'
      \<and> \<not> retired (heap ?d r') \<and> vault_ok (lib P) (heap ?d r') (wld ?d)" by (cases "r' = r") auto
  qed
  then have "safe P d ?d" using c(1) by (auto simp: safe_def daemon_ok_def evolves_def)
  then show ?thesis by (simp add: on_vault_def f)
qed

lemma set_vault_safe:
  assumes "\<And>v. v_path (f v) = v_path v" "\<And>v. retired (f v) = retired v"
    and "\<And>v w. vault_ok (lib P) v w \<Longrightarrow> vault_ok (lib P) (f v) w"
  shows "safe P d (set_vault r f d)"
  using assms by (auto simp: safe_def daemon_ok_def vaults_ok_def evolves_def set_vault_def)

lemma lock_safe: "safe P d (set_vault r lock d)"
  by (rule set_vault_safe) (simp_all add: vault_ok_lock)

lemma pin_safe: "safe P d (set_vault r (set_pinned b) d)"
  by (rule set_vault_safe) (simp_all add: vault_ok_flags, simp_all add: set_pinned_def)

lemma bt_insert_set: "set (bt_insert k v m) \<subseteq> insert (k, v) (set m)"
  by (induction k v m rule: bt_insert.induct) auto

text \<open>A new reference to an intact vault, entered under the id of its file.\<close>

lemma add_collection_safe:
  assumes "vault_ok (lib P) v (wld d)" "v_path v = vault_file_path (vault_dir (st d)) cid" "\<not> retired v" "is_segment cid"
    and "vault_ref v d = (r, d1)" "same_book ((st d1)\<lparr>collections := bt_insert cid r (collections (st d1)), broken := b\<rparr>) s"
    and "bt_sorted (broken (st d)) \<Longrightarrow> bt_sorted b"
  shows "safe P d (set_st s d1)"
proof -
  have d1: "d1 = d\<lparr>heap := (heap d)(r := v), next_ref := Suc r\<rparr>" and r: "r = next_ref d"
    using assms(5) by (auto simp: vault_ref_def)
  have s: "collections s = bt_insert cid r (collections (st d))" "vault_dir s = vault_dir (st d)"
    using assms(6) by (simp_all add: same_book_def d1)
  have "vaults_ok P (set_st s d1)" if "vaults_ok P d"
  proof -
    have "r' < Suc r \<and> is_segment cid' \<and> v_path (((heap d)(r := v)) r') = vault_file_path (vault_dir (st d)) cid'
       \<and> \<not> retired (((heap d)(r := v)) r') \<and> vault_ok (lib P) (((heap d)(r := v)) r') (wld d)"
      if m: "(cid', r') \<in> set (bt_insert cid r (collections (st d)))" for cid' r'
    proof (cases "(cid', r') = (cid, r)")
      case False
      then have "(cid', r') \<in> set (collections (st d))" 
        using m bt_insert_set [of cid r "collections (st d)"] by auto
      from vaults_okD [OF \<open>vaults_ok P d\<close> this] r show ?thesis by simp
    qed (use assms(1-4) in simp)
    then show ?thesis by (simp add: vaults_ok_def set_st_def d1 s)
  qed
  moreover have "tables_ok s" if "tables_ok (st d)"
    using that assms(6,7) by (simp add: tables_ok_def same_book_def d1)
  moreover have "quotas_ok s = quotas_ok (st d)"
    using assms(6) by (simp add: quotas_ok_def same_book_def d1 session_count_def prompt_count_def)
  moreover have "evolves d (set_st s d1)" by (simp add: evolves_def set_st_def d1 s(2) r)
  ultimately show ?thesis by (simp add: safe_def daemon_ok_def set_st_def)
qed

section \<open>Steps on the tables\<close>

lemma book_safe:
  assumes "collections s = collections (st d)" "vault_dir s = vault_dir (st d)"
    and "tables_ok (st d) \<Longrightarrow> quotas_ok (st d) \<Longrightarrow> tables_ok s \<and> quotas_ok s"
  shows "safe P d (set_st s d)"
  using assms by (auto simp: safe_def daemon_ok_def vaults_ok_def evolves_def set_st_def)

lemma count_insert: "length (filter Q (bt_insert k v m)) \<le> length (filter Q m) + (if Q (k, v) then 1 else 0)"
  by (induction k v m rule: bt_insert.induct) auto

lemma count_remove: "length (filter Q (bt_remove k m)) \<le> length (filter Q m)"
  by (induction m) (auto simp: bt_remove_def)

lemma add_session_safe:
  assumes "session_count (st d) owner < MAX_SESSIONS_PER_SENDER"
  shows "safe P d (set_st ((st d)\<lparr>sessions := bt_insert path \<lparr>se_owner = owner, se_cipher = c\<rparr> (sessions (st d))\<rparr>) d)"
proof (rule book_safe)
  assume ok: "tables_ok (st d)" "quotas_ok (st d)"
  have "length (filter (\<lambda>e. se_owner (snd e) = o') (bt_insert path \<lparr>se_owner = owner, se_cipher = c\<rparr> (sessions (st d))))
      \<le> MAX_SESSIONS_PER_SENDER" for o'
    using count_insert [of "\<lambda>e. se_owner (snd e) = o'" path "\<lparr>se_owner = owner, se_cipher = c\<rparr>" "sessions (st d)"]
      ok(2) assms
    by (cases "o' = owner") (auto simp: quotas_ok_def session_count_def intro: order_trans)
  with ok show "tables_ok ((st d)\<lparr>sessions := bt_insert path \<lparr>se_owner = owner, se_cipher = c\<rparr> (sessions (st d))\<rparr>)
      \<and> quotas_ok ((st d)\<lparr>sessions := bt_insert path \<lparr>se_owner = owner, se_cipher = c\<rparr> (sessions (st d))\<rparr>)"
    by (simp add: tables_ok_def quotas_ok_def session_count_def prompt_count_def)
qed simp_all

lemma add_prompt_safe:
  assumes "prompt_count (st d) owner < MAX_PROMPTS_PER_OWNER"
  shows "safe P d (set_st ((st d)\<lparr>prompt_owners := bt_insert path owner (prompt_owners (st d))\<rparr>) d)"
proof (rule book_safe)
  assume ok: "tables_ok (st d)" "quotas_ok (st d)"
  have "length (filter (\<lambda>e. snd e = o') (bt_insert path owner (prompt_owners (st d)))) \<le> MAX_PROMPTS_PER_OWNER" for o'
    using count_insert [of "\<lambda>e. snd e = o'" path owner "prompt_owners (st d)"] ok(2) assms
    by (cases "o' = owner") (auto simp: quotas_ok_def prompt_count_def intro: order_trans)
  with ok show "tables_ok ((st d)\<lparr>prompt_owners := bt_insert path owner (prompt_owners (st d))\<rparr>)
      \<and> quotas_ok ((st d)\<lparr>prompt_owners := bt_insert path owner (prompt_owners (st d))\<rparr>)"
    by (simp add: tables_ok_def quotas_ok_def session_count_def prompt_count_def)
qed simp_all

end
