(* ===== verification/Daemon_Safety.thy ===== *)
theory Daemon_Safety
  imports Daemon_Invariant
begin

text \<open>
  Every operation of the daemon is safe: the methods of the D-Bus objects, the
  prompt tasks under any safe interference, the control requests, the clean-up
  after a client and the idle lock.
\<close>

section \<open>Alias updates\<close>

lemma update_from_files:
  fixes edit :: "attrs \<Rightarrow> 'e + attrs"
  shows "update_from T E dir mode edit attempt t w = (r, t', w') \<Longrightarrow> same_files dir w w'"
proof (induction T E dir mode edit attempt t w arbitrary: r t' w' rule: update_from.induct)
  case (1 T E dir mode edit attempt t w)
  show ?case
  proof (cases "update_begin t edit")
    case (Inl x)
    with 1(2) show ?thesis by (auto simp: update_from.simps [of T E dir mode edit attempt t w])
  next
    case (Inr bn)
    obtain base new where bn: "bn = (base, new)" by fastforce
    obtain written w1 where s: "save_aliases_to T E dir new w = (written, w1)" by fastforce
    have "content w1 (vault_file_path dir cid) = content w (vault_file_path dir cid)" for cid
      using save_aliases_other [of "vault_file_path dir cid" dir w T E new] vault_file_path_ok [of dir cid] s
      by (auto simp: vault_path_def intro: keeps_content)
    then have f: "same_files dir w w1" by (simp add: same_files_def)
    obtain x :: "'e alias_update option" and t1 where c: "update_commit mode attempt base new written t = (x, t1)" by fastforce
    show ?thesis
    proof (cases x)
      case None
      from 1(1) [OF Inr bn [symmetric] s [symmetric] c [symmetric] None] 1(2) Inr bn s c None
      show ?thesis using same_files_trans [OF f] by (auto simp: update_from.simps [of T E dir mode edit attempt t w])
    next
      case (Some y)
      with 1(2) Inr bn s c f show ?thesis by (auto simp: update_from.simps [of T E dir mode edit attempt t w])
    qed
  qed
qed

lemma quiet_update_aliases [quiet]: "quiet d (snd (daemon_update_aliases P mode edit d))"
proof -
  obtain r t w where u: "update_aliases (toml P) (os P) (vault_dir (st d)) mode (edit (st d)) (aliases (st d)) (wld d) = (r, t, w)"
    by (metis prod_cases3)
  then have "same_files (vault_dir (st d)) (wld d) w" unfolding update_aliases_def by (rule update_from_files)
  with u show ?thesis
    by (simp add: daemon_update_aliases_def quiet_def same_book_def set_wld_def set_st_def)
qed

section \<open>Collections and items\<close>

lemma quiet_emit_each [quiet]: "quiet d (snd (emit_each P f cid iids d))"
  by (induction P f cid iids d rule: emit_each.induct) (auto intro!: quiet_and_then quiet)

lemma quiet_composed [quiet]:
  "quiet d (snd (expect_path q (touch P d)))" "quiet d (snd (emit P s (server_remove p K d)))"
  "quiet d (snd (emit_each P f cid iids (remove_items cid' iids' (touch P d))))"
  by (rule quiet_trans [OF quiet_touch quiet_expect_path] quiet_trans [OF quiet_server_remove quiet_emit]
      quiet_trans [OF quiet_trans [OF quiet_touch quiet_remove_items] quiet_emit_each])+

lemmas safes = quiet [THEN quiet_safe]

lemma snd_or_bus [simp]: "snd (or_bus m) = snd m"
  by (simp add: or_bus_def split: prod.splits)

lemma store_secret_safe:
  assumes "vault_of (st d) cid = Some r" "\<And>x. well_behaved (lib P) (edit x)"
  shows "safe P d (snd (store_secret P c s edit r d))"
  using on_vault_safe [OF assms(2) assms(1)]
  by (auto simp: store_secret_def split: sum.splits option.splits)

lemma check_Inr [simp]: "check r d = (Inr a, s) \<longleftrightarrow> r = Inr a \<and> s = d"
  by (auto simp: check_def)

lemma new_prompt_safe: "safe P d (snd (new_prompt P owner action d))"
proof (cases "check_prompt_quota (st d) owner")
  case (Inl e)
  then show ?thesis by (simp add: new_prompt_def check_def)
next
  case (Inr u)
  obtain r d2 where n: "new_prompt_path P d = (r, d2)" by fastforce
  have q2: "quiet d d2" using quiet_new_paths(2) [of d P] n by simp
  show ?thesis
  proof (cases r)
    case (Inl e)
    with Inr n q2 show ?thesis by (simp add: new_prompt_def check_def quiet_safe)
  next
    case path: (Inr path)
    let ?d3 = "set_st ((st d2)\<lparr>prompt_owners := bt_insert path owner (prompt_owners (st d2))\<rparr>) d2"
    let ?d4 = "?d3\<lparr>prompts := (prompts ?d3)(path := \<lparr>pr_kind = kind action, pr_action = Some action,
       pr_committed = False, pr_cancelled = False\<rparr>)\<rparr>"
    have "prompt_count (st d2) owner < MAX_PROMPTS_PER_OWNER"
      using Inr q2 by (auto simp: check_prompt_quota_def prompt_count_def quiet_def same_book_def split: if_splits)
    from add_prompt_safe [OF this] have "safe P d ?d3" by (rule safe_trans [OF quiet_safe [OF q2]])
    then have s4: "safe P d ?d4" by (rule safe_trans) (rule safes)
    obtain r5 d5 where a: "server_at P path IPrompt ?d4 = (r5, d5)" by fastforce
    then have s5: "safe P d d5" using safe_trans [OF s4 quiet_safe [OF quiet_server_at, of P ?d4 P path IPrompt]] by simp
    have undo: "safe P d5 (set_st ((st d5)\<lparr>prompt_owners := bt_remove path (prompt_owners (st d5))\<rparr>) d5)"
      using count_remove [of _ path "prompt_owners (st d5)"]
      by (intro book_safe) (auto simp: tables_ok_def quotas_ok_def session_count_def prompt_count_def intro: order_trans)
    have "new_prompt P owner action d = (case r5 of Inr _ \<Rightarrow> (Inr path, d5) | Inl e \<Rightarrow>
        (Inl e, set_st ((st d5)\<lparr>prompt_owners := bt_remove path (prompt_owners (st d5))\<rparr>) d5))"
      using Inr n path a by (simp add: new_prompt_def check_def Let_def split: sum.splits)
    with s5 safe_trans [OF s5 undo] show ?thesis by (cases r5) simp_all
  qed
qed

lemma collection_delete_safe: "safe P d (snd (collection_delete P target header d))"
  unfolding collection_delete_def
  by (auto intro!: safe_and_then new_prompt_safe safes simp: Let_def)

lemma create_item_safe:
  assumes "lib_correct (lib P)"
  shows "safe P d (snd (create_item P target properties secret replace header d))"
  unfolding create_item_def
  by (auto intro!: safe_and_then store_secret_safe operations_well_behaved [OF assms] safes
      simp: Let_def split: option.splits)

lemma collection_set_label_safe:
  "lib_correct (lib P) \<Longrightarrow> safe P d (snd (collection_set_label P target label d))"
  using on_vault_safe [OF operations_well_behaved(4), of P d]
  by (auto simp: collection_set_label_def split: sum.splits option.splits prod.splits) (metis snd_conv)

lemma admin_delete_items_safe:
  assumes "lib_correct (lib P)"
  shows "safe P d (snd (admin_delete_items P target paths d))"
  unfolding admin_delete_items_def
  by (auto intro!: safe_and_then on_vault_safe delete_items_well_behaved [OF assms] safes split: option.splits)

lemma item_update_safe: "lib_correct (lib P) \<Longrightarrow> safe P d (snd (item_update P cid iid f d))"
  using on_vault_safe [OF operations_well_behaved(2), of P d cid]
  by (auto simp: item_update_def split: option.splits prod.splits) (metis snd_conv)

lemma item_delete_safe:
  assumes "lib_correct (lib P)"
  shows "safe P d (snd (item_delete P cid iid d))"
  unfolding item_delete_def
  by (auto intro!: safe_and_then on_vault_safe operations_well_behaved [OF assms] safes split: option.splits)

lemma encrypt_fs: "encrypt S E c secret w = (r, w') \<Longrightarrow> fs w' = fs w"
  by (cases c) (auto simp: random_bytes_def try_random_bytes_def split: option.splits prod.splits)

lemma quiet_get_secret [quiet]: "quiet d (snd (get_secret P cid iid session header d))"
proof -
  have "quiet d (touch P (set_wld w d))" "quiet d (set_wld w d)"
    if "encrypt (slib P) (os P) c secret (wld d) = (r, w)" for d c secret r w
    using quiet_wld [OF same_files_fs [OF encrypt_fs [OF that]]] quiet_trans quiet_touch by blast+
  then show ?thesis
    unfolding get_secret_def
    by (auto intro!: quiet_and_then quiet split: option.splits prod.splits)
qed

lemma set_secret_safe:
  assumes "lib_correct (lib P)"
  shows "safe P d (snd (set_secret P cid iid secret header d))"
  unfolding set_secret_def
  by (auto intro!: safe_and_then store_secret_safe operations_well_behaved [OF assms] safes split: option.splits)

lemma item_setters_safe:
  assumes "lib_correct (lib P)"
  shows "safe P d (snd (item_set_attributes P cid iid m d))" "safe P d (snd (item_set_label P cid iid label d))"
  by (auto simp: item_set_attributes_def item_set_label_def item_update_safe [OF assms] split: sum.splits)

section \<open>The service\<close>

lemma generate_fs: "generate S E w = (r, w') \<Longrightarrow> fs w' = fs w"
  by (auto simp: generate_def random_bytes_def try_random_bytes_def Let_def split: option.splits prod.splits)

lemma remove_session_safe:
  "safe P d (set_st ((st d)\<lparr>sessions := bt_remove path (sessions (st d))\<rparr>) d)"
  using count_remove [of _ path "sessions (st d)"]
  by (intro book_safe) (auto simp: tables_ok_def quotas_ok_def session_count_def prompt_count_def intro: order_trans)

lemma enter_session_safe:
  assumes "session_count (st d) owner < MAX_SESSIONS_PER_SENDER"
  shows "safe P d (snd (case server_at P path ISession
      (set_st ((st d)\<lparr>sessions := bt_insert path \<lparr>se_owner = owner, se_cipher = c\<rparr> (sessions (st d))\<rparr>) d) of
        (Inr _, d2) \<Rightarrow> (Inr (out, path), d2)
      | (Inl e, d2) \<Rightarrow> (Inl e, set_st ((st d2)\<lparr>sessions := bt_remove path (sessions (st d2))\<rparr>) d2)))"
proof -
  let ?d1 = "set_st ((st d)\<lparr>sessions := bt_insert path \<lparr>se_owner = owner, se_cipher = c\<rparr> (sessions (st d))\<rparr>) d"
  obtain r d2 where a: "server_at P path ISession ?d1 = (r, d2)" by fastforce
  then have s: "safe P d d2"
    using safe_trans [OF add_session_safe [OF assms] quiet_safe [OF quiet_server_at]] by (metis snd_conv)
  from s safe_trans [OF s remove_session_safe] a show ?thesis by (cases r) simp_all
qed

lemma open_session_safe: "safe P d (snd (open_session P alg input header d))"
proof -
  have gen: "quiet d (set_wld w d)" if "generate (slib P) (os P) (wld d) = (r, w)" for d r w
    using quiet_wld [OF same_files_fs [OF generate_fs [OF that]]] .
  have quota: "check_session_quota s owner = Inr u \<Longrightarrow> session_count s owner < MAX_SESSIONS_PER_SENDER" for s owner u
    by (auto simp: check_session_quota_def split: if_splits)
  have count: "session_count (st d') owner = session_count (st d) owner" if "new_session_path P d = (x, d')" for d x d' owner
    using quiet_new_paths(1) [of d P] that by (simp add: session_count_def quiet_def same_book_def)
  show ?thesis
    unfolding open_session_def Let_def
    by (intro safe_and_then safes)
      (auto intro!: safes gen [THEN quiet_safe] safe_and_then enter_session_safe simp: count quota
        split: variant.splits prod.splits option.splits sum.splits)
qed

lemma session_close_safe: "safe P d (snd (session_close path header d))"
proof -
  have "safe P d (server_remove path K (set_st ((st d)\<lparr>sessions := bt_remove path (sessions (st d))\<rparr>) d))" for d K
    by (rule safe_trans [OF remove_session_safe]) (rule safes)
  then show ?thesis unfolding session_close_def by (auto intro!: safe_and_then safes split: option.splits)
qed

lemma quiet_encrypt_plan: "quiet d (snd (encrypt_plan P c session plan out d))"
proof (induction P c session plan out d rule: encrypt_plan.induct)
  case (2 P c session p secret ct rest out d)
  obtain r w where e: "encrypt (slib P) (os P) c secret (wld d) = (r, w)" by fastforce
  then have q: "quiet d (set_wld w d)" using quiet_wld [OF same_files_fs [OF encrypt_fs]] by blast
  show ?case
  proof (cases r)
    case None
    with e q show ?thesis by simp
  next
    case (Some x)
    obtain params v where x: "x = (params, v)" by fastforce
    from 2 [OF e [symmetric] Some x [symmetric]] e Some x q show ?thesis by (auto intro: quiet_trans)
  qed
qed simp

lemma quiet_get_secrets [quiet]: "quiet d (snd (get_secrets P paths session header d))"
proof -
  have "quiet d (snd (encrypt_plan P c session plan out (touch P d)))" for d c plan out
    by (rule quiet_trans [OF quiet_touch quiet_encrypt_plan])
  then show ?thesis unfolding get_secrets_def Let_def by (auto intro!: quiet_and_then quiet)
qed

lemma set_alias_safe: "safe P d (snd (set_alias P name collection d))"
proof -
  have "safe P d (snd (case daemon_update_aliases P Refuse e d of
       (Committed, d1) \<Rightarrow> if c then (Inr (), unregister_alias name d1) else register_alias P name d1
     | (Rejected x, d1) \<Rightarrow> (Inl x, d1)
     | (Unusable x, d1) \<Rightarrow> (Inl (f x), d1)
     | (NotWritten x, d1) \<Rightarrow> (Inl (g x), d1)))" for d e c f g
  proof -
    obtain r d1 where u: "daemon_update_aliases P Refuse e d = (r, d1)" by fastforce
    then have s: "safe P d d1" using quiet_safe [OF quiet_update_aliases] by (metis snd_conv)
    from s safe_trans [OF s] u show ?thesis by (cases r) (auto intro: safes)
  qed
  then show ?thesis unfolding set_alias_def by (auto intro!: safe_and_then safes)
qed

lemma service_unlock_safe: "safe P d (snd (service_unlock P objects header d))"
  unfolding service_unlock_def
  by (auto intro!: safe_and_then new_prompt_safe safes simp: Let_def split: prod.splits)

lemma lock_group_safe: "safe P (snd acc) (snd (lock_group pend g acc))"
  by (auto simp: lock_group_def Let_def lock_safe split: prod.splits option.splits)

lemma lock_groups_safe: "safe P (snd acc) (snd (fold (lock_group pend) gs acc))"
proof (induction gs arbitrary: acc)
  case (Cons g gs)
  from safe_trans [OF lock_group_safe Cons [of "lock_group pend g acc"]] show ?case by (simp only: fold.simps o_apply)
qed simp

lemma service_lock_safe: "safe P d (snd (service_lock P objects d))"
proof -
  have "safe P d (snd (case fold (lock_group pend) gs (a, d) of
      ((answered, changed), d1) \<Rightarrow> (f answered, fold (notify_collection_changed P) changed d1)))"
    for d pend gs a and f :: "bool list \<Rightarrow> bus_error + ustr list \<times> ustr"
  proof -
    obtain b d1 where b: "fold (lock_group pend) gs (a, d) = (b, d1)" by fastforce
    then have "safe P d d1" using lock_groups_safe [of P "(a, d)" pend gs] by simp
    with b show ?thesis by (auto intro: safe_trans safe_fold safes split: prod.splits)
  qed
  then show ?thesis unfolding service_lock_def Let_def by (auto intro!: safe_and_then safes)
qed

lemma service_create_collection_safe: "safe P d (snd (service_create_collection P properties name header d))"
  unfolding service_create_collection_def
  by (auto intro!: safe_and_then new_prompt_safe safes simp: Let_def split: sum.splits option.splits)

section \<open>Free ids\<close>

lemma base_segment: "is_segment (collection_id_from_label label)"
proof -
  have "segment_char c" if "c \<in> set (collection_id_from_label label)" for c
    using that collection_id_shape [of label]
    by (auto simp: id_shape_def id_char_def segment_char_def is_ascii_alphanumeric_def)
  then show ?thesis using collection_id_nonempty [of label] by (simp add: is_segment_chars)
qed

lemma numbered_segment: "is_segment base \<Longrightarrow> is_segment (numbered base n)"
  using show_nat_digits [of n]
  by (auto simp: is_segment_chars numbered_def segment_char_def is_ascii_alphanumeric_def)

lemma id_taken_free:
  assumes "id_taken E dir loaded cid w = (False, w')"
  shows "cid \<notin> set loaded \<and> (fault E (tick w) = None \<longrightarrow>
    map_of (fs w) (vault_file_path dir cid) = None \<and> map_of (dirs w) (vault_file_path dir cid) = None)"
  using assms by (auto simp: id_taken_def sys_exists_def split: if_splits)

definition free_id :: "env \<Rightarrow> path \<Rightarrow> ustr list \<Rightarrow> world \<Rightarrow> ustr \<Rightarrow> bool" where
  "free_id E dir loaded w cid \<longleftrightarrow> is_segment cid \<and> cid \<notin> set loaded \<and> ((\<forall>t. fault E t = None) \<longrightarrow>
     map_of (fs w) (vault_file_path dir cid) = None \<and> map_of (dirs w) (vault_file_path dir cid) = None)"

lemma find_free_result:
  "find_free E dir loaded base n w = (cid, w') \<Longrightarrow> is_segment base \<Longrightarrow>
     free_id E dir loaded w cid \<and> fs w' = fs w \<and> dirs w' = dirs w
     \<and> (\<exists>m. cid = numbered base m \<and> m \<le> n + card (taken_numbers dir loaded base n w))"
proof (induction E dir loaded base n w arbitrary: cid w' rule: find_free.induct)
  case (1 E dir loaded base n w)
  obtain b w1 where t: "id_taken E dir loaded (numbered base n) w = (b, w1)" by fastforce
  note w1 = id_taken_world [OF t]
  show ?case
  proof (cases b)
    case False
    then have "cid = numbered base n" "w' = w1" using 1(2) t by (simp_all add: find_free.simps [of E dir loaded base n w])
    with w1 t False id_taken_free [of E dir loaded "numbered base n" w w1] show ?thesis
      by (auto simp: free_id_def numbered_segment [OF 1(3)])
  next
    case True
    then have r: "find_free E dir loaded base (Suc n) w1 = (cid, w')"
      using 1(2) t by (simp add: find_free.simps [of E dir loaded base n w])
    from True have "b = True" by simp
    from 1(1) [OF t [symmetric] this r 1(3)] id_taken_number [of E dir loaded base n w w1] t True w1 show ?thesis
      by (auto simp: free_id_def)
  qed
qed

lemma card_taken_numbers: "card (taken_numbers dir loaded base n w) \<le> length loaded + length (fs w) + length (dirs w)"
proof -
  let ?f = "\<lambda>m. vault_file_path dir (numbered base m)"
  let ?Y = "fst ` set (fs w) \<union> fst ` set (dirs w)"
  have inj: "inj (numbered base)" "inj ?f" by (auto intro!: injI simp: numbered_inj)
  have "card (numbered base -` set loaded) \<le> length loaded"
    using card_vimage_inj_on_le [OF inj(1), of "set loaded"] card_length [of loaded] by simp
  moreover have "card (?f -` ?Y) \<le> length (fs w) + length (dirs w)"
  proof -
    have "card ?Y \<le> length (map fst (fs w)) + length (map fst (dirs w))"
      using card_Un_le [of "fst ` set (fs w)" "fst ` set (dirs w)"]
        card_length [of "map fst (fs w)"] card_length [of "map fst (dirs w)"] by simp
    with card_vimage_inj_on_le [OF inj(2), of ?Y] show ?thesis by simp
  qed
  moreover have "card (taken_numbers dir loaded base n w) \<le> card (numbered base -` set loaded \<union> ?f -` ?Y)"
    using inj by (intro card_mono) (auto simp: taken_numbers_def intro!: finite_vimageI)
  ultimately show ?thesis using card_Un_le [of "numbered base -` set loaded" "?f -` ?Y"] by linarith
qed

lemma unique_id_result:
  assumes "unique_collection_id_in E dir loaded label w = (cid, w')"
  shows "free_id E dir loaded w cid" "fs w' = fs w" "dirs w' = dirs w"
    "cid = collection_id_from_label label \<or> (\<exists>m. cid = numbered (collection_id_from_label label) m
       \<and> m \<le> 2 + (length loaded + length (fs w) + length (dirs w)))"
proof -
  let ?base = "collection_id_from_label label"
  obtain b w1 where t: "id_taken E dir loaded ?base w = (b, w1)" by fastforce
  note w1 = id_taken_world [OF t]
  have "free_id E dir loaded w cid \<and> fs w' = fs w \<and> dirs w' = dirs w \<and>
    (cid = ?base \<or> (\<exists>m. cid = numbered ?base m \<and> m \<le> 2 + (length loaded + length (fs w) + length (dirs w))))"
  proof (cases b)
    case False
    with assms t w1 id_taken_free [of E dir loaded ?base w w1] show ?thesis
      by (auto simp: unique_collection_id_in_def Let_def free_id_def base_segment)
  next
    case True
    with assms t have "find_free E dir loaded ?base 2 w1 = (cid, w')"
      by (simp add: unique_collection_id_in_def Let_def)
    from find_free_result [OF this base_segment] card_taken_numbers [of dir loaded ?base 2 w1] w1
    show ?thesis by (fastforce simp: free_id_def)
  qed
  then show "free_id E dir loaded w cid" "fs w' = fs w" "dirs w' = dirs w"
    "cid = ?base \<or> (\<exists>m. cid = numbered ?base m \<and> m \<le> 2 + (length loaded + length (fs w) + length (dirs w)))"
    by blast+
qed

end
