(* ===== verification/Prompt_Safety.thy ===== *)
theory Prompt_Safety
  imports Daemon_Safety
begin

text \<open>
  The prompt tasks are safe under any interference that is itself safe: what a
  task does after a dialog or a key derivation relies only on what \<open>safe\<close>
  promises, and on what the task checks again.
\<close>

definition calm :: "platform \<Rightarrow> interference \<Rightarrow> bool" where
  "calm P other \<longleftrightarrow> (\<forall>t d. safe P d (other t d))"

lemma await_safe: "calm P other \<Longrightarrow> safe P d (snd (await other tid d))"
  by (auto simp: await_def Let_def calm_def intro: safe_trans [OF quiet_safe [OF quiet_tick]])

lemma quiet_claim [quiet]: "quiet d (snd (claim path d))"
  by (simp add: claim_def Let_def quiet)

lemma quiet_release_gate [quiet]: "quiet d (release_gate path d)"
  by (simp add: release_gate_def quiet)

lemma quiet_end_task [quiet]: "quiet d (end_task tid d)"
  by (simp add: end_task_def quiet)

lemma push_unlocked_safe: "safe P d (push_unlocked path cid d)"
  unfolding push_unlocked_def Let_def
  by (rule book_safe) (simp_all add: tables_ok_def quotas_ok_def session_count_def prompt_count_def)

lemma drop_unlocked_safe: "safe P d (drop_unlocked path cid d)"
proof -
  have "safe P d (set_st ((st d)\<lparr>prompt_unlocked := (if x = [] then bt_remove path (prompt_unlocked (st d))
      else bt_insert path x (prompt_unlocked (st d)))\<rparr>) d)" for x
    by (rule book_safe) (simp_all add: tables_ok_def quotas_ok_def session_count_def prompt_count_def)
  then show ?thesis by (simp add: drop_unlocked_def Let_def split: option.splits)
qed

lemma forget_unlocked_safe:
  "safe P d (set_st ((st d)\<lparr>prompt_unlocked := bt_remove path (prompt_unlocked (st d))\<rparr>) d)"
  by (rule book_safe) (simp_all add: tables_ok_def quotas_ok_def session_count_def prompt_count_def)

section \<open>Unlocking\<close>

lemma try_key_safe:
  assumes "lib_correct (lib P)" "still_loaded d cid r"
  shows "safe P d (snd (on_vault r (unlock_with_key (lib P) (os P) k) (push_unlocked path cid d)))"
proof -
  have "vault_of (st (push_unlocked path cid d)) cid = Some r"
    using assms(2) by (simp add: still_loaded_def push_unlocked_def Let_def set_st_def vault_of_def)
  from safe_trans [OF push_unlocked_safe on_vault_safe [OF unlock_with_key_well_behaved [OF assms(1)] this]]
  show ?thesis .
qed

text \<open>One attempt after the password is in: everything up to the next dialog.\<close>

definition try_pin ::
  "platform \<Rightarrow> ustr \<Rightarrow> ustr \<Rightarrow> nat \<Rightarrow> key \<Rightarrow> (daemon \<Rightarrow> (unit + outcome_kind) \<times> daemon) \<Rightarrow> daemon
   \<Rightarrow> (unit + outcome_kind) \<times> daemon" where
  "try_pin P path cid r k again d =
     (if \<not> still_loaded d cid r then (Inr OFailed, d)
      else (case on_vault r (unlock_with_key (lib P) (os P) k) (push_unlocked path cid d) of
              (Inr _, d) \<Rightarrow> (Inr OUnlocked, notify_collection_changed P cid (touch P d))
            | (Inl e, d) \<Rightarrow>
                if e = WrongPassword then again (drop_unlocked path cid d)
                else (Inr OFailed, drop_unlocked path cid d)))"

lemma try_pin_safe:
  assumes "lib_correct (lib P)" "\<And>d. safe P d (snd (again d))"
  shows "safe P d (snd (try_pin P path cid r k again d))"
proof (cases "still_loaded d cid r")
  case False
  then show ?thesis by (simp add: try_pin_def)
next
  case True
  obtain x d1 where o: "on_vault r (unlock_with_key (lib P) (os P) k) (push_unlocked path cid d) = (x, d1)" by fastforce
  have s: "safe P d d1" using try_key_safe [OF assms(1) True, of k path] o by simp
  have "safe P d (notify_collection_changed P cid (touch P d1))"
    by (rule safe_trans [OF s quiet_safe [OF quiet_trans [OF quiet_touch quiet_notify(1)]]])
  moreover have "safe P d (drop_unlocked path cid d1)" by (rule safe_trans [OF s drop_unlocked_safe])
  ultimately show ?thesis
    using True o safe_trans [OF _ assms(2)] by (cases x) (auto simp: try_pin_def)
qed

lemma unlock_attempts_step:
  "unlock_attempts P other tid path cid r (Suc n) gate d =
     and_then (await other tid d) (\<lambda>t d.
       case pin_ask P t of
         Inl PinBusy \<Rightarrow> (Inr OBusy, d)
       | Inl (PinFailed _) \<Rightarrow> (Inr OFailed, d)
       | Inr None \<Rightarrow> (Inr OCancelled, d)
       | Inr (Some pin) \<Rightarrow>
           (case (if gate then claim path d else (True, d)) of
              (False, d) \<Rightarrow> (Inr OCancelled, d)
            | (True, d) \<Rightarrow>
                if \<not> still_loaded d cid r then (Inr OFailed, d)
                else let h = v_header (heap d r)
                     in and_then (await other tid d) (\<lambda>_ d.
                          case derive_key (lib P) pin (h_salt h) (h_kdf h) of
                            Inl _ \<Rightarrow> (Inr OFailed, d)
                          | Inr k \<Rightarrow> try_pin P path cid r k (unlock_attempts P other tid path cid r n False) d)))"
  unfolding unlock_attempts.simps try_pin_def by (rule refl)

lemma unlock_attempts_safe:
  assumes "lib_correct (lib P)" "calm P other"
  shows "safe P d (snd (unlock_attempts P other tid path cid r n gate d))"
proof (induction n arbitrary: gate d)
  case (Suc n)
  have attempt: "safe P d (snd (and_then (await other tid d) (\<lambda>_ d.
      case derive_key (lib P) pin salt kdf of Inl _ \<Rightarrow> (Inr OFailed, d)
      | Inr k \<Rightarrow> try_pin P path cid r k (unlock_attempts P other tid path cid r n False) d)))" for d pin salt kdf
    by (intro safe_and_then await_safe [OF assms(2)])
      (auto intro!: try_pin_safe [OF assms(1)] Suc split: sum.splits)
  have gated: "safe P d (snd (case g of (False, d) \<Rightarrow> (Inr OCancelled, d)
      | (True, d) \<Rightarrow> if \<not> still_loaded d cid r then (Inr OFailed, d)
          else and_then (await other tid d) (\<lambda>_ d'.
            case derive_key (lib P) pin (h_salt (v_header (heap d r))) (h_kdf (v_header (heap d r))) of Inl _ \<Rightarrow> (Inr OFailed, d')
            | Inr k \<Rightarrow> try_pin P path cid r k (unlock_attempts P other tid path cid r n False) d')))"
    if "safe P d (snd g)" for d g pin
    using that by (cases g) (auto intro: safe_trans attempt split: bool.splits)
  show ?case
    unfolding unlock_attempts_step Let_def
    by (intro safe_and_then await_safe [OF assms(2)])
      (auto intro!: gated attempt quiet_safe [OF quiet_claim] simp: Let_def
        split: sum.splits pin_error.splits option.splits)
qed simp

lemma unlock_collection_inner_safe:
  assumes "lib_correct (lib P)" "calm P other"
  shows "safe P d (snd (unlock_collection_inner P other tid path cid d))"
  unfolding unlock_collection_inner_def
  by (auto intro!: safe_and_then await_safe [OF assms(2)] unlock_attempts_safe [OF assms]
      split: option.splits pin_error.splits)

lemma unlock_loop_safe:
  assumes "lib_correct (lib P)" "calm P other"
  shows "safe P d (snd (unlock_loop P other tid path cids any mine d))"
proof (induction cids arbitrary: any mine d)
  case (Cons cid cids)
  have "safe P (release_gate path d) (snd (and_then (unlock_collection_inner P other tid path cid (release_gate path d))
      (\<lambda>out d. case out of
         OUnlocked \<Rightarrow> unlock_loop P other tid path cids True (mine @ [cid]) d
       | OAlreadyUnlocked \<Rightarrow> unlock_loop P other tid path cids True mine d
       | OFailed \<Rightarrow> unlock_loop P other tid path cids any mine d
       | OCancelled \<Rightarrow> (Inr (any, mine), d)
       | OBusy \<Rightarrow> (Inr (any, mine), d))))"
    by (intro safe_and_then unlock_collection_inner_safe [OF assms]) (auto intro: Cons split: outcome_kind.splits)
  from safe_trans [OF quiet_safe [OF quiet_release_gate] this] show ?case
    by (simp add: Let_def quiet_safe [OF quiet_release_gate])
qed simp

lemma relock_all_safe: "safe P d (relock_all P vs d)"
proof (induction P vs d rule: relock_all.induct)
  case (2 P cid r vs d)
  have "safe P d (notify_collection_changed P cid (case r of Some v \<Rightarrow> set_vault v lock d | None \<Rightarrow> d))"
    by (rule safe_trans [OF _ quiet_safe [OF quiet_notify(1)]]) (simp add: lock_safe split: option.splits)
  from safe_trans [OF this 2] show ?case by simp
qed simp

lemma run_unlock_safe:
  assumes "lib_correct (lib P)" "calm P other"
  shows "safe P d (snd (run_unlock P other tid path colls requested d))"
  unfolding run_unlock_def Let_def
  by (intro safe_and_then unlock_loop_safe [OF assms])
    (auto intro!: safe_trans [OF forget_unlocked_safe relock_all_safe])

section \<open>Creating a collection\<close>

lemma safeD: "safe P d d' \<Longrightarrow> daemon_ok P d \<Longrightarrow> daemon_ok P d' \<and> evolves d d'"
  by (simp add: safe_def)

lemma world_safe:
  assumes "\<And>cid r. vaults_ok P d \<Longrightarrow> (cid, r) \<in> set (collections (st d)) \<Longrightarrow>
    content w (vault_file_path (vault_dir (st d)) cid) = content (wld d) (vault_file_path (vault_dir (st d)) cid)"
  shows "safe P d (set_wld w d)"
proof -
  have "vaults_ok P (set_wld w d)" if ok: "vaults_ok P d"
  proof -
    have "vault_ok (lib P) (heap d r) w" if m: "(cid, r) \<in> set (collections (st d))" for cid r
      by (rule vault_ok_world [OF vaults_okD(5) [OF ok m]]) (simp add: vaults_okD(3) [OF ok m] assms [OF ok m])
    with ok show ?thesis by (simp add: vaults_ok_def set_wld_def)
  qed
  then show ?thesis by (simp add: safe_def daemon_ok_def evolves_def set_wld_def)
qed

lemma create_world_safe:
  assumes "create D E (vault_file_path (vault_dir (st d)) cid) label pin kdf (wld d) = (r, w)"
  shows "safe P d (set_wld w d)"
proof (rule world_safe)
  fix cid' r'
  assume v: "vaults_ok P d" and m: "(cid', r') \<in> set (collections (st d))"
  note v = vaults_okD [OF v m]
  have "content (wld d) (vault_file_path (vault_dir (st d)) cid') = Some (on_disk (heap d r'))"
    using vault_okD(3) [OF v(5) v(4)] v(3) by simp
  with create_confined [OF assms vault_file_path_ok] vault_okD(1) [OF v(5)]
  show "content w (vault_file_path (vault_dir (st d)) cid') = content (wld d) (vault_file_path (vault_dir (st d)) cid')"
    by blast
qed

text \<open>A vault just created, as it is about to be entered.\<close>

definition made_ok :: "platform \<Rightarrow> daemon \<Rightarrow> (ustr \<times> vault) option \<Rightarrow> bool" where
  "made_ok P d made = (case made of None \<Rightarrow> True | Some (cid, v) \<Rightarrow>
     vault_ok (lib P) v (wld d) \<and> v_path v = vault_file_path (vault_dir (st d)) cid \<and> \<not> retired v \<and> is_segment cid)"

lemma create_attempts_ok:
  assumes "lib_correct (lib P)" "calm P other"
  shows "create_attempts P other tid label pin n d = (x, d') \<Longrightarrow> daemon_ok P d \<Longrightarrow>
    daemon_ok P d' \<and> evolves d d' \<and> (\<forall>m. x = Inr m \<longrightarrow> made_ok P d' m)"
proof (induction n arbitrary: d)
  case 0
  then show ?case by (auto simp: made_ok_def)
next
  case (Suc n)
  let ?dir = "vault_dir (st d)"
  obtain cid w where u: "unique_collection_id_in (os P) ?dir (loaded_ids (st d)) label (wld d) = (cid, w)" by fastforce
  have seg: "is_segment cid" using unique_id_result(1) [OF u] by (simp add: free_id_def)
  have s1: "safe P d (set_wld w d)" by (rule quiet_safe [OF quiet_wld [OF same_files_fs [OF unique_id_result(2) [OF u]]]])
  obtain y d2 where a: "await other tid (set_wld w d) = (y, d2)" by fastforce
  have "safe P d d2" using safe_trans [OF s1 await_safe [OF assms(2)], of tid] a by simp
  then have d2: "daemon_ok P d2" "evolves d d2" using safeD Suc.prems(2) by blast+
  have dir: "vault_dir (st d2) = ?dir" using d2(2) by (simp add: evolves_def)
  show ?case
  proof (cases y)
    case (Inl e)
    with Suc.prems(1) u a d2 show ?thesis by (auto simp: Let_def)
  next
    case (Inr t)
    obtain z w3 where c: "create (lib P) (os P) (vault_file_path ?dir cid) label pin (st_kdf (st d)) (wld d2) = (z, w3)" by fastforce
    have d3: "daemon_ok P (set_wld w3 d2)" "evolves d (set_wld w3 d2)"
      using safeD [OF create_world_safe [where d = d2], OF c [folded dir] d2(1)] evolves_trans [OF d2(2)] by blast+
    show ?thesis
    proof (cases z)
      case created: (Inr v)
      have "made_ok P (set_wld w3 d2) (Some (cid, v))"
        using create_Inr [OF assms(1) vault_file_path_ok c [unfolded created]] seg dir
        by (simp add: made_ok_def set_wld_def)
      with Suc.prems(1) u a Inr c created d3 show ?thesis by (auto simp: Let_def)
    next
      case (Inl e)
      have stop: "daemon_ok P (set_wld w3 d2) \<and> evolves d (set_wld w3 d2) \<and> made_ok P (set_wld w3 d2) None"
        using d3 by (simp add: made_ok_def)
      show ?thesis
      proof (cases "(\<exists>p. e = AlreadyExists p) \<and> n \<noteq> 0")
        case False
        with Suc.prems(1) u a Inr c Inl stop show ?thesis by (auto simp: Let_def split: vault_error.splits)
      next
        case True
        then have "create_attempts P other tid label pin n (set_wld w3 d2) = (x, d')"
          using Suc.prems(1) u a Inr c Inl by (auto simp: Let_def)
        from Suc.IH [OF this d3(1)] evolves_trans [OF d3(2)] show ?thesis by blast
      qed
    qed
  qed
qed

lemma quiet_record_alias [quiet]: "quiet d (snd (record_alias P name cid d))"
proof (cases name)
  case (Some a)
  obtain x d1 where u: "daemon_update_aliases P Keep (\<lambda>_. create_alias_edit a cid) d = (x, d1)" by fastforce
  then have "quiet d d1" using quiet_update_aliases [of d P Keep "\<lambda>_. create_alias_edit a cid"] by simp
  with Some u show ?thesis by (cases x) (simp_all add: record_alias_def)
qed (simp add: record_alias_def)

lemma quiet_announce [quiet]: "quiet d (snd (announce_collection P cid recorded d))"
proof -
  let ?d2 = "case recorded of Some a \<Rightarrow> snd (register_alias P a (snd (register_collection P cid d)))
     | None \<Rightarrow> snd (register_collection P cid d)"
  have "quiet d ?d2"
    using quiet_trans [OF quiet_register_collection quiet_register_alias] quiet_register_collection
    by (cases recorded) simp_all
  then have "quiet d (notify_collections_changed P ?d2)" by (rule quiet_trans [OF _ quiet_notify(2)])
  then show ?thesis using quiet_trans [OF _ quiet_try_emit]
    by (cases "collection_path cid") (simp_all add: announce_collection_def Let_def)
qed

lemma enter_collection_safe:
  assumes "made_ok P d (Some (cid, v))"
  shows "safe P d (snd (enter_collection P cid v name d))"
proof -
  let ?v = "set_index_attributes (st_index_attributes (st d)) v"
  obtain r d1 where v: "vault_ref ?v d = (r, d1)" by fastforce
  let ?d2 = "set_st ((st d1)\<lparr>collections := bt_insert cid r (collections (st d1))\<rparr>) d1"
  have ok: "vault_ok (lib P) ?v (wld d)" "v_path ?v = vault_file_path (vault_dir (st d)) cid" "\<not> retired ?v" "is_segment cid"
    using assms by (simp_all add: made_ok_def vault_ok_flags) (simp_all add: set_index_attributes_def)
  have d1: "st d1 = st d" using v by (auto simp: vault_ref_def)
  have s2: "safe P d ?d2"
    by (rule add_collection_safe [OF ok v, where b = "broken (st d)"]) (simp_all add: same_book_def d1)
  obtain recorded d3 where r3: "record_alias P name cid ?d2 = (recorded, d3)" by fastforce
  then have "quiet ?d2 d3" using quiet_record_alias [of ?d2 P name cid] by simp
  from safe_trans [OF s2 quiet_safe [OF quiet_trans [OF this quiet_announce]]] show ?thesis
    by (simp add: enter_collection_def v r3)
qed

lemma create_collection_safe:
  assumes "lib_correct (lib P)" "calm P other"
  shows "safe P d (snd (create_collection P other tid path label name d))"
proof -
  have made: "safe P d (snd (and_then (create_attempts P other tid label pin NAME_ATTEMPTS d) (\<lambda>made d.
      case made of None \<Rightarrow> (Inr None, d) | Some (cid, v) \<Rightarrow> enter_collection P cid v name d)))" for d pin
  proof -
    obtain x d' where c: "create_attempts P other tid label pin NAME_ATTEMPTS d = (x, d')" by fastforce
    show ?thesis
      unfolding safe_def
    proof
      assume "daemon_ok P d"
      from create_attempts_ok [OF assms c this] have ok: "daemon_ok P d'" "evolves d d'" "\<And>m. x = Inr m \<Longrightarrow> made_ok P d' m"
        by blast+
      show "daemon_ok P (snd (and_then (create_attempts P other tid label pin NAME_ATTEMPTS d) (\<lambda>made d.
          case made of None \<Rightarrow> (Inr None, d) | Some (cid, v) \<Rightarrow> enter_collection P cid v name d)))
        \<and> evolves d (snd (and_then (create_attempts P other tid label pin NAME_ATTEMPTS d) (\<lambda>made d.
          case made of None \<Rightarrow> (Inr None, d) | Some (cid, v) \<Rightarrow> enter_collection P cid v name d)))"
        unfolding c
        using ok safeD [OF enter_collection_safe ok(1)] evolves_trans [OF ok(2)]
        by (cases x) (auto split: option.splits)
    qed
  qed
  have gated: "safe P d (snd (case g of (False, d) \<Rightarrow> (Inr None, d) | (True, d) \<Rightarrow>
      and_then (create_attempts P other tid label pin NAME_ATTEMPTS d) (\<lambda>made d.
      case made of None \<Rightarrow> (Inr None, d) | Some (cid, v) \<Rightarrow> enter_collection P cid v name d)))"
    if "safe P d (snd g)" for d g pin
    using that by (cases g) (auto intro: safe_trans made split: bool.splits)
  show ?thesis
    unfolding create_collection_def
    by (auto intro!: safe_and_then await_safe [OF assms(2)] gated quiet_safe [OF quiet_claim]
        split: sum.splits option.splits)
qed

end
