(* ===== verification/Task_Safety.thy ===== *)
theory Task_Safety
  imports Prompt_Safety
begin

text \<open>
  The rest of a prompt's life keeps the daemon's invariant: deleting a
  collection, the spawned task from its first step to its \<open>Completed\<close> signal,
  and the \<open>Prompt\<close> and \<open>Dismiss\<close> calls that start and stop it.
\<close>

section \<open>Deleting a collection\<close>

text \<open>The file is unlinked, its vault retired and its id dropped: no other collection notices.\<close>

lemma drop_collection_safe:
  assumes p: "v_path (heap d r) = vault_file_path (vault_dir (st d)) cid"
    and frame: "\<And>q. q \<noteq> vault_file_path (vault_dir (st d)) cid \<Longrightarrow> content w q = content (wld d) q"
  shows "safe P d (set_st ((st d)\<lparr>collections := bt_remove cid (collections (st d))\<rparr>) (set_wld w (set_vault r retire d)))"
    (is "safe P d ?d")
proof -
  have "vaults_ok P ?d" if ok: "vaults_ok P d"
    unfolding vaults_ok_def
  proof (intro allI impI)
    fix cid' r'
    assume "(cid', r') \<in> set (collections (st ?d))"
    then have m: "(cid', r') \<in> set (collections (st d))" and ne: "cid' \<noteq> cid"
      by (auto simp: set_st_def bt_remove_def)
    note v = vaults_okD [OF ok m]
    have "r' \<noteq> r" using v(3) p ne by auto
    moreover have "vault_ok (lib P) (heap d r') w"
      by (rule vault_ok_world [OF v(5)]) (simp add: v(3) frame ne)
    ultimately show "r' < next_ref ?d \<and> is_segment cid' \<and> v_path (heap ?d r') = vault_file_path (vault_dir (st ?d)) cid'
      \<and> \<not> retired (heap ?d r') \<and> vault_ok (lib P) (heap ?d r') (wld ?d)"
      using v by (simp add: set_st_def set_wld_def set_vault_def)
  qed
  moreover have "tables_ok (st ?d)" if "tables_ok (st d)" using that by (simp add: tables_ok_def set_st_def)
  moreover have "quotas_ok (st ?d) = quotas_ok (st d)"
    by (simp add: quotas_ok_def set_st_def session_count_def prompt_count_def)
  moreover have "evolves d ?d" by (simp add: evolves_def set_st_def set_wld_def set_vault_def retire_def)
  ultimately show ?thesis by (simp add: safe_def daemon_ok_def)
qed

lemma unretire_safe: "safe P d (set_vault r unretire d)"
proof -
  have "vaults_ok P (set_vault r unretire d)" if ok: "vaults_ok P d"
    unfolding vaults_ok_def
  proof (intro allI impI)
    fix cid' r'
    assume "(cid', r') \<in> set (collections (st (set_vault r unretire d)))"
    then have m: "(cid', r') \<in> set (collections (st d))" by (simp add: set_vault_def)
    note v = vaults_okD [OF ok m]
    have "unretire (heap d r') = heap d r'" using v(4) by (simp add: unretire_def)
    then have "heap (set_vault r unretire d) r' = heap d r'" by (auto simp: set_vault_def)
    with v show "r' < next_ref (set_vault r unretire d) \<and> is_segment cid'
      \<and> v_path (heap (set_vault r unretire d) r') = vault_file_path (vault_dir (st (set_vault r unretire d))) cid'
      \<and> \<not> retired (heap (set_vault r unretire d) r')
      \<and> vault_ok (lib P) (heap (set_vault r unretire d) r') (wld (set_vault r unretire d))"
      by (simp add: set_vault_def)
  qed
  moreover have "evolves d (set_vault r unretire d)" by (simp add: evolves_def set_vault_def unretire_def)
  ultimately show ?thesis by (simp add: safe_def daemon_ok_def set_vault_def)
qed

text \<open>Past the unlink only the tables change, and nothing a vault depends on.\<close>

lemma delete_confirmed_done:
  assumes "\<not> is_locked (heap d r)"
    and rm: "remove_file P (v_path (heap d r)) (set_vault r retire d) = (True, set_wld w (set_vault r retire d))"
  shows "quiet (set_st ((st d)\<lparr>collections := bt_remove cid (collections (st d))\<rparr>) (set_wld w (set_vault r retire d)))
    (snd (delete_confirmed P cid r d))" (is "quiet ?d2 _")
proof -
  let ?d3 = "notify_collections_changed P (unregister_collection cid (item_ids (heap (set_wld w (set_vault r retire d)) r))
    (snd (daemon_update_aliases P Keep (\<lambda>_. purge_alias_edit cid) ?d2)))"
  have q3: "quiet ?d2 ?d3"
    by (rule quiet_trans [OF quiet_trans [OF quiet_update_aliases quiet_unregister_collection] quiet_notify(2)])
  have "snd (delete_confirmed P cid r d) = (case collection_path cid of None \<Rightarrow> ?d3
      | Some q \<Rightarrow> try_emit P (CollectionDeleted q) ?d3)"
    using assms by (simp add: delete_confirmed_def Let_def set_vault_def set_wld_def split: option.splits)
  then show ?thesis using q3 quiet_trans [OF q3 quiet_try_emit] by (simp split: option.splits)
qed

lemma delete_confirmed_safe:
  assumes p: "v_path (heap d r) = vault_file_path (vault_dir (st d)) cid"
  shows "safe P d (snd (delete_confirmed P cid r d))"
proof (cases "is_locked (heap d r)")
  case True
  then show ?thesis by (simp add: delete_confirmed_def)
next
  case False
  let ?p = "vault_file_path (vault_dir (st d)) cid"
  obtain x w where u: "sys_unlink (os P) ?p (wld d) = (x, w)" by fastforce
  then have rm: "remove_file P (v_path (heap d r)) (set_vault r retire d) = (is_ok x, set_wld w (set_vault r retire d))"
    by (simp add: remove_file_def p set_vault_def)
  show ?thesis
  proof (cases x)
    case (Inl e)
    then have "w = next_tick (wld d)" using u sys_unlink_Inl by blast
    then have "snd (delete_confirmed P cid r d)
        = set_wld (next_tick (wld (set_vault r unretire d))) (set_vault r unretire d)"
      using False rm Inl by (simp add: delete_confirmed_def set_vault_def set_wld_def retire_def unretire_def)
    then show ?thesis using safe_trans [OF unretire_safe quiet_safe [OF quiet_tick]] by simp
  next
    case (Inr y)
    then have rm: "remove_file P (v_path (heap d r)) (set_vault r retire d) = (True, set_wld w (set_vault r retire d))"
      using rm by simp
    have "content w q = content (wld d) q" if "q \<noteq> ?p" for q
      using keeps_content [OF sys_unlink_keeps [OF that, of "wld d" "os P"]] u by simp
    from safe_trans [OF drop_collection_safe [OF p this] quiet_safe [OF delete_confirmed_done [OF False rm]]]
    show ?thesis by simp
  qed
qed

lemma delete_collection_safe:
  assumes "calm P other"
  shows "safe P d (snd (delete_collection P other tid path cid d))"
proof (cases "vault_of (st d) cid")
  case None
  then show ?thesis by (simp add: delete_collection_def)
next
  case (Some r)
  let ?f = "\<lambda>t d. let confirmed = (case pin_confirm P t of Inr ok \<Rightarrow> ok | Inl _ \<Rightarrow> False)
    in if \<not> confirmed \<or> pr_cancelled (prompts d path) then (Inr None :: unit + ustr option, d)
       else (case claim path d of
               (False, d) \<Rightarrow> (Inr None, d)
             | (True, d) \<Rightarrow> (case delete_confirmed P cid r d of (x, d) \<Rightarrow> (Inr x, d)))"
  obtain y d1 where a: "await other tid d = (y, d1)" by fastforce
  obtain b d2 where c: "claim path d1 = (b, d2)" by fastforce
  have s1: "safe P d d1" using await_safe [OF assms, of d tid] a by simp
  have q2: "quiet d1 d2" using quiet_claim [of d1 path] c by simp
  have s2: "safe P d d2" by (rule safe_trans [OF s1 quiet_safe [OF q2]])
  have "safe P d (snd (delete_confirmed P cid r d2))"
    unfolding safe_def
  proof
    assume ok: "daemon_ok P d"
    note d2 = safeD [OF s2 ok]
    have "v_path (heap d2 r) = vault_file_path (vault_dir (st d2)) cid"
      using vaults_okD(1,3) [OF _ vault_of_member [OF Some], of P] ok d2 by (simp add: daemon_ok_def evolves_def)
    from safeD [OF delete_confirmed_safe [OF this] conjunct1 [OF d2]] d2
    show "daemon_ok P (snd (delete_confirmed P cid r d2)) \<and> evolves d (snd (delete_confirmed P cid r d2))"
      using evolves_trans by blast
  qed
  then have "safe P d (snd (?f t d1))" for t
    using s1 s2 c by (auto simp: Let_def split: prod.splits bool.splits)
  then show ?thesis
    using Some a s1 unfolding delete_collection_def by (cases y) (auto simp: and_then_def)
qed

section \<open>The task and the calls\<close>

lemma run_safe:
  assumes "lib_correct (lib P)" "calm P other"
  shows "safe P d (snd (run P other tid path action d))"
  unfolding run_def
  by (auto intro!: safe_and_then run_unlock_safe [OF assms] create_collection_safe [OF assms]
      delete_collection_safe [OF assms(2)] split: prompt_action.splits)

lemma finish_safe: "safe P d (finish P path dismissed result d)"
proof -
  let ?s = "(st d)\<lparr>prompt_tasks := bt_remove path (prompt_tasks (st d)),
     prompt_commits := bt_remove path (prompt_commits (st d)), prompt_unlocked := bt_remove path (prompt_unlocked (st d)),
     prompt_owners := bt_remove path (prompt_owners (st d))\<rparr>"
  have "safe P d (set_st ?s d)"
    using count_remove [of _ path "prompt_owners (st d)"]
    by (intro book_safe) (auto simp: tables_ok_def quotas_ok_def session_count_def prompt_count_def intro: order_trans)
  then show ?thesis
    using safe_trans [OF _ quiet_safe [OF quiet_trans [OF quiet_try_emit quiet_server_remove]]]
    unfolding finish_def Let_def by simp
qed

lemma prompt_task_safe:
  assumes "lib_correct (lib P)" "calm P other"
  shows "safe P d (prompt_task P other tid d)"
proof (cases "map_of (tasks d) tid")
  case (Some pa)
  obtain path action where pa: "pa = (path, action)" by fastforce
  obtain x d1 where r: "run P other tid path action d = (x, d1)" by fastforce
  then have s: "safe P d d1" using run_safe [OF assms, of d tid path action] by simp
  have "safe P d (end_task tid d1)" "safe P d (end_task tid (finish P path a b d1))" for a b
    using safe_trans [OF s quiet_safe [OF quiet_end_task]] safe_trans [OF safe_trans [OF s finish_safe] quiet_safe [OF quiet_end_task]]
    by blast+
  with Some pa r show ?thesis by (auto simp: prompt_task_def split: sum.splits)
qed (simp add: prompt_task_def)

lemma quiet_check_owner [quiet]: "quiet d (snd (check_owner path header d))"
  unfolding check_owner_def by (auto intro!: quiet_and_then quiet)

lemma prompt_call_safe: "safe P d (snd (prompt_call path header d))"
proof -
  have "safe P d (set_st ((st d)\<lparr>prompt_tasks := bt_insert path tid (prompt_tasks (st d)),
      prompt_commits := bt_insert path path (prompt_commits (st d))\<rparr>) (d\<lparr>prompts := f, tasks := t, next_task := n\<rparr>))"
    for d tid f t n
    by (rule safe_trans [OF quiet_safe [of d "d\<lparr>prompts := f, tasks := t, next_task := n\<rparr>"] book_safe])
      (simp_all add: quiet_def same_book_def tables_ok_def quotas_ok_def session_count_def prompt_count_def)
  then show ?thesis
    unfolding prompt_call_def Let_def
    by (intro safe_and_then) (auto intro: quiet_safe [OF quiet_check_owner] split: option.splits)
qed

lemma prompt_dismiss_safe: "safe P d (snd (prompt_dismiss P path header d))"
proof -
  have body: "safe P d (finish P path a b (case h of Some tid \<Rightarrow> end_task tid (set_st ((st d)\<lparr>prompt_tasks :=
      bt_remove path (prompt_tasks (st d))\<rparr>) d) | None \<Rightarrow> set_st ((st d)\<lparr>prompt_tasks := bt_remove path (prompt_tasks (st d))\<rparr>) d))"
    for d a b h
  proof -
    have "safe P d (set_st ((st d)\<lparr>prompt_tasks := bt_remove path (prompt_tasks (st d))\<rparr>) d)"
      by (rule book_safe) (simp_all add: tables_ok_def quotas_ok_def session_count_def prompt_count_def)
    then show ?thesis
      using safe_trans [OF _ safe_trans [OF quiet_safe [OF quiet_end_task] finish_safe]] safe_trans [OF _ finish_safe]
      by (cases h) simp_all
  qed
  have "safe P d (snd (case claim path (d\<lparr>prompts := f\<rparr>) of
      (False, d2) \<Rightarrow> (Inr () :: bus_error + unit, d2)
    | (True, d2) \<Rightarrow> (Inr (), finish P path True (k d2) (case map_of (prompt_tasks (st d2)) path of
        Some tid \<Rightarrow> end_task tid (set_st ((st d2)\<lparr>prompt_tasks := bt_remove path (prompt_tasks (st d2))\<rparr>) d2)
      | None \<Rightarrow> set_st ((st d2)\<lparr>prompt_tasks := bt_remove path (prompt_tasks (st d2))\<rparr>) d2))))" for d f k
  proof -
    obtain b d2 where c: "claim path (d\<lparr>prompts := f\<rparr>) = (b, d2)" by fastforce
    then have "quiet d d2" using quiet_trans [OF quiet_fields(3) [of d f] quiet_claim [of _ path]] by simp
    with c body show ?thesis by (cases b) (auto intro: quiet_safe safe_trans [OF quiet_safe])
  qed
  then show ?thesis
    unfolding prompt_dismiss_def Let_def by (intro safe_and_then) (auto intro: quiet_safe [OF quiet_check_owner])
qed

end
