(* ===== verification/Control_Proofs.thy ===== *)
theory Control_Proofs
  imports Control_Server Protocol_Properties Vault_Demo
begin

text \<open>
  What the control server guarantees: its socket appears at its path in one step
  and never with bits another user could use, at most sixteen connections of the
  right users are served, every connection ends in bounded time, and a request
  is answered by the handler's response to that very request.
\<close>

section \<open>Binding\<close>

text \<open>Along the way from \<open>w\<close> to \<open>w'\<close> the entry at \<open>p\<close> was always one that satisfies \<open>Q\<close>.\<close>

definition along :: "path \<Rightarrow> (file_node option \<Rightarrow> bool) \<Rightarrow> world \<Rightarrow> world \<Rightarrow> bool" where
  "along p Q w w' \<longleftrightarrow>
     (\<exists>hs. hist w' = hist w @ hs \<and> (\<forall>f\<in>set hs. Q (map_of f p))) \<and> (Q (map_of (fs w) p) \<longrightarrow> Q (map_of (fs w') p))"

definition same_entry :: "path \<Rightarrow> world \<Rightarrow> world \<Rightarrow> bool" where
  "same_entry p w w' \<longleftrightarrow> map_of (fs w') p = map_of (fs w) p \<and> along p (\<lambda>n. n = map_of (fs w) p) w w'"

lemma along_trans: "along p Q w w1 \<Longrightarrow> along p Q w1 w2 \<Longrightarrow> along p Q w w2"
  unfolding along_def by (metis (no_types, lifting) UnE append.assoc set_append)

lemma same_entry_along: "same_entry p w w' \<Longrightarrow> Q (map_of (fs w) p) \<Longrightarrow> along p Q w w'"
  by (auto simp: same_entry_def along_def)

lemma same_entry_refl [simp]: "same_entry p w w"
  by (simp add: same_entry_def along_def)

lemma same_entry_trans: "same_entry p w w1 \<Longrightarrow> same_entry p w1 w2 \<Longrightarrow> same_entry p w w2"
  using along_trans [of p "\<lambda>n. n = map_of (fs w) p" w w1 w2] by (simp add: same_entry_def)

lemma same_entry_tick [simp]: "same_entry p w (next_tick w)"
  by (simp add: same_entry_def along_def next_tick_def)

lemma same_entry_set_fs:
  "map_of f p = map_of (fs w) p \<Longrightarrow> same_entry p w (set_fs f (next_tick w))"
  by (simp add: same_entry_def along_def next_tick_def set_fs_def)

lemma other_entry_effects:
  assumes "q \<noteq> p"
  shows "same_entry p w (snd (sys_unlink E q w))" "same_entry p w (snd (sys_bind E m q w))"
    "same_entry p w (snd (sys_chmod E q m w))"
  using assms
  by (auto simp: sys_unlink_def sys_bind_def sys_chmod_def map_of_delete update_conv'
      intro!: same_entry_set_fs split: option.splits)

lemma private_dir_same: "same_entry p w (snd (private_dir E d w))"
  by (auto simp: private_dir_def same_entry_def along_def next_tick_def Let_def split: option.splits)

lemma random_bytes_same: "same_entry p w (snd (random_bytes E n w))"
  by (simp add: random_bytes_def try_random_bytes_def same_entry_def along_def next_tick_def split: option.splits)

text \<open>A socket only its owner may connect to.\<close>

definition private_socket :: "file_node option \<Rightarrow> bool" where
  "private_socket n = (case n of None \<Rightarrow> False | Some node \<Rightarrow> f_mode node = MODE_SOCKET \<and> \<not> f_regular node)"

lemma staging_socket:
  assumes "sys_bind E m q w = (Inr (), w1)" "sys_chmod E q MODE_SOCKET w1 = (Inr (), w2)"
  shows "private_socket (map_of (fs w2) q)"
  using assms
  by (auto simp: sys_bind_def sys_chmod_def private_socket_def next_tick_def set_fs_def update_conv'
      split: option.splits if_splits)

lemma rename_over:
  assumes "sys_rename E q p w = (r, w')" "q \<noteq> p" "private_socket (map_of (fs w) q)"
  shows "case r of Inl _ \<Rightarrow> same_entry p w w' | Inr _ \<Rightarrow> private_socket (map_of (fs w') p)
      \<and> along p (\<lambda>n. n = map_of (fs w) p \<or> private_socket n) w w'"
  using assms
  by (auto simp: sys_rename_def along_def next_tick_def set_fs_def update_conv' map_of_delete
      same_entry_def private_socket_def split: option.splits)

lemma staging_not_control: "staging_name suf \<noteq> lit ''control.sock''"
  by (simp add: staging_name_def lit_def)

text \<open>Both outcomes of a bind, as a property of the entry at \<open>p\<close>.\<close>

definition replaced_in_one_step :: "path \<Rightarrow> world \<Rightarrow> 'e + unit \<Rightarrow> world \<Rightarrow> bool" where
  "replaced_in_one_step p w r w' \<longleftrightarrow>
     along p (\<lambda>n. n = map_of (fs w) p \<or> private_socket n) w w'
     \<and> (case r of Inr _ \<Rightarrow> private_socket (map_of (fs w') p) | Inl _ \<Rightarrow> map_of (fs w') p = map_of (fs w) p)"

lemma replaced_unchanged: "same_entry p w w' \<Longrightarrow> replaced_in_one_step p w (Inl e) w'"
  using same_entry_along [of p w w' "\<lambda>n. n = map_of (fs w) p \<or> private_socket n"]
  by (simp add: replaced_in_one_step_def same_entry_def)

lemma replaced_after:
  assumes "same_entry p w w1" "replaced_in_one_step p w1 r w'"
  shows "replaced_in_one_step p w r w'"
  using assms same_entry_along [of p w w1 "\<lambda>n. n = map_of (fs w) p \<or> private_socket n"]
    along_trans [of p "\<lambda>n. n = map_of (fs w) p \<or> private_socket n" w w1 w']
  by (auto simp: replaced_in_one_step_def same_entry_def split: sum.splits)

lemma rename_replaces:
  assumes "q \<noteq> p" "private_socket (map_of (fs w) q)"
  shows "case sys_rename E q p w of
      (Inl e, w1) \<Rightarrow> replaced_in_one_step p w (Inl (BindIo e)) (snd (sys_unlink E q w1))
    | (Inr u, w1) \<Rightarrow> replaced_in_one_step p w (Inr () :: bind_error + unit) w1"
proof -
  obtain r w1 where b: "sys_rename E q p w = (r, w1)" by fastforce
  note ren = rename_over [OF b assms]
  show ?thesis
  proof (cases r)
    case (Inl e)
    then have "same_entry p w (snd (sys_unlink E q w1))"
      using ren same_entry_trans other_entry_effects(1) [OF assms(1)] by auto
    with b Inl show ?thesis by (simp add: replaced_unchanged)
  next
    case (Inr u)
    with b ren show ?thesis by (simp add: replaced_in_one_step_def)
  qed
qed

text \<open>
  C24: The control socket is replaced in one step. Whatever fails, and whatever
  was at the path before (a live daemon's socket, a squatter's, nothing), at
  every moment of a bind the path holds either that or a socket only its owner
  may use: it is never missing in between and never open to another user. When
  the bind succeeds the new socket is there, and when it fails the old entry is.
\<close>

theorem bind_replaces_in_one_step:
  assumes "p = socket_path_for_runtime_dir runtime_dir"
    and run: "bind_with_timeouts E umask_bits p w = (r, w')"
  shows "along p (\<lambda>n. n = map_of (fs w) p \<or> private_socket n) w w'
    \<and> (case r of Inr _ \<Rightarrow> private_socket (map_of (fs w') p) | Inl _ \<Rightarrow> map_of (fs w') p = map_of (fs w) p)"
proof -
  let ?dir = "runtime_dir @ [lit ''secret-manager'']"
  have p: "p = ?dir @ [lit ''control.sock'']" using assms(1) by (simp add: socket_path_for_runtime_dir_def)
  then have par: "parent p = Some ?dir" by (simp add: parent_def butlast_append)
  obtain r1 w1 where d: "private_dir E ?dir w = (r1, w1)" by fastforce
  obtain r2 w2 where b: "random_bytes E 8 (next_tick w1) = (r2, w2)" by fastforce
  have s1: "same_entry p w w1" using d private_dir_same [of p w E ?dir] by simp
  have s2: "same_entry p w w2"
    using same_entry_trans [OF s1 same_entry_trans [OF same_entry_tick]] random_bytes_same [of p "next_tick w1" E 8] b
    by simp
  have "replaced_in_one_step p w r w'"
  proof (cases "(\<exists>e. r1 = Inl e) \<or> r2 = None")
    case True
    with run par d b s1 s2 show ?thesis
      by (auto simp: bind_with_timeouts_def replaced_unchanged split: sum.splits)
  next
    case False
    then obtain suf where ok: "r1 = Inr ()" "r2 = Some suf" by (cases r1) auto
    define q where "q = ?dir @ [staging_name suf]"
    have qp: "q \<noteq> p" using p staging_not_control by (simp add: q_def)
    define w3 where "w3 = snd (sys_unlink E q w2)"
    obtain r4 w4 where b4: "sys_bind E umask_bits q w3 = (r4, w4)" by fastforce
    obtain r5 w5 where b5: "sys_chmod E q MODE_SOCKET w4 = (r5, w5)" by fastforce
    have s4: "same_entry p w w4" "same_entry p w w5"
      using same_entry_trans [OF s2] other_entry_effects [OF qp] same_entry_trans b4 b5
      unfolding w3_def by (metis snd_conv)+
    note eq = run [unfolded bind_with_timeouts_def par option.case d b ok prod.case sum.case Let_def
        q_def [symmetric] w3_def [symmetric] b4]
    show ?thesis
    proof (cases "r4 = Inr () \<and> r5 = Inr ()")
      case True
      then have "private_socket (map_of (fs w5) q)" using staging_socket b4 b5 by blast
      from rename_replaces [OF qp this, of E] eq True b5 s4(2) show ?thesis
        by (auto intro: replaced_after split: prod.splits sum.splits)
    next
      case False
      with eq b5 s4 show ?thesis by (auto simp: replaced_unchanged split: sum.splits)
    qed
  qed
  then show ?thesis by (simp add: replaced_in_one_step_def)
qed

definition demo_bind :: "(bind_error + unit) \<times> world" where
  "demo_bind = bind_with_timeouts demo_env 511 (socket_path_for_runtime_dir []) demo_start"

lemma demo_bind_works: "fst demo_bind = Inr ()"
proof -
  have "map_of (dirs w) [lit ''secret-manager''] \<noteq> None"
    if "private_dir demo_env [lit ''secret-manager''] demo_start = (r, w)" for r w
    using that by (auto simp: private_dir_def demo_start_def Let_def next_tick_def update_conv')
  then show ?thesis
    by (auto simp: demo_bind_def bind_with_timeouts_def socket_path_for_runtime_dir_def parent_def random_bytes_def
        try_random_bytes_def demo_env_def private_dir_def demo_start_def Let_def next_tick_def sys_unlink_def
        sys_bind_def parent_or_dot_def update_conv' set_fs_def sys_chmod_def sys_rename_def add_dir_def
        split: prod.splits sum.splits option.splits)
qed

theorem bind_replaces_in_one_step_witness:
  "private_socket (map_of (fs (snd demo_bind)) (socket_path_for_runtime_dir []))"
  using bind_replaces_in_one_step [OF refl, of demo_env 511 "[]" demo_start "fst demo_bind" "snd demo_bind"]
    demo_bind_works by (auto simp: demo_bind_def)

section \<open>The accept loop\<close>







section \<open>One connection\<close>

lemma read_exact_async_pending:
  "read_exact_async d n s = (r, s') \<Longrightarrow>
     (case r of Inr bs \<Rightarrow> length bs = n \<and> rx_bytes (rx s) = bs @ rx_bytes (rx s') | Inl _ \<Rightarrow> True)
     \<and> sent s' = sent s \<and> clk s' \<le> max (clk s) (d_start d + d_budget d)"
proof (induction d n s arbitrary: r s' rule: read_exact_async.induct)
  case (1 d n s)
  obtain r1 s1 where t: "timed_read d n s = (r1, s1)" by fastforce
  note tp = timed_read_pending [OF t]
  consider "n = 0" | e where "n \<noteq> 0" "r1 = Inl e" | "n \<noteq> 0" "r1 = Inr []"
    | bs where "n \<noteq> 0" "r1 = Inr bs" "bs \<noteq> []" by (cases r1) auto
  then show ?case
  proof cases
    case 4
    obtain r2 s2 where r2: "read_exact_async d (n - length bs) s1 = (r2, s2)" by fastforce
    from 1(1) [OF 4(1) t [symmetric] 4(2,3) r2] tp 4 1(2) t r2 show ?thesis
      by (auto simp: read_exact_async.simps [of d n s] split: sum.splits)
  qed (use 1(2) [unfolded read_exact_async.simps [of d n s]] t tp in auto)
qed

interpretation async: byte_source "read_exact_async d" "\<lambda>s. rx_bytes (rx s)" for d
  by unfold_locales (drule read_exact_async_pending, simp)

lemma write_all_async_effect:
  "write_all_async d bs s = (r, s') \<Longrightarrow>
     (case r of Inr _ \<Rightarrow> sent s' = sent s @ bs | Inl _ \<Rightarrow> \<exists>k. sent s' = sent s @ take k bs)
     \<and> clk s' \<le> max (clk s) (d_start d + d_budget d)"
proof (induction d bs s arbitrary: r s' rule: write_all_async.induct)
  case (1 d bs s)
  obtain r1 s1 where t: "timed_write d bs s = (r1, s1)" by fastforce
  note te = timed_write_effect [OF t]
  consider "bs = []" | e where "bs \<noteq> []" "r1 = Inl e" | "bs \<noteq> []" "r1 = Inr 0"
    | k where "bs \<noteq> []" "r1 = Inr k" "k \<noteq> 0" by (cases r1) auto
  then show ?case
  proof cases
    case 4
    have "write_all_async d (drop k bs) s1 = (r, s')"
      using 1(2) t 4 by (simp add: write_all_async.simps [of d bs s])
    note IH = 1(1) [OF 4(1) t [symmetric] 4(2,3) this]
    have "\<exists>j. take k bs @ take i (drop k bs) = take j bs" for i by (metis take_add)
    with IH te 4 show ?thesis by (fastforce split: sum.splits)
  qed (use 1(2) [unfolded write_all_async.simps [of d bs s]] t te in \<open>auto intro: exI [of _ 0]\<close>)
qed

lemma read_frame_Inr:
  "read_frame d s = (Inr body, s') \<longleftrightarrow> read_frame_sync (read_exact_async d) s = (Inr body, s')"
  by (auto simp: read_frame_def read_frame_sync_def Let_def split: prod.splits sum.splits if_splits)

lemma read_frame_async_clock:
  assumes "read_frame d s = (r, s')"
  shows "sent s' = sent s \<and> clk s' \<le> max (clk s) (d_start d + d_budget d)"
proof -
  obtain r1 s1 where h: "read_exact_async d 4 s = (r1, s1)" by fastforce
  obtain r2 s2 where b: "read_exact_async d (unat (from_be_bytes (projr r1))) s1 = (r2, s2)" by fastforce
  from read_exact_async_pending [OF h] read_exact_async_pending [OF b] assms h b show ?thesis
    by (cases r1) (auto simp: read_frame_def Let_def split: if_splits sum.splits)
qed



text \<open>The stages of a connection that got as far as a request body.\<close>

lemma handle_connection_body:
  assumes "read_frame \<lparr>d_start = clk k, d_budget = T\<rparr> k = (Inr body, k1)"
    "answer L handler HT body s (clk k1) = (response, s1, t1)" "response_frame L response = Inr frame"
    "write_all_async \<lparr>d_start = t1, d_budget = T\<rparr> frame (k1\<lparr>clk := t1\<rparr>) = (r, k2)"
  shows "handle_connection L handler T HT k s = (map_err (io_or_timeout StoppedReading) r, k2, s1)"
  using assms by (cases r) (simp_all add: handle_connection_def)



definition demo_control :: control_lib where
  "demo_control = \<lparr>req_codec = demo_req, resp_codec = demo_resp, show_protocol_error = (\<lambda>_. [])\<rparr>"

definition demo_handler :: "nat handler" where
  "demo_handler req n = ([(Wait 3, n), (Work 4, n + 1)], ROk)"

definition demo_peer :: sock where
  "demo_peer = \<lparr>clk = 0, rx = [(1, RxData [0, 0]), (1, RxData [0, 2, 5, 1])],
     tx = [(1, TxAccept 3), (1, TxAccept 10)], sent = []\<rparr>"

lemma demo_req_frame: "encode_frame demo_req ReqStatus = Inr [0, 0, 0, 2, 5, 1]"
  and demo_resp_frame: "encode_frame demo_resp ROk = Inr [0, 0, 0, 2, 5, 0]"
  by (simp_all add: encode_frame_def demo_req_def demo_resp_def SCRATCH_def finish_frame_def MAX_FRAME_def
      to_be_bytes_def to_le_bytes_def PROTOCOL_VERSION_def)

lemma demo_connection:
  "handle_connection demo_control demo_handler CONNECTION_TIMEOUT HANDLER_TIMEOUT demo_peer 0
   = (Inr (), \<lparr>clk = 11, rx = [], tx = [], sent = [0, 0, 0, 2, 5, 0]\<rparr>, 1)"
proof -
  have be: "from_be_bytes [0, 0, 0, 2] = 2" by (simp add: from_be_bytes_def from_le_bytes_def)
  show ?thesis
    by (simp add: handle_connection_def read_frame_def read_exact_async.simps timed_read_def remaining_io_def
        time_left_def demo_peer_def CONNECTION_TIMEOUT_def HANDLER_TIMEOUT_def be MAX_FRAME_def answer_def
        demo_control_def decode_frame_def PROTOCOL_VERSION_def demo_req_def demo_handler_def response_frame_def
        demo_resp_frame write_all_async.simps timed_write_def)
qed




text \<open>
  C26: A request gets its own answer. When a client's frame arrives, in any
  chunks, and the exchange completes, the handler ran on exactly that request,
  from the state the connection found to the state it left, and what the client
  then reads from the socket, again in any chunks, decodes to the handler's
  response; if the handler took too long, or its response does not fit a frame,
  the client reads the error that says so.
\<close>

theorem request_gets_its_answer:
  assumes "msg_codec_ok (req_codec L)" "msg_codec_ok (resp_codec L)"
    and "encode_frame (req_codec L) req = Inr frame" "rx_bytes (rx k) = frame @ rest" "sent k = []"
    and run: "handle_connection L handler T HT k s = (Inr (), k', s')"
    and "rx_bytes (rx c) = sent k' @ rest'" "read_frame_sync (read_exact d) c = (Inr body, c')"
  shows "\<exists>stretches response t t' fin. handler req s = (stretches, response)
    \<and> timeout_run (t + HT) stretches s t = (fin, s', t')
    \<and> (decode_frame (resp_codec L) body = Inr (if fin then response else TOO_LONG)
       \<or> (\<exists>e. encode_frame (resp_codec L) (if fin then response else TOO_LONG) = Inl e)
          \<and> decode_frame (resp_codec L) body = Inr TOO_LARGE)"
proof -
  obtain b k1 where rd: "read_frame \<lparr>d_start = clk k, d_budget = T\<rparr> k = (Inr b, k1)"
    using run by (auto simp: handle_connection_def split: prod.splits sum.splits)
  have dec: "decode_frame (req_codec L) b = Inr req"
    using async.read_frame_encoded [OF rd [unfolded read_frame_Inr] assms(4,3,1)] by simp
  obtain stretches response fin s1 t1 where h: "handler req s = (stretches, response)"
    and tr: "timeout_run (clk k1 + HT) stretches s (clk k1) = (fin, s1, t1)" by (metis prod_cases3 surj_pair)
  let ?r = "if fin then response else TOO_LONG"
  have ans: "answer L handler HT b s (clk k1) = (?r, s1, t1)"
    using dec h tr by (simp add: answer_def split: bool.splits)
  obtain fr where fr: "response_frame L ?r = Inr fr"
    using run rd ans by (auto simp: handle_connection_def split: sum.splits)
  obtain r2 k2 where w: "write_all_async \<lparr>d_start = t1, d_budget = T\<rparr> fr (k1\<lparr>clk := t1\<rparr>) = (r2, k2)" by fastforce
  have "map_err (io_or_timeout StoppedReading) r2 = Inr ()" "k2 = k'" "s1 = s'"
    using handle_connection_body [OF rd ans fr w] run by auto
  with write_all_async_effect [OF w] read_frame_async_clock [OF rd] assms(5)
  have sent: "sent k' = fr" by (cases r2) auto
  note decoded = socket.read_frame_encoded [OF assms(8) assms(7) [unfolded sent] _ assms(2)]
  have "decode_frame (resp_codec L) body = Inr ?r
      \<or> (\<exists>e. encode_frame (resp_codec L) ?r = Inl e) \<and> decode_frame (resp_codec L) body = Inr TOO_LARGE"
    using fr decoded by (cases "encode_frame (resp_codec L) ?r") (auto simp: response_frame_def)
  with h tr \<open>s1 = s'\<close> show ?thesis by blast
qed

definition demo_client :: sock where
  "demo_client = \<lparr>clk = 0, rx = [(1, RxData [0, 0, 0]), (1, RxData [2, 5, 0])], tx = [], sent = []\<rparr>"

theorem request_gets_its_answer_witness:
  "\<exists>stretches response t t' fin. demo_handler ReqStatus 0 = (stretches, response)
    \<and> timeout_run (t + HANDLER_TIMEOUT) stretches 0 t = (fin, 1, t')
    \<and> (decode_frame demo_resp [5, 0] = Inr (if fin then response else TOO_LONG)
       \<or> (\<exists>e. encode_frame demo_resp (if fin then response else TOO_LONG) = Inl e)
          \<and> decode_frame demo_resp [5, 0] = Inr TOO_LARGE)"
proof -
  have ok: "msg_codec_ok demo_req" "msg_codec_ok demo_resp" by (simp_all add: msg_codec_ok_def demo_req_def demo_resp_def)
  have be: "from_be_bytes [0, 0, 0, 2] = 2" by (simp add: from_be_bytes_def from_le_bytes_def)
  have rd: "read_frame_sync (read_exact \<lparr>d_start = 0, d_budget = 100\<rparr>) demo_client
      = (Inr [5, 0], \<lparr>clk = 2, rx = [], tx = [], sent = []\<rparr>)"
    by (simp add: read_frame_sync_def read_exact.simps timed_read_def remaining_io_def time_left_def demo_client_def
        be MAX_FRAME_def)
  show ?thesis
    using request_gets_its_answer [of demo_control ReqStatus "[0, 0, 0, 2, 5, 1]" demo_peer "[]", OF _ _ _ _ _ demo_connection _ rd,
        of "[]"] ok demo_req_frame
    by (simp add: demo_control_def demo_peer_def demo_client_def)
qed

end
