(* ===== verification/Daemon_Steps.thy ===== *)
theory Daemon_Steps
  imports Task_Safety Control_Proofs
begin

text \<open>
  The daemon as a whole. The control requests, the clean-up after a client and
  the idle lock keep the invariant too, and \<open>daemon_runs\<close> is every run of the
  daemon: D-Bus calls, control requests, client departures, idle ticks and
  prompt tasks, where a task that waits for a dialog or a key derivation is
  interleaved with runs of the rest of the daemon.
\<close>

section \<open>Control requests\<close>

lemma control_unlock_safe:
  assumes "lib_correct (lib P)"
  shows "safe P d (snd (control_unlock_with_key P collection k pin d))"
proof (cases "vault_of (st d) collection")
  case (Some r)
  obtain x d1 where o: "on_vault r (unlock_with_key (lib P) (os P) k) d = (x, d1)" by fastforce
  then have s: "safe P d d1" using on_vault_safe [OF unlock_with_key_well_behaved [OF assms] Some, of "os P" k] by simp
  have "safe P d (notify_collection_changed P collection (touch P (set_vault r (set_pinned pin) d1)))"
    by (rule safe_trans [OF safe_trans [OF s pin_safe] quiet_safe [OF quiet_trans [OF quiet_touch quiet_notify(1)]]])
  with Some o s show ?thesis by (auto simp: control_unlock_with_key_def split: sum.splits)
qed (simp add: control_unlock_with_key_def)

lemma control_change_key_safe:
  assumes "lib_correct (lib P)"
  shows "safe P d (snd (control_change_key P collection old_key new_salt new_kdf new_key d))"
proof (cases "vault_of (st d) collection")
  case (Some r)
  from on_vault_safe [OF change_key_well_behaved [OF assms] this, of "os P" old_key new_salt new_kdf new_key] Some
  show ?thesis by (auto simp: control_change_key_def split: sum.splits prod.splits)
qed (simp add: control_change_key_def)

lemma lock_targets_safe: "safe P d (snd (lock_targets targets changed missing d))"
proof (induction targets changed missing d rule: lock_targets.induct)
  case (2 cid r targets changed missing d)
  then show ?case using safe_trans [OF lock_safe, of P r d] by simp
qed simp_all

lemma notify_each_quiet: "quiet d (fold (notify_collection_changed P) ids d)"
  by (rule quiet_fold) (rule quiet_notify(1))

lemma control_lock_safe: "safe P d (snd (control_lock P collection d))"
proof -
  let ?targets = "case collection of Some c \<Rightarrow> [(c, vault_of (st d) c)]
    | None \<Rightarrow> map (\<lambda>(c, r). (c, Some r)) (all_vaults (st d))"
  obtain changed missing d1 where l: "lock_targets ?targets [] None d = ((changed, missing), d1)"
    by (cases "lock_targets ?targets [] None d") auto
  have "snd (control_lock P collection d) = fold (notify_collection_changed P) changed d1"
    unfolding control_lock_def Let_def l by simp
  with safe_trans [OF lock_targets_safe [of P d ?targets "[]" None] quiet_safe [OF notify_each_quiet]]
  show ?thesis unfolding l by simp
qed

lemma quiet_control_status [quiet]: "quiet d (snd (control_status P d))"
  by (simp add: control_status_def quiet)

section \<open>Rescanning the directory\<close>

lemma open_vault_fs: "fs (snd (open_vault D E p w)) = fs w"
  by (auto simp: open_vault_def sys_metadata_def sys_read_def split: option.splits sum.splits prod.splits)

text \<open>What a scan found: intact locked vaults of the files it read.\<close>

definition scan_ok :: "vault_lib \<Rightarrow> path \<Rightarrow> ustr list \<Rightarrow> world \<Rightarrow> vault_scan \<Rightarrow> bool" where
  "scan_ok D dir loaded w scan \<longleftrightarrow> (\<forall>cid v. (cid, v) \<in> set (sc_opened scan) \<longrightarrow>
     is_segment cid \<and> cid \<notin> set loaded \<and> v_path v = vault_file_path dir cid \<and> \<not> retired v \<and> is_locked v \<and> vault_ok D v w)"

lemma scan_ok_world:
  assumes "scan_ok D dir loaded w scan"
    and "\<And>cid. cid \<notin> set loaded \<Longrightarrow> content w' (vault_file_path dir cid) = content w (vault_file_path dir cid)"
  shows "scan_ok D dir loaded w' scan"
  unfolding scan_ok_def
proof (intro allI impI)
  fix cid v
  assume "(cid, v) \<in> set (sc_opened scan)"
  with assms(1) have v: "is_segment cid" "cid \<notin> set loaded" "v_path v = vault_file_path dir cid" "\<not> retired v" "is_locked v"
    and ok: "vault_ok D v w" by (auto simp: scan_ok_def)
  have "vault_ok D v w'" by (rule vault_ok_world [OF ok]) (simp add: v(3) assms(2) [OF v(2)])
  with v show "is_segment cid \<and> cid \<notin> set loaded \<and> v_path v = vault_file_path dir cid \<and> \<not> retired v \<and> is_locked v
    \<and> vault_ok D v w'" by simp
qed

lemma entry_path:
  assumes "p \<noteq> []" "butlast p = dir" "stem_and_extension (last p) = Some (cid, lit ''vault'')"
  shows "p = vault_file_path dir cid"
proof -
  have "last p = cid @ lit ''.vault''"
    using assms(3) by (auto simp: stem_and_extension_def rsplit_once_Some_iff lit_def split: option.splits if_splits)
  with assms(1,2) append_butlast_last_id [of p] show ?thesis by (simp add: vault_file_path_def)
qed

text \<open>An entry either is skipped or is opened.\<close>

lemma scan_loop_skips:
  assumes "scan_loop P index_attrs loaded (p # ps) scan w = (r, w')" "fault (os P) (tick w) = None"
    and "\<nexists>cid. stem_and_extension (last p) = Some (cid, lit ''vault'') \<and> is_segment cid \<and> cid \<notin> set loaded"
  obtains seen where "scan_loop P index_attrs loaded ps (scan\<lparr>sc_seen := seen\<rparr>) (next_tick w) = (r, w')"
proof (cases "stem_and_extension (last p)")
  case None
  then show thesis using that [of "sc_seen scan"] assms(1,2) by simp
next
  case (Some e)
  obtain cid ext where "e = (cid, ext)" by fastforce
  then show thesis
    using Some assms that [of "sc_seen scan"] that [of "cid # sc_seen scan"] by (simp add: Let_def split: if_splits)
qed

lemma scan_loop_opens:
  assumes "scan_loop P index_attrs loaded (p # ps) scan w = (r, w')" "fault (os P) (tick w) = None"
    and "stem_and_extension (last p) = Some (cid, lit ''vault'')" "is_segment cid" "cid \<notin> set loaded"
    and "open_vault (lib P) (os P) p (next_tick w) = (x, w2)"
  shows "scan_loop P index_attrs loaded ps (case x of
      Inr v \<Rightarrow> scan\<lparr>sc_seen := cid # sc_seen scan, sc_opened := sc_opened scan @ [(cid, set_index_attributes index_attrs v)]\<rparr>
    | Inl e \<Rightarrow> scan\<lparr>sc_seen := cid # sc_seen scan, sc_broken := sc_broken scan @ [(cid, p, show_vault_error P e)]\<rparr>) w2
    = (r, w')"
  using assms by (cases x) (simp_all add: Let_def)

lemma opened_scan_ok:
  assumes "scan_ok D dir loaded w scan" "is_segment cid" "cid \<notin> set loaded"
    and "open_vault D E (vault_file_path dir cid) w = (x, w2)"
  shows "scan_ok D dir loaded w2 (case x of
      Inr v \<Rightarrow> scan\<lparr>sc_seen := sn, sc_opened := sc_opened scan @ [(cid, set_index_attributes b v)]\<rparr>
    | Inl e \<Rightarrow> scan\<lparr>sc_seen := sn, sc_broken := br e\<rparr>)"
proof -
  have "fs w2 = fs w" using open_vault_fs [of D E "vault_file_path dir cid" w] assms(4) by simp
  then have ok: "scan_ok D dir loaded w2 scan" by (intro scan_ok_world [OF assms(1)]) (simp add: content_def)
  show ?thesis
  proof (cases x)
    case (Inl e)
    with ok show ?thesis by (simp add: scan_ok_def)
  next
    case (Inr v)
    note v = open_vault_Inr [OF assms(4) [unfolded Inr] vault_file_path_ok]
    have "vault_ok D (set_index_attributes b v) w2" using v(1) by (simp add: vault_ok_flags)
    with Inr ok assms(2,3) v show ?thesis by (auto simp: scan_ok_def set_index_attributes_def is_locked_def)
  qed
qed

lemma scan_loop_ok:
  assumes "scan_loop P index_attrs loaded ps scan w = (r, w')" "scan_ok (lib P) dir loaded w scan"
    and "\<And>p. p \<in> set ps \<Longrightarrow> p \<noteq> [] \<and> butlast p = dir"
  shows "fs w' = fs w \<and> (\<forall>scan'. r = Inr scan' \<longrightarrow> scan_ok (lib P) dir loaded w' scan')"
  using assms
proof (induction ps arbitrary: scan w)
  case Nil
  then show ?case by auto
next
  case (Cons p ps)
  have ticked: "scan_ok (lib P) dir loaded (next_tick w) (scan\<lparr>sc_seen := x\<rparr>)" for x
  proof -
    have "scan_ok (lib P) dir loaded w (scan\<lparr>sc_seen := x\<rparr>)" using Cons.prems(2) by (simp add: scan_ok_def)
    from scan_ok_world [OF this] show ?thesis by (simp add: content_def)
  qed
  then have ticked1: "scan_ok (lib P) dir loaded (next_tick w) scan" by (simp add: scan_ok_def)
  have entry: "p \<noteq> []" "butlast p = dir" using Cons.prems(3) [of p] by simp_all
  have rest: "fs w' = fs w1 \<and> (\<forall>scan'. r = Inr scan' \<longrightarrow> scan_ok (lib P) dir loaded w' scan')"
    if "scan_loop P index_attrs loaded ps s w1 = (r, w')" "scan_ok (lib P) dir loaded w1 s" for s w1
    using Cons.IH [OF that] Cons.prems(3) by simp
  consider (fault) e where "fault (os P) (tick w) = Some e"
    | (skip) "fault (os P) (tick w) = None"
        "\<nexists>cid. stem_and_extension (last p) = Some (cid, lit ''vault'') \<and> is_segment cid \<and> cid \<notin> set loaded"
    | (opens) cid where "fault (os P) (tick w) = None" "stem_and_extension (last p) = Some (cid, lit ''vault'')"
        "is_segment cid" "cid \<notin> set loaded"
    by fastforce
  then show ?case
  proof cases
    case fault
    with Cons.prems(1) show ?thesis by auto
  next
    case skip
    obtain x where "scan_loop P index_attrs loaded ps (scan\<lparr>sc_seen := x\<rparr>) (next_tick w) = (r, w')"
      using scan_loop_skips [OF Cons.prems(1) skip] .
    from rest [OF this ticked] show ?thesis by simp
  next
    case opens
    obtain x w2 where o: "open_vault (lib P) (os P) p (next_tick w) = (x, w2)" by fastforce
    note path = entry_path [OF entry opens(2)]
    have "fs w2 = fs w" using open_vault_fs [of "lib P" "os P" p "next_tick w"] o by simp
    with rest [OF scan_loop_opens [OF Cons.prems(1) opens o] opened_scan_ok [OF ticked1 opens(3,4) o [unfolded path]]]
    show ?thesis by simp
  qed
qed

lemma load_aliases_fs: "fs (snd (load_aliases T E dir w)) = fs w"
  by (auto simp: load_aliases_def sys_metadata_def sys_read_def Let_def split: option.splits sum.splits prod.splits)

lemma scan_vault_dir_ok:
  assumes "scan_vault_dir P dir index_attrs loaded w = (r, w')"
  shows "fs w' = fs w" "r = Inr scan \<Longrightarrow> scan_ok (lib P) dir loaded w' scan"
proof -
  have "fs w' = fs w \<and> (\<forall>scan. r = Inr scan \<longrightarrow> scan_ok (lib P) dir loaded w' scan)"
  proof -
    obtain x w1 where e: "ensure_vault_dir (os P) dir w = (x, w1)" by fastforce
    have f1: "fs w1 = fs w" using ensure_vault_dir_fs(1) [of "os P" dir w] e by simp
    let ?empty = "\<lparr>sc_opened = [], sc_broken = [], sc_aliases = Inr [], sc_seen = []\<rparr>"
    obtain y w2 where l: "scan_loop P index_attrs loaded (dir_entries w1 dir) ?empty (next_tick w1) = (y, w2)" by fastforce
    have l2: "fs w2 = fs w1 \<and> (\<forall>s. y = Inr s \<longrightarrow> scan_ok (lib P) dir loaded w2 s)"
      using scan_loop_ok [OF l, of dir] by (auto simp: scan_ok_def dir_entries_def read_dir_def)
    obtain z w3 where a: "load_aliases (toml P) (os P) dir w2 = (z, w3)" by fastforce
    have f3: "fs w3 = fs w2" using load_aliases_fs [of "toml P" "os P" dir w2] a by simp
    have s3: "scan_ok (lib P) dir loaded w3 (s\<lparr>sc_aliases := q\<rparr>)" if "y = Inr s" for s q
    proof -
      have "scan_ok (lib P) dir loaded w3 s"
        using l2 that scan_ok_world [of "lib P" dir loaded w2 s w3] f3 by (simp add: content_def)
      then show ?thesis by (simp add: scan_ok_def)
    qed
    show ?thesis
      using assms e l a f1 l2 f3 s3
      by (auto simp: scan_vault_dir_def and_then_def split: sum.splits option.splits alias_io.splits)
  qed
  then show "fs w' = fs w" "r = Inr scan \<Longrightarrow> scan_ok (lib P) dir loaded w' scan" by blast+
qed

lemma merge_opened_safe:
  assumes "\<And>cid v. (cid, v) \<in> set opened \<Longrightarrow> is_segment cid \<and> v_path v = vault_file_path (vault_dir (st d)) cid
      \<and> \<not> retired v \<and> vault_ok (lib P) v (wld d)"
  shows "safe P d (snd (merge_opened opened new_ids d))"
  using assms
proof (induction opened arbitrary: new_ids d)
  case (Cons e rest)
  obtain cid v where e: "e = (cid, v)" by fastforce
  obtain r d1 where r: "vault_ref v d = (r, d1)" by fastforce
  let ?d2 = "set_st ((st d1)\<lparr>broken := bt_remove cid (broken (st d1)), collections := bt_insert cid r (collections (st d1))\<rparr>) d1"
  have d1: "st d1 = st d" "wld d1 = wld d" using r by (auto simp: vault_ref_def)
  have v: "is_segment cid" "v_path v = vault_file_path (vault_dir (st d)) cid" "\<not> retired v" "vault_ok (lib P) v (wld d)"
    using Cons.prems [of cid v] e by simp_all
  have "safe P d ?d2"
    by (rule add_collection_safe [OF v(4) v(2) v(3) v(1) r, where b = "bt_remove cid (broken (st d))"])
      (simp_all add: same_book_def d1)
  moreover have "safe P ?d2 (snd (merge_opened rest n ?d2))" for n
    by (rule Cons.IH) (use Cons.prems in \<open>auto simp: set_st_def d1\<close>)
  ultimately show ?case using safe_trans by (simp add: e r Let_def)
qed simp

lemma merge_broken_book:
  "merge_broken bs new_ids s = (n, s') \<Longrightarrow> same_book s (s'\<lparr>broken := broken s\<rparr>) \<and> (bt_sorted (broken s) \<longrightarrow> bt_sorted (broken s'))"
proof (induction bs new_ids s rule: merge_broken.induct)
  case (2 cid p err rest new_ids s)
  from "2.IH" [OF refl "2.prems" [unfolded merge_broken.simps Let_def]] show ?case by (simp add: same_book_def)
qed (simp add: same_book_def)

lemma merge_scan_safe:
  assumes "\<And>cid v. (cid, v) \<in> set (sc_opened scan) \<Longrightarrow> is_segment cid \<and> v_path v = vault_file_path (vault_dir (st d)) cid
      \<and> \<not> retired v \<and> vault_ok (lib P) v (wld d)"
  shows "safe P d (snd (merge_scan scan d))"
proof -
  obtain n1 d1 where m: "merge_opened (sc_opened scan) [] d = (n1, d1)" by fastforce
  obtain n2 s2 where b: "merge_broken (sc_broken scan) n1 (st d1) = (n2, s2)" by fastforce
  have s: "safe P d d1" using merge_opened_safe [of "sc_opened scan" d P "[]"] assms m by simp
  note book = merge_broken_book [OF b]
  have "safe P d1 (set_st (s2\<lparr>broken := filter Q (broken s2), aliases := a\<rparr>) d1)" for Q a
    by (rule book_safe)
      (use book in \<open>auto simp: same_book_def tables_ok_def quotas_ok_def
        session_count_def prompt_count_def\<close>)
  with s show ?thesis using safe_trans by (simp add: merge_scan_def m b)
qed

text \<open>What may happen while the directory is scanned: nothing to a file that is not loaded.\<close>

definition leaves_unloaded :: "interference \<Rightarrow> bool" where
  "leaves_unloaded other \<longleftrightarrow> (\<forall>t d cid. cid \<notin> set (loaded_ids (st d)) \<longrightarrow>
     content (wld (other t d)) (vault_file_path (vault_dir (st d)) cid) = content (wld d) (vault_file_path (vault_dir (st d)) cid))"

lemma quiet_emit_created [quiet]: "quiet d (snd (emit_created P ids d))"
proof (induction ids arbitrary: d)
  case (Cons cid rest)
  show ?case unfolding emit_created.simps
    by (rule quiet_and_then [OF quiet_expect_path]) (rule quiet_trans [OF quiet_try_emit Cons.IH])
qed simp

lemma reload_after_merge:
  "quiet d (snd (case register_all P d of
      (Inl Panicked, d2) \<Rightarrow> (None, d2)
    | (Inl e, d2) \<Rightarrow> (Some (RError (show_bus_error P e)), d2)
    | (Inr _, d2) \<Rightarrow>
        (case emit_created P new_ids d2 of
           (Inl _, d3) \<Rightarrow> (None, d3)
         | (Inr _, d3) \<Rightarrow> (Some ROk, if new_ids = [] then d3 else notify_collections_changed P d3))))"
proof -
  obtain x d2 where r: "register_all P d = (x, d2)" by fastforce
  obtain y d3 where e: "emit_created P new_ids d2 = (y, d3)" by fastforce
  have q: "quiet d d2" "quiet d d3" "quiet d (notify_collections_changed P d3)"
    using quiet_register_all [of d P] quiet_emit_created [of d2 P new_ids] quiet_trans quiet_notify(2) [of d3 P] r e
    by (metis snd_conv)+
  then show ?thesis by (simp add: r e split: sum.splits bus_error.splits)
qed

lemma control_reload_safe:
  assumes "calm P other" "leaves_unloaded other"
  shows "safe P d (snd (control_reload P other d))"
proof -
  let ?dir = "vault_dir (st d)"
  obtain r w where s: "scan_vault_dir P ?dir (st_index_attributes (st d)) (loaded_ids (st d)) (wld d) = (r, w)" by fastforce
  note scan = scan_vault_dir_ok [OF s]
  have q: "quiet d (set_wld w d)" by (rule quiet_wld) (rule same_files_fs [OF scan(1)])
  show ?thesis
  proof (cases r)
    case (Inl e)
    with s quiet_safe [OF q] show ?thesis by (simp add: control_reload_def)
  next
    case (Inr sc)
    let ?d1 = "other (tick w) (set_wld w d)"
    obtain ids d2 where m: "merge_scan sc ?d1 = (ids, d2)" by fastforce
    have s1: "safe P d ?d1" using safe_trans [OF quiet_safe [OF q]] assms(1) by (simp add: calm_def)
    have "safe P d d2"
      unfolding safe_def
    proof
      assume ok: "daemon_ok P d"
      note d1 = safeD [OF s1 ok]
      have dir: "vault_dir (st ?d1) = ?dir" using d1 by (simp add: evolves_def)
      have "content (wld ?d1) (vault_file_path ?dir cid) = content w (vault_file_path ?dir cid)"
        if "cid \<notin> set (loaded_ids (st d))" for cid
        using assms(2) [unfolded leaves_unloaded_def, rule_format, of cid "set_wld w d" "tick w"] that
        by (simp add: set_wld_def)
      then have "scan_ok (lib P) ?dir (loaded_ids (st d)) (wld ?d1) sc"
        using scan_ok_world [OF scan(2) [OF Inr]] by simp
      then have "safe P ?d1 (snd (merge_scan sc ?d1))"
        by (intro merge_scan_safe) (simp add: scan_ok_def dir)
      from safeD [OF this] d1 m show "daemon_ok P d2 \<and> evolves d d2" using evolves_trans [of d ?d1 d2] by simp
    qed
    from safe_trans [OF this quiet_safe [OF reload_after_merge]] show ?thesis
      using s Inr m by (simp add: control_reload_def)
  qed
qed

section \<open>Departures and inactivity\<close>

lemma remove_sessions_safe: "safe P d (set_st ((st d)\<lparr>sessions := fold bt_remove ps (sessions (st d))\<rparr>) d)"
proof (induction ps arbitrary: d)
  case (Cons p ps)
  let ?d = "set_st ((st d)\<lparr>sessions := bt_remove p (sessions (st d))\<rparr>) d"
  from safe_trans [OF remove_session_safe [of P d p] Cons.IH [of ?d]] show ?case by (simp add: set_st_def)
qed (simp add: set_st_def)

lemma reclaim_unlocked_safe: "safe P d (snd (reclaim_unlocked p relock d))"
  by (simp add: reclaim_unlocked_def forget_unlocked_safe split: option.splits)

lemma reclaim_prompt_safe: "safe P d (snd (reclaim_prompt p relock d))"
proof -
  let ?s = "(st d)\<lparr>prompt_owners := bt_remove p (prompt_owners (st d)), prompt_commits := bt_remove p (prompt_commits (st d)),
    prompt_tasks := bt_remove p (prompt_tasks (st d))\<rparr>"
  have s: "safe P d (set_st ?s d)"
    using count_remove [of _ p "prompt_owners (st d)"]
    by (intro book_safe) (auto simp: tables_ok_def quotas_ok_def session_count_def prompt_count_def intro: order_trans)
  from s safe_trans [OF s reclaim_unlocked_safe] safe_trans [OF s safe_trans [OF quiet_safe [OF quiet_end_task] reclaim_unlocked_safe]]
  show ?thesis by (simp add: reclaim_prompt_def Let_def split: option.splits)
qed

lemma reclaim_prompts_safe: "safe P d (snd (reclaim_prompts ps relock d))"
proof (induction ps arbitrary: relock d)
  case (Cons p ps)
  obtain x d1 where r: "reclaim_prompt p relock d = (x, d1)" by fastforce
  from safe_trans [OF _ Cons.IH [of d1 x]] reclaim_prompt_safe [of P d p relock] r show ?case by simp
qed simp

lemma relock_open_safe: "safe P d (relock_open P relock d)"
proof (induction P relock d rule: relock_open.induct)
  case (2 P cid r rest d)
  have "safe P d (notify_collection_changed P cid (set_vault r lock d))"
    by (rule safe_trans [OF lock_safe quiet_safe [OF quiet_notify(1)]])
  from safe_trans [OF _ "2.IH"] this show ?case by simp
qed simp_all

lemma quiet_remove_all: "quiet d (fold (\<lambda>p. server_remove p K) ps d)"
  by (rule quiet_fold) (rule quiet_server_remove)

lemma name_owner_changed_safe: "safe P d (name_owner_changed P name new_owner d)"
proof -
  let ?d1 = "set_st ((st d)\<lparr>sessions := fold bt_remove (session_paths (st d) name) (sessions (st d))\<rparr>) d"
  obtain relock d2 where r: "reclaim_prompts (prompt_paths (st ?d1) name) [] ?d1 = (relock, d2)" by fastforce
  have "safe P d d2"
    using safe_trans [OF remove_sessions_safe reclaim_prompts_safe [of P ?d1 "prompt_paths (st ?d1) name" "[]"]] r by simp
  from safe_trans [OF safe_trans [OF this relock_open_safe] quiet_safe [OF quiet_trans [OF quiet_remove_all quiet_remove_all]]]
  show ?thesis by (simp add: name_owner_changed_def Let_def r)
qed

lemma idle_lock_vaults_safe: "safe P d (snd (idle_lock_vaults vs ids d))"
proof (induction vs ids d rule: idle_lock_vaults.induct)
  case (2 cid r rest ids d)
  then show ?case using safe_trans [OF lock_safe, of P r d] by simp
qed simp

lemma idle_lock_safe: "safe P d (idle_lock P after d)"
proof -
  let ?d1 = "set_wld (next_tick (wld d)) d"
  obtain ids d2 where i: "idle_lock_vaults (all_vaults (st ?d1)) [] ?d1 = (ids, d2)" by fastforce
  have q: "safe P d ?d1" by (rule quiet_safe [OF quiet_tick])
  have "safe P d d2" using safe_trans [OF q idle_lock_vaults_safe [of P ?d1 "all_vaults (st ?d1)" "[]"]] i by simp
  from q safe_trans [OF this quiet_safe [OF notify_each_quiet]] show ?thesis by (simp add: idle_lock_def Let_def i)
qed

section \<open>Runs\<close>

text \<open>The methods that change the daemon, as the bus delivers them with the sender's name.\<close>

datatype bus_call =
    CallOpenSession ustr variant
  | CallSessionClose ustr
  | CallCreateCollection "(ustr \<times> variant) list" ustr
  | CallUnlock "ustr list"
  | CallLock "ustr list"
  | CallGetSecrets "ustr list" ustr
  | CallSetAlias ustr ustr
  | CallCollectionDelete collection_ref
  | CallCreateItem collection_ref "(ustr \<times> variant) list" secret_struct bool
  | CallSetCollectionLabel collection_ref ustr
  | CallDeleteItems collection_ref "ustr list"
  | CallItemDelete ustr ustr
  | CallGetSecret ustr ustr ustr
  | CallSetSecret ustr ustr secret_struct
  | CallSetAttributes ustr ustr attrs
  | CallSetItemLabel ustr ustr ustr
  | CallPrompt ustr
  | CallDismiss ustr

fun bus_step :: "platform \<Rightarrow> ustr option \<Rightarrow> bus_call \<Rightarrow> daemon \<Rightarrow> daemon" where
  "bus_step P header (CallOpenSession alg input) d = snd (open_session P alg input header d)"
| "bus_step P header (CallSessionClose path) d = snd (session_close path header d)"
| "bus_step P header (CallCreateCollection properties name) d = snd (service_create_collection P properties name header d)"
| "bus_step P header (CallUnlock objects) d = snd (service_unlock P objects header d)"
| "bus_step P header (CallLock objects) d = snd (service_lock P objects d)"
| "bus_step P header (CallGetSecrets paths session) d = snd (get_secrets P paths session header d)"
| "bus_step P header (CallSetAlias name collection) d = snd (set_alias P name collection d)"
| "bus_step P header (CallCollectionDelete target) d = snd (collection_delete P target header d)"
| "bus_step P header (CallCreateItem target properties secret replace) d =
     snd (create_item P target properties secret replace header d)"
| "bus_step P header (CallSetCollectionLabel target label) d = snd (collection_set_label P target label d)"
| "bus_step P header (CallDeleteItems target paths) d = snd (admin_delete_items P target paths d)"
| "bus_step P header (CallItemDelete cid iid) d = snd (item_delete P cid iid d)"
| "bus_step P header (CallGetSecret cid iid session) d = snd (get_secret P cid iid session header d)"
| "bus_step P header (CallSetSecret cid iid secret) d = snd (set_secret P cid iid secret header d)"
| "bus_step P header (CallSetAttributes cid iid m) d = snd (item_set_attributes P cid iid m d)"
| "bus_step P header (CallSetItemLabel cid iid label) d = snd (item_set_label P cid iid label d)"
| "bus_step P header (CallPrompt path) d = snd (prompt_call path header d)"
| "bus_step P header (CallDismiss path) d = snd (prompt_dismiss P path header d)"

lemma bus_step_safe: "lib_correct (lib P) \<Longrightarrow> safe P d (bus_step P header c d)"
  by (cases c)
    (simp_all add: open_session_safe session_close_safe service_create_collection_safe service_unlock_safe service_lock_safe
      set_alias_safe collection_delete_safe create_item_safe collection_set_label_safe admin_delete_items_safe
      item_delete_safe set_secret_safe item_setters_safe prompt_call_safe prompt_dismiss_safe quiet_safe quiet_get_secret
      quiet_get_secrets)

inductive daemon_runs :: "platform \<Rightarrow> daemon \<Rightarrow> daemon \<Rightarrow> bool" for P where
  idle: "daemon_runs P d d"
| call: "daemon_runs P d d1 \<Longrightarrow> daemon_runs P d (bus_step P header c d1)"
| control: "daemon_runs P d d1 \<Longrightarrow> (\<And>t e. daemon_runs P e (other t e)) \<Longrightarrow> leaves_unloaded other
    \<Longrightarrow> daemon_runs P d (snd (handle_control P other req d1))"
| departure: "daemon_runs P d d1 \<Longrightarrow> daemon_runs P d (name_owner_changed P name new_owner d1)"
| inactivity: "daemon_runs P d d1 \<Longrightarrow> daemon_runs P d (idle_lock P after d1)"
| task: "daemon_runs P d d1 \<Longrightarrow> (\<And>t e. daemon_runs P e (other t e)) \<Longrightarrow> daemon_runs P d (prompt_task P other tid d1)"

lemma handle_control_safe:
  assumes "lib_correct (lib P)" "calm P other" "leaves_unloaded other"
  shows "safe P d (snd (handle_control P other req d))"
  using assms
  by (cases req)
    (simp_all add: control_unlock_safe control_change_key_safe control_lock_safe control_reload_safe
      quiet_safe [OF quiet_control_status])

lemma daemon_runs_safe:
  assumes "daemon_runs P d d'" "lib_correct (lib P)"
  shows "safe P d d'"
  using assms(1)
proof (induction rule: daemon_runs.induct)
  case (idle d)
  then show ?case by simp
next
  case (call d d1 header c)
  then show ?case using safe_trans bus_step_safe [OF assms(2)] by blast
next
  case (control d d1 other req)
  then have "calm P other" by (simp add: calm_def)
  with control show ?case using safe_trans [OF control.IH(1) handle_control_safe [OF assms(2)]] by blast
next
  case (departure d d1 name new_owner)
  then show ?case using safe_trans name_owner_changed_safe by blast
next
  case (inactivity d d1 after)
  then show ?case using safe_trans idle_lock_safe by blast
next
  case (task d d1 other tid)
  then have "calm P other" by (simp add: calm_def)
  with task show ?case using safe_trans [OF task.IH(1) prompt_task_safe [OF assms(2)]] by blast
qed

section \<open>Starting\<close>

lemma bind_other_entry:
  assumes "q \<noteq> p" "\<And>dir suf. parent p = Some dir \<Longrightarrow> q \<noteq> dir @ [staging_name suf]"
  shows "same_entry q w (snd (bind_with_timeouts E m p w))"
proof (cases "parent p")
  case (Some dir)
  obtain x1 w1 where p1: "private_dir E dir w = (x1, w1)" by fastforce
  obtain x2 w2 where p2: "random_bytes E 8 (next_tick w1) = (x2, w2)" by fastforce
  have s1: "same_entry q w w1" using private_dir_same [of q w E dir] p1 by simp
  have s2: "same_entry q w w2"
    using same_entry_trans [OF s1 same_entry_trans [OF same_entry_tick]] random_bytes_same [of q "next_tick w1" E 8] p2 by simp
  have "same_entry q w (snd (let staging = dir @ [staging_name suf]; w3 = snd (sys_unlink E staging w2)
     in case sys_bind E m staging w3 of
          (Inl e, w4) \<Rightarrow> (Inl (BindIo e), w4)
        | (Inr _, w4) \<Rightarrow>
            (case sys_chmod E staging MODE_SOCKET w4 of
               (Inl e, w5) \<Rightarrow> (Inl (BindIo e), w5)
             | (Inr _, w5) \<Rightarrow>
                 (case sys_rename E staging p w5 of
                    (Inl e, w6) \<Rightarrow> (Inl (BindIo e), snd (sys_unlink E staging w6))
                  | (Inr _, w6) \<Rightarrow> (Inr (), w6)))))" for suf
  proof -
    let ?st = "dir @ [staging_name suf]"
    have ne: "?st \<noteq> q" using assms(2) [OF Some] by blast
    let ?w3 = "snd (sys_unlink E ?st w2)"
    obtain x4 w4 where p4: "sys_bind E m ?st ?w3 = (x4, w4)" by fastforce
    obtain x5 w5 where p5: "sys_chmod E ?st MODE_SOCKET w4 = (x5, w5)" by fastforce
    obtain x6 w6 where p6: "sys_rename E ?st p w5 = (x6, w6)" by fastforce
    have s4: "same_entry q w w4"
      using same_entry_trans [OF same_entry_trans [OF s2 other_entry_effects(1) [OF ne]] other_entry_effects(2) [OF ne]] p4
      by (metis snd_conv)
    have s5: "same_entry q w w5" using same_entry_trans [OF s4 other_entry_effects(3) [OF ne]] p5 by (metis snd_conv)
    have "same_entry q w5 w6"
      using p6 ne assms(1)
      by (auto simp: sys_rename_def update_conv' map_of_delete intro!: same_entry_set_fs split: option.splits)
    then have s6: "same_entry q w w6" by (rule same_entry_trans [OF s5])
    show ?thesis
      using s4 s5 s6 same_entry_trans [OF s6 other_entry_effects(1) [OF ne]]
      by (simp add: Let_def p4 p5 p6 split: sum.splits)
  qed
  with Some p1 p2 s1 s2 show ?thesis by (simp add: bind_with_timeouts_def split: sum.splits option.splits)
qed (simp add: bind_with_timeouts_def)

lemma vault_not_staging: "vault_file_path dir cid \<noteq> dir' @ [staging_name suf]"
proof
  assume "vault_file_path dir cid = dir' @ [staging_name suf]"
  then have "last (cid @ lit ''.vault'') = last (staging_name suf)" by (simp add: vault_file_path_def)
  then show False by (simp add: staging_name_def lit_def)
qed

lemma bind_quiet:
  assumes "\<And>cid. p \<noteq> vault_file_path (vault_dir (st d)) cid" "bind_with_timeouts E m p (wld d) = (r, w)"
  shows "quiet d (set_wld w d)"
proof (rule quiet_wld)
  show "same_files (vault_dir (st d)) (wld d) w"
    unfolding same_files_def
  proof
    fix cid
    have "same_entry (vault_file_path (vault_dir (st d)) cid) (wld d) (snd (bind_with_timeouts E m p (wld d)))"
      by (rule bind_other_entry) (use assms(1) [of cid] vault_not_staging in auto)
    with assms(2) show "content w (vault_file_path (vault_dir (st d)) cid) = content (wld d) (vault_file_path (vault_dir (st d)) cid)"
      by (simp add: same_entry_def content_def)
  qed
qed

lemma empty_daemon_ok: "daemon_ok P (new_daemon (service_state_new dir kdf gpg t \<lparr>st_index_attributes := b\<rparr>) h w)"
  by (simp add: daemon_ok_def vaults_ok_def tables_ok_def quotas_ok_def new_daemon_def service_state_new_def
      session_count_def prompt_count_def bt_sorted_def)

lemma merged_start_safe:
  assumes "scan_vault_dir P (vault_dir (st d)) b (loaded_ids (st d)) (wld d) = (Inr scan, w)"
  shows "safe P d (snd (merge_scan scan (set_wld w d)))"
proof -
  note scan = scan_vault_dir_ok [OF assms]
  have "safe P d (set_wld w d)" by (rule quiet_safe [OF quiet_wld [OF same_files_fs [OF scan(1)]]])
  moreover have "safe P (set_wld w d) (snd (merge_scan scan (set_wld w d)))"
    by (rule merge_scan_safe) (use scan(2) [OF refl] in \<open>simp add: scan_ok_def set_wld_def\<close>)
  ultimately show ?thesis by (rule safe_trans)
qed

text \<open>The socket the daemon binds: the configured one, else the runtime directory's.\<close>

definition start_socket :: "daemon_options \<Rightarrow> path option \<Rightarrow> path option" where
  "start_socket opts runtime_socket = (case o_control_socket opts of Some p \<Rightarrow> Some p | None \<Rightarrow> runtime_socket)"

lemma start_socket_case:
  "(case o_control_socket opts of Some p \<Rightarrow> (Inr p, d)
    | None \<Rightarrow> (case runtime_socket of Some p \<Rightarrow> (Inr p, d) | None \<Rightarrow> (Inl DaemonNoRuntimeDir, d)))
   = (case start_socket opts runtime_socket of Some p \<Rightarrow> (Inr p, d) | None \<Rightarrow> (Inl DaemonNoRuntimeDir, d))"
  by (simp add: start_socket_def split: option.splits)

text \<open>What a successful start went through.\<close>

lemma daemon_start_Inr:
  assumes "daemon_start P K bus runtime_socket m opts h w = (Inr (), d)"
    and s: "s = (service_state_new (o_dir opts) (o_kdf opts) (o_gpg opts) (instant P (tick w)))
      \<lparr>st_index_attributes := o_locked_search opts\<rparr>"
    and d0: "d0 = new_daemon s h (snd (sweep_stale_temp_files (os P) (o_dir opts) w))"
  obtains scan w1 d1 p w2 where
    "scan_vault_dir P (vault_dir (st d0)) (st_index_attributes (st d0)) (loaded_ids (st d0)) (wld d0) = (Inr scan, w1)"
    "register_all P (snd (merge_scan scan (set_wld w1 d0))) = (Inr (), d1)"
    "start_socket opts runtime_socket = Some p"
    "bind_with_timeouts (os P) m p (wld d1) = (Inr (), w2)" "d = set_wld w2 d1"
proof -
  have e: "set_wld (snd (sweep_stale_temp_files (os P) (o_dir opts) (wld (new_daemon s h w)))) (new_daemon s h w) = d0"
    by (simp add: d0 set_wld_def new_daemon_def)
  note run = assms(1) [unfolded daemon_start_def Let_def start_socket_case, folded s, unfolded and_then_Inr]
  from run obtain scan w1 where
    scan: "scan_vault_dir P (vault_dir (st d0)) (st_index_attributes (st d0)) (loaded_ids (st d0)) (wld d0) = (Inr scan, w1)"
    by (auto simp: e split: prod.splits sum.splits)
  let ?d1 = "snd (merge_scan scan (set_wld w1 d0))"
  obtain y d2 where reg: "register_all P ?d1 = (y, d2)" by fastforce
  from run scan reg have y: "y = Inr ()" by (cases y) (auto simp: e and_then_Inr split: bus_error.splits)
  obtain p where p: "start_socket opts runtime_socket = Some p"
    using run scan reg y by (cases "start_socket opts runtime_socket") (auto simp: e and_then_Inr)
  obtain z w2 where b: "bind_with_timeouts (os P) m p (wld d2) = (z, w2)" by fastforce
  have "z = Inr () \<and> d = set_wld w2 d2"
    using run scan reg y p b by (cases z) (auto simp: e and_then_Inr split: bind_error.splits)
  with that scan reg y p b show thesis by simp
qed

lemma daemon_start_ok:
  assumes "daemon_start P K bus runtime_socket m opts h w = (Inr (), d)"
    and "\<And>cid. start_socket opts runtime_socket \<noteq> Some (vault_file_path (o_dir opts) cid)"
  shows "daemon_ok P d"
proof -
  let ?s = "(service_state_new (o_dir opts) (o_kdf opts) (o_gpg opts) (instant P (tick w)))\<lparr>st_index_attributes := o_locked_search opts\<rparr>"
  let ?d0 = "new_daemon ?s h (snd (sweep_stale_temp_files (os P) (o_dir opts) w))"
  from daemon_start_Inr [OF assms(1) refl refl] obtain scan w1 d1 p w2 where
    scan: "scan_vault_dir P (vault_dir (st ?d0)) (st_index_attributes (st ?d0)) (loaded_ids (st ?d0)) (wld ?d0) = (Inr scan, w1)"
    and reg: "register_all P (snd (merge_scan scan (set_wld w1 ?d0))) = (Inr (), d1)"
    and p: "start_socket opts runtime_socket = Some p"
    and bind: "bind_with_timeouts (os P) m p (wld d1) = (Inr (), w2)" and d: "d = set_wld w2 d1" .
  let ?d2 = "snd (merge_scan scan (set_wld w1 ?d0))"
  have s1: "safe P ?d0 d1"
    using safe_trans [OF merged_start_safe [OF scan] quiet_safe [OF quiet_register_all [of ?d2 P]]] reg by simp
  have ok1: "daemon_ok P d1 \<and> evolves ?d0 d1" by (rule safeD [OF s1 empty_daemon_ok])
  then have "vault_dir (st d1) = o_dir opts" by (simp add: evolves_def new_daemon_def service_state_new_def)
  then have "quiet d1 d" using assms(2) p d by (simp only: d) (intro bind_quiet [OF _ bind], simp)
  from safeD [OF quiet_safe [OF this] conjunct1 [OF ok1]] show ?thesis by simp
qed

end
