(* ===== verification/Daemon_Demo.thy ===== *)
theory Daemon_Demo
  imports Daemon_Steps
begin

text \<open>
  A concrete daemon for the examples: a platform on which nothing fails and the
  user types the right password, a session library over plain arithmetic, and a
  daemon with one open collection, its vault file and one Diffie-Hellman session.
\<close>

definition demo_slib :: session_lib where
  "demo_slib = \<lparr>monty_pow = (\<lambda>b e. word_of_nat (unat b ^ unat e mod unat PRIME)),
     hkdf_sha256 = (\<lambda>ikm n. Some (take n (rev ikm))),
     cbc_encrypt = (\<lambda>k iv m. m @ replicate 16 0),
     cbc_decrypt = (\<lambda>k iv c. if length c < 16 then None else Some (take (length c - 16) c))\<rparr>"

lemma demo_slib_ok: "session_lib_ok demo_slib"
proof -
  have "unat (word_of_nat (n mod unat PRIME) :: u1024) = n mod unat PRIME" for n
  proof -
    have "n mod unat PRIME < unat PRIME" using PRIME_value(2) by simp
    also have "\<dots> < 2 ^ LENGTH(1024)" by (rule unsigned_less)
    finally show ?thesis by (simp add: unat_of_nat)
  qed
  then show ?thesis by (simp add: session_lib_ok_def demo_slib_def)
qed

definition demo_platform :: platform where
  "demo_platform = \<lparr>os = demo_env, lib = demo_lib, slib = demo_slib, toml = demo_toml, at_fault = (\<lambda>_. None),
     emit_fault = (\<lambda>_. None), instant = (\<lambda>t. t), show_vault_error = (\<lambda>_. []), show_io_error = (\<lambda>_. []),
     show_bus_error = (\<lambda>_. []), pin_session = (\<lambda>_. None), pin_ask = (\<lambda>_. Inr (Some [1, 2])),
     pin_confirm = (\<lambda>_. Inr True)\<rparr>"

lemma demo_platform_simps [simp]:
  "os demo_platform = demo_env" "lib demo_platform = demo_lib" "slib demo_platform = demo_slib"
  "toml demo_platform = demo_toml" "at_fault demo_platform t = None" "emit_fault demo_platform t = None"
  "instant demo_platform t = t" "pin_session demo_platform t = None" "pin_ask demo_platform t = Inr (Some [1, 2])"
  "pin_confirm demo_platform t = Inr True"
  by (simp_all add: demo_platform_def)

definition demo_session :: ustr where "demo_session = lit ''/org/freedesktop/secrets/session/s1''"
definition demo_owner :: ustr where "demo_owner = lit '':1.5''"

definition demo_daemon :: daemon where
  "demo_daemon =
     (new_daemon ((service_state_new demo_dir demo_kdf False 0)
        \<lparr>collections := [(lit ''a'', 0)],
         sessions := [(demo_session, \<lparr>se_owner = demo_owner, se_cipher = Aes (replicate 16 7)\<rparr>)]\<rparr>)
        (\<lambda>_. demo_filled) demo_disk2)\<lparr>next_ref := 1\<rparr>"

lemma demo_daemon_simps [simp]:
  "heap demo_daemon r = demo_filled" "wld demo_daemon = demo_disk2" "vault_dir (st demo_daemon) = demo_dir"
  "collections (st demo_daemon) = [(lit ''a'', 0)]" "next_ref demo_daemon = 1"
  "sessions (st demo_daemon) = [(demo_session, \<lparr>se_owner = demo_owner, se_cipher = Aes (replicate 16 7)\<rparr>)]"
  "exports demo_daemon = []" "signals demo_daemon = []" "tasks demo_daemon = []" "broken (st demo_daemon) = []"
  "prompt_owners (st demo_daemon) = []" "prompt_tasks (st demo_daemon) = []" "prompt_commits (st demo_daemon) = []"
  "prompt_unlocked (st demo_daemon) = []" "aliases (st demo_daemon) = Usable []" "last_activity (st demo_daemon) = 0"
  by (simp_all add: demo_daemon_def new_daemon_def service_state_new_def)

lemma demo_vault_of [simp]: "vault_of (st demo_daemon) cid = (if cid = lit ''a'' then Some 0 else None)"
  by (simp add: vault_of_def)

lemma demo_file: "vault_file_path demo_dir (lit ''a'') = demo_path"
  by (simp add: vault_file_path_def demo_dir_def demo_path_def lit_def)

lemma demo_segment: "is_segment (lit ''a'')"
  by code_simp

lemma demo_daemon_ok: "daemon_ok demo_platform demo_daemon"
  by (simp add: daemon_ok_def vaults_ok_def tables_ok_def quotas_ok_def bt_sorted_def session_count_def prompt_count_def
      demo_segment demo_file demo_filled_facts demo_filled_ok2 MAX_SESSIONS_PER_SENDER_def MAX_PROMPTS_PER_OWNER_def)

section \<open>A start\<close>

definition demo_options :: daemon_options where
  "demo_options = \<lparr>o_dir = demo_dir, o_kdf = demo_kdf, o_gpg = False, o_lock_memory = True, o_locked_search = True,
     o_control_socket = None\<rparr>"

definition demo_started :: "(daemon_error + unit) \<times> daemon" where
  "demo_started = daemon_start demo_platform demo_kernel BusOk (Some (socket_path_for_runtime_dir [])) 511 demo_options
     (\<lambda>_. demo_filled) demo_start"

definition demo_daemon0 :: daemon where "demo_daemon0 = snd demo_started"

lemma demo_bind_anywhere:
  assumes "fs w = []" "dirs w = [([], m), (demo_dir, m)]"
  shows "fst (bind_with_timeouts demo_env 511 (socket_path_for_runtime_dir []) w) = Inr ()"
  using assms
  by (auto simp: bind_with_timeouts_def socket_path_for_runtime_dir_def parent_def random_bytes_def
      try_random_bytes_def demo_env_def private_dir_def Let_def next_tick_def sys_unlink_def
      sys_bind_def parent_or_dot_def update_conv' set_fs_def sys_chmod_def sys_rename_def add_dir_def demo_dir_def lit_def
      split: prod.splits sum.splits option.splits)

lemma demo_swept: "sweep_stale_temp_files demo_env demo_dir demo_start
    = (0, demo_start\<lparr>tick := 2\<rparr>)"
  by (simp add: sweep_stale_temp_files_def sweep_temp_files_def demo_env_def now_def Let_def read_dir_def demo_start_def
      next_tick_def)

lemma demo_scanned: "scan_vault_dir demo_platform demo_dir b [] (demo_start\<lparr>tick := 2\<rparr>)
    = (Inr \<lparr>sc_opened = [], sc_broken = [], sc_aliases = Inr [], sc_seen = []\<rparr>,
       \<lparr>fs = [], dirs = [([], MODE_DIR), (demo_dir, MODE_DIR)], tick = 6, hist = []\<rparr>)"
  by (simp add: scan_vault_dir_def ensure_vault_dir_def demo_env_def Let_def demo_start_def next_tick_def demo_dir_def
      dir_entries_def read_dir_def load_aliases_def sys_metadata_def add_dir_def prefixes_def)

lemma demo_starts: "daemon_start demo_platform demo_kernel BusOk (Some (socket_path_for_runtime_dir [])) 511 demo_options
    (\<lambda>_. demo_filled) demo_start = (Inr (), demo_daemon0)"
proof -
  let ?w = "\<lparr>fs = [], dirs = [([], MODE_DIR), (demo_dir, MODE_DIR)], tick = 6, hist = []\<rparr>"
  obtain x w where b: "bind_with_timeouts demo_env 511 (socket_path_for_runtime_dir []) ?w = (x, w)" by fastforce
  have "x = Inr ()" using demo_bind_anywhere [of ?w MODE_DIR] b by simp
  have h: "hardened demo_kernel True = Inr ()"
    using demo_lock_memory by (simp add: hardened_def disable_dumping_def demo_kernel_def)
  have "fst demo_started = Inr ()"
    using b \<open>x = Inr ()\<close> h
    by (simp add: demo_started_def daemon_start_def demo_options_def new_daemon_def service_state_new_def Let_def
        set_wld_def set_st_def demo_swept demo_scanned loaded_ids_def merge_scan_def from_zbus_def register_all_def)
  then show ?thesis unfolding demo_daemon0_def demo_started_def by (metis prod.collapse)
qed

lemma demo_socket: "start_socket demo_options (Some (socket_path_for_runtime_dir [])) \<noteq> Some (vault_file_path (o_dir demo_options) cid)"
proof
  assume "start_socket demo_options (Some (socket_path_for_runtime_dir [])) = Some (vault_file_path (o_dir demo_options) cid)"
  then have "last (cid @ lit ''.vault'') = last (lit ''control.sock'')"
    by (simp add: start_socket_def demo_options_def socket_path_for_runtime_dir_def vault_file_path_def demo_dir_def)
  then show False by (simp add: lit_def)
qed

end
