(* ===== verification/Daemon_Properties.thy ===== *)
theory Daemon_Properties
  imports Daemon_Demo
begin

text \<open>
  What the daemon promises its clients: the invariant of every run, that secrets
  leave only through a session of the caller and from an open collection, that a
  stored secret comes back, and that two ends of a session share its key.
\<close>

section \<open>Every run\<close>



section \<open>Secrets leave only through sessions\<close>

definition session_of :: "daemon \<Rightarrow> ustr \<Rightarrow> ustr option \<Rightarrow> session_cipher option" where
  "session_of d path header =
     (case (map_of (sessions (st d)) path, header) of
        (Some e, Some who) \<Rightarrow> if se_owner e = who then Some (se_cipher e) else None
      | _ \<Rightarrow> None)"

lemma session_checked:
  "require_sender header = Inr who \<Longrightarrow> cipher_of (st d) path who = Inr c \<Longrightarrow> session_of d path header = Some c"
  by (auto simp: require_sender_def cipher_of_def session_of_def split: option.splits if_splits)

lemma vault_item_Inr:
  "vault_item v iid = Inr i \<longleftrightarrow> (\<exists>k its. v_state v = Unlocked k its \<and> find (\<lambda>x. it_id x = iid) its = Some i)"
  by (auto simp: vault_item_def items_def split: vault_state.splits option.splits)

lemma get_secret_Inr:
  assumes "get_secret P cid iid session header d = (Inr s, d')"
  obtains c r i params v w where "session_of d session header = Some c" "vault_of (st d) cid = Some r"
    "vault_item (heap d r) iid = Inr i" "encrypt (slib P) (os P) c (it_secret i) (wld d) = (Some (params, v), w)"
    "s = \<lparr>ss_session = session, ss_parameters = params, ss_value = v, ss_content_type = it_content_type i\<rparr>"
    "d' = touch P (set_wld w d)"
proof -
  from assms obtain who c r i where "require_sender header = Inr who" "cipher_of (st d) session who = Inr c"
    and r: "vault_of (st d) cid = Some r" and i: "vault_item (heap d r) iid = Inr i"
    and e: "(case encrypt (slib P) (os P) c (it_secret i) (wld d) of
               (None, w) \<Rightarrow> (Inl Panicked, set_wld w d)
             | (Some (params, v), w) \<Rightarrow>
                 (Inr \<lparr>ss_session = session, ss_parameters = params, ss_value = v, ss_content_type = it_content_type i\<rparr>,
                  touch P (set_wld w d))) = (Inr s, d')"
    unfolding get_secret_def by (auto simp: and_then_Inr map_err_Inr_iff split: option.splits)
  then have c: "session_of d session header = Some c" by (simp add: session_checked)
  obtain x w where x: "encrypt (slib P) (os P) c (it_secret i) (wld d) = (x, w)" by fastforce
  with e obtain params v where "x = Some (params, v)" by (cases x) auto
  with that [OF c r i] e x show thesis by simp
qed

text \<open>
  C28: A secret that \<open>GetSecret\<close> hands out is one the caller may have: the caller
  is known, the session exists and is its own, the collection is loaded and
  open, the item is in it, and what is sent decrypts under that session to
  exactly the stored secret. The call changes no table and no file.
\<close>

theorem get_secret_released:
  assumes "session_lib_ok (slib P)" "get_secret P cid iid session header d = (Inr s, d')"
  shows "\<exists>c r k its i. session_of d session header = Some c \<and> vault_of (st d) cid = Some r
    \<and> v_state (heap d r) = Unlocked k its \<and> i \<in> set its \<and> it_id i = iid
    \<and> ss_session s = session \<and> ss_content_type s = it_content_type i
    \<and> decrypt (slib P) c (ss_parameters s) (ss_value s) = Inr (it_secret i) \<and> quiet d d'"
proof -
  from assms(2) obtain c r i params v w where
    c: "session_of d session header = Some c" "vault_of (st d) cid = Some r" and i: "vault_item (heap d r) iid = Inr i"
    and e: "encrypt (slib P) (os P) c (it_secret i) (wld d) = (Some (params, v), w)"
    and s: "s = \<lparr>ss_session = session, ss_parameters = params, ss_value = v, ss_content_type = it_content_type i\<rparr>"
    by (rule get_secret_Inr)
  from i obtain k its where "v_state (heap d r) = Unlocked k its" "i \<in> set its" "it_id i = iid"
    by (auto simp: vault_item_Inr find_Some_iff)
  moreover have "quiet d d'" using quiet_get_secret [of d P cid iid session header] assms(2) by simp
  ultimately show ?thesis
    using c s encrypt_decrypt [OF assms(1) e] by (intro exI [of _ c] exI [of _ r] exI [of _ k] exI [of _ its] exI [of _ i]) simp
qed

lemma demo_get_secret:
  "get_secret demo_platform (lit ''a'') [97] demo_session (Some demo_owner) demo_daemon
   = (Inr \<lparr>ss_session = demo_session, ss_parameters = map word_of_nat [0..<16],
           ss_value = [3, 4] @ replicate 16 0, ss_content_type = lit ''t''\<rparr>,
      touch demo_platform (set_wld (next_tick demo_disk2) demo_daemon))"
proof -
  have "tick demo_disk2 = 0" by (simp add: demo_disk2_def)
  then have r: "random_bytes demo_env 16 demo_disk2 = (Some (map word_of_nat [0..<16]), next_tick demo_disk2)"
    by (simp add: random_bytes_def try_random_bytes_def demo_env_def)
  have c: "cbc_encrypt demo_slib k iv m = m @ replicate 16 0" for k iv m by (simp add: demo_slib_def)
  have i: "it_secret demo_item = [3, 4]" "it_content_type demo_item = lit ''t''" by (simp_all add: demo_item_def)
  have "vault_item demo_filled [97] = Inr demo_item"
    by (simp add: vault_item_Inr demo_filled_facts) (simp add: demo_item_def)
  then show ?thesis by (simp add: get_secret_def check_def require_sender_def cipher_of_def r c i)
qed

theorem get_secret_released_witness:
  "\<exists>c r k its i. session_of demo_daemon demo_session (Some demo_owner) = Some c \<and> vault_of (st demo_daemon) (lit ''a'') = Some r
    \<and> v_state (heap demo_daemon r) = Unlocked k its \<and> i \<in> set its \<and> it_id i = [97]
    \<and> decrypt demo_slib c (map word_of_nat [0..<16]) ([3, 4] @ replicate 16 0) = Inr (it_secret i)"
  using get_secret_released [OF _ demo_get_secret] demo_slib_ok by fastforce

section \<open>Reading in one batch\<close>

text \<open>What reading one path on its own gives.\<close>

definition readable :: "daemon \<Rightarrow> ustr \<Rightarrow> item option" where
  "readable d p =
     (case resolve_path (st d) p of
        Some (PItem cid r iid) \<Rightarrow> (case vault_item (heap d r) iid of Inr i \<Rightarrow> Some i | Inl _ \<Rightarrow> None)
      | _ \<Rightarrow> None)"

lemma resolve_path_cong:
  assumes "collections s' = collections s" "broken s' = broken s" "aliases s' = aliases s"
  shows "resolve_path s' p = resolve_path s p"
proof -
  have "vault_of s' = vault_of s" "alias_or_none s' = alias_or_none s"
    unfolding vault_of_def [abs_def] alias_or_none_def [abs_def] alias_target_def [abs_def] assms by (rule refl)+
  then show ?thesis unfolding resolve_path_def assms(2) by presburger
qed

lemma resolve_path_touch: "resolve_path (st (touch P d)) p = resolve_path (st d) p"
  by (rule resolve_path_cong) (simp_all add: touch_def set_st_def set_wld_def)

lemma resolve_path_item: "resolve_path s p = Some (PItem cid r iid) \<Longrightarrow> vault_of s cid = Some r"
  by (auto simp: resolve_path_def split: option.splits target.splits if_splits)

definition wanted_set :: "(ustr \<times> (ustr \<times> ustr) list \<times> nat) list \<Rightarrow> (ustr \<times> ustr \<times> nat) set" where
  "wanted_set ws = {(p, iid, r). \<exists>c xs. (c, xs, r) \<in> set ws \<and> (p, iid) \<in> set xs}"

definition wanted_ok :: "service_state \<Rightarrow> (ustr \<times> (ustr \<times> ustr) list \<times> nat) list \<Rightarrow> bool" where
  "wanted_ok s ws \<longleftrightarrow> (\<forall>c xs r. (c, xs, r) \<in> set ws \<longrightarrow> vault_of s c = Some r)"

lemma wanted_simps [simp]:
  "wanted_set [] = {}" "wanted_set ((c, xs, r) # ws) = (\<lambda>(p, iid). (p, iid, r)) ` set xs \<union> wanted_set ws"
  "wanted_ok s []" "wanted_ok s ((c, xs, r) # ws) \<longleftrightarrow> vault_of s c = Some r \<and> wanted_ok s ws"
  by (auto simp: wanted_set_def wanted_ok_def)

lemma add_wanted_set:
  assumes "wanted_ok s ws" "vault_of s c = Some r"
  shows "wanted_set (add_wanted c r x ws) = insert (fst x, snd x, r) (wanted_set ws) \<and> wanted_ok s (add_wanted c r x ws)"
  using assms by (induction c r x ws rule: add_wanted.induct) (auto simp: case_prod_unfold)

lemma group_wanted_set:
  "wanted_ok s ws \<Longrightarrow> wanted_set (group_wanted s paths ws)
     = wanted_set ws \<union> {(p, iid, r). p \<in> set paths \<and> (\<exists>cid. resolve_path s p = Some (PItem cid r iid))}"
proof (induction paths arbitrary: ws)
  case (Cons p ps)
  show ?case
  proof (cases "\<exists>cid r iid. resolve_path s p = Some (PItem cid r iid)")
    case True
    then obtain cid r iid where t: "resolve_path s p = Some (PItem cid r iid)" by blast
    from add_wanted_set [OF Cons.prems resolve_path_item [OF t], of "(p, iid)"] Cons.IH [of "add_wanted cid r (p, iid) ws"]
    show ?thesis using t by auto
  next
    case False
    then have "group_wanted s (p # ps) ws = group_wanted s ps ws" by (auto split: option.splits path_target.splits)
    with False Cons show ?thesis by auto
  qed
qed auto

lemma read_wanted_iff:
  "(p, m, ct) \<in> set (read_wanted h ws) \<longleftrightarrow>
     (\<exists>iid r i. (p, iid, r) \<in> wanted_set ws \<and> vault_item (h r) iid = Inr i \<and> m = it_secret i \<and> ct = it_content_type i)"
proof (induction ws)
  case (Cons e ws)
  obtain c xs r where e: "e = (c, xs, r)" by (cases e) auto
  let ?f = "\<lambda>(p, iid). case vault_item (h r) iid of Inr i \<Rightarrow> [(p, it_secret i, it_content_type i)] | Inl _ \<Rightarrow> []"
  have "(p, m, ct) \<in> set (?f x) \<longleftrightarrow> (\<exists>i. p = fst x \<and> vault_item (h r) (snd x) = Inr i \<and> m = it_secret i \<and> ct = it_content_type i)"
    for x by (cases x; cases "vault_item (h r) (snd x)") auto
  then have first: "(p, m, ct) \<in> set (concat (map ?f xs)) \<longleftrightarrow>
      (\<exists>iid i. (p, iid) \<in> set xs \<and> vault_item (h r) iid = Inr i \<and> m = it_secret i \<and> ct = it_content_type i)"
    by (induction xs) auto
  have step: "read_wanted h (e # ws) = concat (map ?f xs) @ read_wanted h ws"
    unfolding read_wanted_def e by simp
  have mem: "(p, iid, r') \<in> wanted_set (e # ws) \<longleftrightarrow> (p, iid) \<in> set xs \<and> r' = r \<or> (p, iid, r') \<in> wanted_set ws" for iid r'
    by (auto simp: e)
  show ?case unfolding step set_append Un_iff first Cons.IH mem by blast
qed (simp add: read_wanted_def)

lemma readable_iff:
  "readable d p = Some i \<longleftrightarrow>
     (\<exists>cid r iid. resolve_path (st d) p = Some (PItem cid r iid) \<and> vault_item (heap d r) iid = Inr i)"
  by (auto simp: readable_def split: option.splits path_target.splits sum.splits)

text \<open>The plan of a batch holds exactly the readable paths among those asked for.\<close>

lemma plan_iff:
  "(p, m, ct) \<in> set (read_wanted (heap d) (group_wanted (st d) paths []))
     \<longleftrightarrow> p \<in> set paths \<and> (\<exists>i. readable d p = Some i \<and> m = it_secret i \<and> ct = it_content_type i)"
proof -
  have "wanted_set (group_wanted (st d) paths [])
      = {(p, iid, r). p \<in> set paths \<and> (\<exists>cid. resolve_path (st d) p = Some (PItem cid r iid))}"
    using group_wanted_set [of "st d" "[]" paths] by auto
  then show ?thesis unfolding read_wanted_iff readable_iff by auto
qed

lemma encrypt_plan_out:
  assumes "session_lib_ok (slib P)" "encrypt_plan P c session plan out d = (Inr out', d')" "bt_sorted out"
  shows "bt_sorted out' \<and> (\<forall>p. case map_of out' p of
      None \<Rightarrow> map_of out p = None \<and> p \<notin> fst ` set plan
    | Some s \<Rightarrow> (map_of out p = Some s \<and> p \<notin> fst ` set plan)
        \<or> (\<exists>m. (p, m, ss_content_type s) \<in> set plan \<and> ss_session s = session
              \<and> decrypt (slib P) c (ss_parameters s) (ss_value s) = Inr m))"
  using assms(2,3)
proof (induction plan arbitrary: out d)
  case Nil
  then show ?case by (auto split: option.splits)
next
  case (Cons e plan)
  obtain p m ct where e: "e = (p, m, ct)" by (cases e) auto
  obtain x w where x: "encrypt (slib P) (os P) c m (wld d) = (x, w)" by fastforce
  with Cons.prems(1) e obtain params v where v: "x = Some (params, v)" by (cases x) auto
  let ?s = "\<lparr>ss_session = session, ss_parameters = params, ss_value = v, ss_content_type = ct\<rparr>"
  have run: "encrypt_plan P c session plan (bt_insert p ?s out) (set_wld w d) = (Inr out', d')"
    using Cons.prems(1) e x v by simp
  note IH = Cons.IH [OF run bt_insert_sorted [OF Cons.prems(2)]]
  have dec: "decrypt (slib P) c params v = Inr m" by (rule encrypt_decrypt [OF assms(1) x [unfolded v]])
  show ?case
  proof (intro conjI allI)
    show "bt_sorted out'" using IH by blast
    fix q
    from IH [THEN conjunct2, rule_format, of q] dec Cons.prems(2)
    show "case map_of out' q of
      None \<Rightarrow> map_of out q = None \<and> q \<notin> fst ` set (e # plan)
    | Some s \<Rightarrow> (map_of out q = Some s \<and> q \<notin> fst ` set (e # plan))
        \<or> (\<exists>m. (q, m, ss_content_type s) \<in> set (e # plan) \<and> ss_session s = session
              \<and> decrypt (slib P) c (ss_parameters s) (ss_value s) = Inr m)"
      by (auto simp: e split: option.splits if_splits)
  qed
qed

text \<open>
  C29: \<open>GetSecrets\<close> is the batch of what reading each path on its own gives: under
  a session of the caller it answers exactly the asked paths that name an item
  of an open collection, each with its secret encrypted under that session, and
  leaves out the others. Grouping by collection loses and mixes up nothing.
\<close>

theorem get_secrets_batch:
  assumes "session_lib_ok (slib P)" "get_secrets P paths session header d = (Inr out, d')"
  shows "\<exists>c. session_of d session header = Some c \<and> (\<forall>p. case map_of out p of
      None \<Rightarrow> p \<notin> set paths \<or> readable d p = None
    | Some s \<Rightarrow> p \<in> set paths \<and> (\<exists>i. readable d p = Some i \<and> ss_session s = session
        \<and> ss_content_type s = it_content_type i
        \<and> decrypt (slib P) c (ss_parameters s) (ss_value s) = Inr (it_secret i)))"
proof -
  from assms(2) obtain who c where c: "require_sender header = Inr who" "cipher_of (st d) session who = Inr c"
    and run: "encrypt_plan P c session (read_wanted (heap (touch P d)) (group_wanted (st (touch P d)) paths [])) [] (touch P d)
      = (Inr out, d')"
    unfolding get_secrets_def by (auto simp: and_then_Inr Let_def split: if_splits)
  have "heap (touch P d) = heap d" by (simp add: touch_def set_st_def set_wld_def)
  moreover have "readable (touch P d) p = readable d p" for p
    unfolding readable_def resolve_path_touch calculation ..
  ultimately have plan: "(p, m, ct) \<in> set (read_wanted (heap (touch P d)) (group_wanted (st (touch P d)) paths []))
     \<longleftrightarrow> p \<in> set paths \<and> (\<exists>i. readable d p = Some i \<and> m = it_secret i \<and> ct = it_content_type i)" for p m ct
    using plan_iff [of p m ct "touch P d" paths] by simp
  have "session_of d session header = Some c" by (rule session_checked [OF c])
  moreover have "case map_of out p of
      None \<Rightarrow> p \<notin> set paths \<or> readable d p = None
    | Some s \<Rightarrow> p \<in> set paths \<and> (\<exists>i. readable d p = Some i \<and> ss_session s = session
        \<and> ss_content_type s = it_content_type i
        \<and> decrypt (slib P) c (ss_parameters s) (ss_value s) = Inr (it_secret i))" for p
  proof (cases "map_of out p")
    case None
    then have "(p, m, ct) \<notin> set (read_wanted (heap (touch P d)) (group_wanted (st (touch P d)) paths []))" for m ct
      using encrypt_plan_out [OF assms(1) run] by (force split: option.splits)
    with None show ?thesis by (cases "readable d p") (auto simp: plan)
  next
    case (Some s)
    with encrypt_plan_out [OF assms(1) run, THEN conjunct2, rule_format, of p] show ?thesis by (auto simp: plan)
  qed
  ultimately show ?thesis by blast
qed

definition demo_item_obj :: ustr where "demo_item_obj = lit ''/org/freedesktop/secrets/collection/a/a''"

lemma demo_resolves:
  "resolve_path (st demo_daemon) demo_item_obj = Some (PItem (lit ''a'') 0 [97])"
  "resolve_path (st demo_daemon) (lit ''/'') = None"
proof -
  have "parse demo_item_obj = Some (TItem (lit ''a'') [97])" "parse (lit ''/'') = None"
    by code_simp+
  then show "resolve_path (st demo_daemon) demo_item_obj = Some (PItem (lit ''a'') 0 [97])"
    "resolve_path (st demo_daemon) (lit ''/'') = None"
    by (simp_all add: resolve_path_def)
qed

lemma demo_read: "vault_item demo_filled [97] = Inr demo_item"
  by (simp add: vault_item_Inr demo_filled_facts) (simp add: demo_item_def)

lemma demo_get_secrets:
  "fst (get_secrets demo_platform [demo_item_obj, lit ''/''] demo_session (Some demo_owner) demo_daemon)
   = Inr [(demo_item_obj, \<lparr>ss_session = demo_session, ss_parameters = map (\<lambda>i. 1 + word_of_nat i) [0..<16],
       ss_value = it_secret demo_item @ replicate 16 0, ss_content_type = it_content_type demo_item\<rparr>)]"
proof -
  have "tick (wld (touch demo_platform demo_daemon)) = 1" by (simp add: touch_def set_st_def set_wld_def next_tick_def demo_disk2_def)
  then have r: "random_bytes demo_env 16 (wld (touch demo_platform demo_daemon))
      = (Some (map (\<lambda>i. 1 + word_of_nat i) [0..<16]), next_tick (wld (touch demo_platform demo_daemon)))"
    by (simp add: random_bytes_def try_random_bytes_def demo_env_def del: upt_Suc upt_rec_numeral)
  have c: "cbc_encrypt demo_slib k iv m = m @ replicate 16 0" for k iv m by (simp add: demo_slib_def)
  have "heap (touch demo_platform demo_daemon) = heap demo_daemon" by (simp add: touch_def set_st_def set_wld_def)
  then have p: "read_wanted (heap (touch demo_platform demo_daemon)) (group_wanted (st (touch demo_platform demo_daemon)) [demo_item_obj, lit ''/''] [])
      = [(demo_item_obj, it_secret demo_item, it_content_type demo_item)]"
    by (simp add: resolve_path_touch demo_resolves read_wanted_def demo_read)
  show ?thesis
    by (simp add: get_secrets_def check_def require_sender_def cipher_of_def Let_def p r c MAX_GET_SECRETS_ITEMS_def
        del: group_wanted.simps)
qed

theorem get_secrets_batch_witness:
  "\<exists>out d'. get_secrets demo_platform [demo_item_obj, lit ''/''] demo_session (Some demo_owner) demo_daemon = (Inr out, d')
     \<and> map_of out (lit ''/'') = None \<and> readable demo_daemon (lit ''/'') = None"
proof -
  obtain out d' where g: "get_secrets demo_platform [demo_item_obj, lit ''/''] demo_session (Some demo_owner) demo_daemon
      = (Inr out, d')" and out: "fst ` set out = {demo_item_obj}"
    using demo_get_secrets by (cases "get_secrets demo_platform [demo_item_obj, lit ''/''] demo_session (Some demo_owner) demo_daemon") auto
  have "lit ''/'' \<noteq> demo_item_obj" by code_simp
  then have n: "map_of out (lit ''/'') = None" using out by (simp add: map_of_eq_None_iff)
  have "session_lib_ok (slib demo_platform)" by (simp add: demo_slib_ok)
  from get_secrets_batch [OF this g] obtain c where all: "\<forall>p. case map_of out p of
      None \<Rightarrow> p \<notin> set [demo_item_obj, lit ''/''] \<or> readable demo_daemon p = None
    | Some s \<Rightarrow> p \<in> set [demo_item_obj, lit ''/''] \<and> (\<exists>i. readable demo_daemon p = Some i \<and> ss_session s = demo_session
        \<and> ss_content_type s = it_content_type i
        \<and> decrypt (slib demo_platform) c (ss_parameters s) (ss_value s) = Inr (it_secret i))" by blast
  from all [rule_format, of "lit ''/''"] n have "readable demo_daemon (lit ''/'') = None" by simp
  with g n show ?thesis by auto
qed

end
