(* ===== verification/Daemon_Roundtrip.thy ===== *)
theory Daemon_Roundtrip
  imports Daemon_Properties Vault_Properties
begin

text \<open>
  Round trips through the daemon: a secret sent to \<open>CreateItem\<close> is the one
  \<open>GetSecret\<close> returns, whichever session reads it, and the two ends of a
  Diffie-Hellman session hold the same cipher.
\<close>

section \<open>Store and read back\<close>

lemma store_secret_Inr:
  assumes "store_secret P c secret edit r d = (Inr x, d')"
  obtains plain where "decrypt (slib P) c (ss_parameters secret) (ss_value secret) = Inr plain"
    "on_vault r (edit plain) d = (Inr x, d')"
  using assms by (auto simp: store_secret_def or_bus_def split: if_splits sum.splits option.splits prod.splits)

lemma register_if_quiet: "quiet d (snd (if b then (Inr (), d) else register_item P cid iid d))"
  by (simp add: quiet)

text \<open>What a successful \<open>CreateItem\<close> went through.\<close>

lemma create_item_Inr:
  assumes "create_item P target properties secret replace header d = (Inr (path, prompt), d')"
  obtains c cid r plain iid d1 label attributes replaced where
    "session_of d (ss_session secret) header = Some c" "collection_id (st d) target = Inr cid"
    "vault_of (st d) cid = Some r" "decrypt (slib P) c (ss_parameters secret) (ss_value secret) = Inr plain"
    "on_vault r (insert_item (lib P) (os P) label attributes plain (ss_content_type secret) replace) d = (Inr (iid, replaced), d1)"
    "item_path cid iid = Some path" "quiet d1 d'"
proof -
  from assms obtain label attributes cid who c r iid replaced d1 where
    cid: "collection_id (st d) target = Inr cid" and who: "require_sender header = Inr who"
    and c: "cipher_of (st d) (ss_session secret) who = Inr c" and r: "vault_of (st d) cid = Some r"
    and st: "store_secret P c secret (\<lambda>plaintext. insert_item (lib P) (os P) label attributes plaintext (ss_content_type secret)
        replace) r d = (Inr (iid, replaced), d1)"
    and rest: "and_then (expect_path (item_path cid iid) (touch P d1)) (\<lambda>path d.
        and_then (if replaced then (Inr (), d) else register_item P cid iid d) (\<lambda>_ d.
          and_then (emit P (if replaced then ItemChanged cid path else ItemCreated cid path) d)
            (\<lambda>_ d. (Inr (path, root_path), d)))) = (Inr (path, prompt), d')"
    unfolding create_item_def Let_def by (auto simp: and_then_Inr split: if_splits option.splits)
  obtain plain where p: "decrypt (slib P) c (ss_parameters secret) (ss_value secret) = Inr plain"
    and o: "on_vault r (insert_item (lib P) (os P) label attributes plain (ss_content_type secret) replace) d
      = (Inr (iid, replaced), d1)"
    by (rule store_secret_Inr [OF st])
  from rest obtain q where q: "item_path cid iid = Some q" "path = q"
    by (auto simp: and_then_Inr expect_path_def split: option.splits)
  have "quiet (touch P d1) (snd (and_then (expect_path (item_path cid iid) (touch P d1)) (\<lambda>path d.
        and_then (if replaced then (Inr (), d) else register_item P cid iid d) (\<lambda>_ d.
          and_then (emit P (if replaced then ItemChanged cid path else ItemCreated cid path) d)
            (\<lambda>_ d. (Inr (path, root_path), d))))))"
    by (intro quiet_and_then quiet_expect_path register_if_quiet quiet_emit) simp
  then have "quiet d1 d'" using quiet_trans [OF quiet_touch] rest by (metis snd_conv)
  with that [OF session_checked [OF who c] cid r p o] q show thesis by simp
qed

lemma quiet_vault_of: "quiet d d' \<Longrightarrow> vault_of (st d') = vault_of (st d) \<and> heap d' = heap d"
  by (simp add: quiet_def same_book_def vault_of_def fun_eq_iff)

lemma on_vault_Inr:
  assumes "on_vault r f d = (x, d')"
  obtains v w where "f (heap d r) (wld d) = (x, v, w)" "heap d' r = v" "st d' = st d"
  using assms by (auto simp: on_vault_def split: prod.splits)

text \<open>Reading an item that is there fails only with the random number generator.\<close>

lemma read_item:
  assumes "session_lib_ok (slib P)" "session_of d session reader = Some c" "vault_of (st d) cid = Some r"
    and "vault_item (heap d r) iid = Inr i"
  shows "case get_secret P cid iid session reader d of
      (Inr s, d2) \<Rightarrow> decrypt (slib P) c (ss_parameters s) (ss_value s) = Inr (it_secret i) \<and> ss_content_type s = it_content_type i
    | (Inl e, d2) \<Rightarrow> e = Panicked"
proof -
  obtain who where "require_sender reader = Inr who" "cipher_of (st d) session who = Inr c"
    using assms(2) by (auto simp: session_of_def require_sender_def cipher_of_def split: option.splits if_splits)
  moreover obtain x w where x: "encrypt (slib P) (os P) c (it_secret i) (wld d) = (x, w)" by fastforce
  ultimately show ?thesis
    using assms(3,4) encrypt_decrypt [OF assms(1), of "os P" c "it_secret i" "wld d"]
    by (cases x) (auto simp: get_secret_def check_def)
qed

text \<open>The ids of an open vault's items are all different, as UUIDs are.\<close>

definition distinct_ids :: "vault \<Rightarrow> bool" where
  "distinct_ids v = (case v_state v of Unlocked _ its \<Rightarrow> distinct (map it_id its) | Locked \<Rightarrow> True)"

lemma find_distinct: "distinct (map f xs) \<Longrightarrow> x \<in> set xs \<Longrightarrow> find (\<lambda>y. f y = f x) xs = Some x"
  by (induction xs) (auto simp: rev_image_eqI)

text \<open>
  C30: What is stored is what is read. After a successful \<open>CreateItem\<close> the item
  named by the returned path exists; any client with any session of its own that
  asks for it then either meets a failing random number generator or gets, under
  its own session, exactly the plaintext and the content type that the creator
  sent under the creator's session.
\<close>

theorem created_item_reads_back:
  assumes "session_lib_ok (slib P)" "lib_correct (lib P)" "daemon_ok P d"
    and "create_item P target properties secret replace header d = (Inr (path, prompt), d1)"
    and "\<And>r. distinct_ids (heap d1 r)"
  shows "\<exists>c cid iid plain. session_of d (ss_session secret) header = Some c
    \<and> decrypt (slib P) c (ss_parameters secret) (ss_value secret) = Inr plain \<and> item_path cid iid = Some path
    \<and> (\<forall>session reader c'. session_of d1 session reader = Some c' \<longrightarrow>
         (case get_secret P cid iid session reader d1 of
            (Inr s, d2) \<Rightarrow> decrypt (slib P) c' (ss_parameters s) (ss_value s) = Inr plain
                \<and> ss_content_type s = ss_content_type secret
          | (Inl e, d2) \<Rightarrow> e = Panicked))"
proof -
  from assms(4) obtain c cid r plain iid d0 label attributes replaced where
    c: "session_of d (ss_session secret) header = Some c" "decrypt (slib P) c (ss_parameters secret) (ss_value secret) = Inr plain"
    and r: "vault_of (st d) cid = Some r"
    and o: "on_vault r (insert_item (lib P) (os P) label attributes plain (ss_content_type secret) replace) d = (Inr (iid, replaced), d0)"
    and p: "item_path cid iid = Some path" and q: "quiet d0 d1"
    by (rule create_item_Inr)
  from o obtain v w where i: "insert_item (lib P) (os P) label attributes plain (ss_content_type secret) replace (heap d r) (wld d)
      = (Inr (iid, replaced), v, w)" and v: "heap d0 r = v" "st d0 = st d" by (rule on_vault_Inr)
  have ok: "vault_ok (lib P) (heap d r) (wld d)"
    using assms(3) vaults_okD(5) [OF _ vault_of_member [OF r]] by (simp add: daemon_ok_def)
  obtain k its x where its: "v_state v = Unlocked k its" and x: "x \<in> set its" "it_id x = iid" "it_secret x = plain"
    "it_content_type x = ss_content_type secret"
    using insert_item_contract [OF assms(2) ok, of "os P" label attributes plain "ss_content_type secret" replace]
      inserted_member unfolding i by fastforce
  note d1 = quiet_vault_of [OF q]
  have item: "vault_item (heap d1 r) iid = Inr x"
    using find_distinct [of it_id its x] assms(5) [of r] its x d1 v by (simp add: distinct_ids_def vault_item_Inr)
  have vo: "vault_of (st d1) cid = Some r" using d1 v r by simp
  have "case get_secret P cid iid session reader d1 of
      (Inr s, d2) \<Rightarrow> decrypt (slib P) c' (ss_parameters s) (ss_value s) = Inr plain \<and> ss_content_type s = ss_content_type secret
    | (Inl e, d2) \<Rightarrow> e = Panicked" if "session_of d1 session reader = Some c'" for session reader c'
    by (rule read_item [OF assms(1) that vo item, unfolded x(3,4)])
  with c p show ?thesis by blast
qed

definition demo_secret :: secret_struct where
  "demo_secret = \<lparr>ss_session = demo_session, ss_parameters = replicate 16 0, ss_value = 5 # replicate 16 0,
     ss_content_type = lit ''u''\<rparr>"

definition demo_properties :: "(ustr \<times> variant) list" where
  "demo_properties = [(LABEL_KEY, VString (lit ''b'')), (ATTRIBUTES_KEY, VDict demo_attrs)]"

lemma lit_a: "lit ''a'' = [97]"
  by (simp add: lit_def)

text \<open>Replacing the item of the example daemon.\<close>

lemma demo_replaces:
  "\<exists>v w k t. insert_item demo_lib demo_env (lit ''b'') demo_attrs [5] (lit ''u'') True demo_filled demo_disk2
     = (Inr ([97], True), v, w)
   \<and> v_state v = Unlocked k [demo_item\<lparr>it_label := lit ''b'', it_secret := [5], it_content_type := lit ''u'', it_modified := t\<rparr>]"
proof -
  have pos: "position (\<lambda>i. it_attributes i = demo_attrs) [demo_item] = Some 0"
    by (simp add: demo_item_def)
  let ?its = "\<lambda>t. [demo_item\<lparr>it_label := lit ''b'', it_secret := [5], it_content_type := lit ''u'', it_modified := t\<rparr>]"
  have ins: "inserted (lit ''b'') demo_attrs [5] (lit ''u'') True t fresh [demo_item] = (?its t, [97], True)" for t fresh
    by (simp add: inserted_def pos) (simp add: demo_item_def)
  have small: "small_item (demo_item\<lparr>it_label := lit ''b'', it_secret := [5], it_content_type := lit ''u'', it_modified := t\<rparr>)" for t
    by (simp add: small_item_def demo_item_def demo_attrs_def lit_def demo_short)
  have "\<exists>x v' w'. insert_item demo_lib demo_env (lit ''b'') demo_attrs [5] (lit ''u'') True demo_filled demo_disk2 = (Inr x, v', w')"
  proof (rule insert_item_works)
    show "within_caps (lit ''b'') demo_attrs (length [5 :: byte]) (lit ''u'')"
      by (simp add: within_caps_def lit_def str_len_def as_bytes_def encode_utf8_def MAX_ITEM_LABEL_def
          demo_attrs_def MAX_ATTRIBUTE_KEY_def MAX_ATTRIBUTE_VALUE_def MAX_ITEM_SECRET_def MAX_ITEM_CONTENT_TYPE_def MAX_ITEM_ATTRIBUTES_def)
    show "\<forall>t n. fits demo_lib demo_filled demo_the_key
        (fst (inserted (lit ''b'') demo_attrs [5] (lit ''u'') True t (new_uuid demo_env n) [demo_item]))"
      unfolding ins fst_conv
      using demo_filled_facts(4-6) vault_okD(5) [OF demo_filled_ok] small
      by (intro allI demo_fits) (simp_all add: demo_short [of 97, folded lit_a])
  qed (simp_all add: demo_filled_facts demo_tidy2)
  then obtain x v w where i: "insert_item demo_lib demo_env (lit ''b'') demo_attrs [5] (lit ''u'') True demo_filled demo_disk2 = (Inr x, v, w)"
    by blast
  from insert_item_contract [OF demo_lib_correct demo_filled_ok2, of demo_env "lit ''b''" demo_attrs "[5]" "lit ''u''" True]
  show ?thesis unfolding i by (auto simp: demo_filled_facts ins)
qed

lemma demo_creates:
  "\<exists>d1. create_item demo_platform (CId (lit ''a'')) demo_properties demo_secret True (Some demo_owner) demo_daemon
     = (Inr (demo_item_obj, root_path), d1) \<and> (\<forall>r. distinct_ids (heap d1 r))
     \<and> sessions (st d1) = sessions (st demo_daemon)"
proof -
  obtain v w k t where i: "insert_item demo_lib demo_env (lit ''b'') demo_attrs [5] (lit ''u'') True demo_filled demo_disk2
     = (Inr ([97], True), v, w)"
   and v: "v_state v = Unlocked k [demo_item\<lparr>it_label := lit ''b'', it_secret := [5], it_content_type := lit ''u'', it_modified := t\<rparr>]"
    using demo_replaces by blast
  have keys: "prop_string demo_properties LABEL_KEY = Inr (Some (lit ''b''))"
    "prop_attributes demo_properties ATTRIBUTES_KEY = Inr demo_attrs"
    "fdo (check_item_label (lit ''b'')) = Inr ()" "fdo (check_content_type (lit ''u'')) = Inr ()"
    by (simp_all add: prop_string_def prop_attributes_def demo_properties_def LABEL_KEY_def ATTRIBUTES_KEY_def lit_def
        demo_attrs_def check_attributes_def cap_check_def refuse_over_def fdo_def check_item_label_def check_content_type_def
        str_len_def as_bytes_def encode_utf8_def MAX_ITEM_LABEL_def MAX_ITEM_CONTENT_TYPE_def
        MAX_ITEM_ATTRIBUTES_def MAX_ATTRIBUTE_KEY_def MAX_ATTRIBUTE_VALUE_def)
  have cid: "collection_id (st demo_daemon) (CId (lit ''a'')) = Inr (lit ''a'')"
    by (simp add: collection_id_def bt_mem_def)
  have dec: "decrypt demo_slib (Aes (replicate 16 7)) (replicate 16 0) (5 # replicate 16 0) = Inr [5]"
    by (simp add: demo_slib_def)
  have path: "item_path (lit ''a'') [97] = Some demo_item_obj" by code_simp
  have locked: "\<not> is_locked demo_filled" by (simp add: is_locked_def demo_filled_facts)
  let ?d0 = "demo_daemon\<lparr>heap := (heap demo_daemon)(0 := v), wld := w\<rparr>"
  have store: "store_secret demo_platform (Aes (replicate 16 7)) demo_secret (\<lambda>plaintext. insert_item (lib demo_platform) (os demo_platform) (lit ''b'')
      demo_attrs plaintext (ss_content_type demo_secret) True) 0 demo_daemon = (Inr ([97], True), ?d0)"
    using dec by (simp add: store_secret_def demo_secret_def locked on_vault_def i or_bus_def cap_check_def MAX_ITEM_SECRET_def)
  have more: "fdo (check_content_type (ss_content_type demo_secret)) = Inr ()" "require_sender (Some demo_owner) = Inr demo_owner"
    "cipher_of (st demo_daemon) (ss_session demo_secret) demo_owner = Inr (Aes (replicate 16 7))"
    "(length (ss_value demo_secret) > MAX_ITEM_CIPHERTEXT) = False" "vault_of (st demo_daemon) (lit ''a'') = Some 0"
    using keys(4) by (simp_all add: demo_secret_def require_sender_def cipher_of_def MAX_ITEM_CIPHERTEXT_def MAX_ITEM_SECRET_def)
  have rest: "\<exists>d1. and_then (expect_path (item_path (lit ''a'') [97]) (touch demo_platform ?d0)) (\<lambda>path d.
        and_then (if True then (Inr (), d) else register_item demo_platform (lit ''a'') [97] d) (\<lambda>_ d.
          and_then (emit demo_platform (if True then ItemChanged (lit ''a'') path else ItemCreated (lit ''a'') path) d)
            (\<lambda>_ d. (Inr (path, root_path), d)))) = (Inr (demo_item_obj, root_path), d1) \<and> heap d1 = heap ?d0
      \<and> sessions (st d1) = sessions (st demo_daemon)"
    by (simp add: path expect_path_def emit_def touch_def set_st_def set_wld_def Let_def)
  have "\<exists>d1. create_item demo_platform (CId (lit ''a'')) demo_properties demo_secret True (Some demo_owner) demo_daemon
     = (Inr (demo_item_obj, root_path), d1) \<and> heap d1 = heap ?d0
      \<and> sessions (st d1) = sessions (st demo_daemon)"
    unfolding create_item_def check_def keys and_then_simps option.case Let_def cid more if_False store prod.case
    by (rule rest)
  with v show ?thesis by (auto simp: distinct_ids_def demo_filled_facts)
qed

theorem created_item_reads_back_witness:
  "\<exists>d1 cid iid. create_item demo_platform (CId (lit ''a'')) demo_properties demo_secret True (Some demo_owner) demo_daemon
      = (Inr (demo_item_obj, root_path), d1) \<and> item_path cid iid = Some demo_item_obj
    \<and> fst (get_secret demo_platform cid iid demo_session (Some demo_owner) d1) \<noteq> Inl NoSuchObject"
proof -
  obtain d1 where c: "create_item demo_platform (CId (lit ''a'')) demo_properties demo_secret True (Some demo_owner) demo_daemon
     = (Inr (demo_item_obj, root_path), d1)" and dis: "\<And>r. distinct_ids (heap d1 r)"
    and same: "sessions (st d1) = sessions (st demo_daemon)"
    using demo_creates by blast
  have "session_lib_ok (slib demo_platform)" "lib_correct (lib demo_platform)"
    by (simp_all add: demo_slib_ok demo_lib_correct)
  from created_item_reads_back [OF this demo_daemon_ok c dis] obtain cid iid plain where
    p: "item_path cid iid = Some demo_item_obj" and g: "\<forall>session reader c'. session_of d1 session reader = Some c' \<longrightarrow>
         (case get_secret demo_platform cid iid session reader d1 of
            (Inr s, d2) \<Rightarrow> decrypt (slib demo_platform) c' (ss_parameters s) (ss_value s) = Inr plain
                \<and> ss_content_type s = ss_content_type demo_secret
          | (Inl e, d2) \<Rightarrow> e = Panicked)" by blast
  from same have "session_of d1 demo_session (Some demo_owner) = Some (Aes (replicate 16 7))" by (simp add: session_of_def)
  from g [rule_format, OF this] have "fst (get_secret demo_platform cid iid demo_session (Some demo_owner) d1) \<noteq> Inl NoSuchObject"
    by (auto split: prod.splits sum.splits)
  with c p show ?thesis by blast
qed

section \<open>Both ends of a session\<close>

lemma from_dh_Inr: "from_dh S pair peer = Inr c \<longleftrightarrow> (\<exists>k. derive_aes_key S pair peer = Inr k \<and> c = Aes k)"
  by (auto simp: from_dh_def split: sum.splits)

lemma new_session_path_sessions: "new_session_path P d = (x, d') \<Longrightarrow> sessions (st d') = sessions (st d)"
  using quiet_new_paths(1) [of d P] by (simp add: quiet_def same_book_def)

text \<open>What a successful \<open>OpenSession\<close> with key agreement leaves behind.\<close>

lemma open_dh_session_Inr:
  assumes "open_session P ALGORITHM_DH (VBytes peer) header d = (Inr (output, path), d')" "bt_sorted (sessions (st d))"
  obtains pair w c where "generate (slib P) (os P) (wld d) = (Some pair, w)" "from_dh (slib P) pair peer = Inr c"
    "output = VBytes (kp_public pair)" "session_of d' path header = Some c"
proof -
  have dh: "ALGORITHM_DH \<noteq> ALGORITHM_PLAIN" by code_simp
  obtain x w where g: "generate (slib P) (os P) (wld d) = (x, w)" by fastforce
  let ?enter = "\<lambda>path who c d. set_st ((st d)\<lparr>sessions := bt_insert path \<lparr>se_owner = who, se_cipher = c\<rparr> (sessions (st d))\<rparr>) d"
  from assms(1) dh g obtain who pair c q d1 where who: "require_sender header = Inr who" and pair: "x = Some pair"
    and c: "from_dh (slib P) pair peer = Inr c" and p: "new_session_path P (set_wld w d) = (Inr q, d1)"
    and e: "(case server_at P q ISession (?enter q who c d1) of
        (Inr _, d2) \<Rightarrow> (Inr (VBytes (kp_public pair), q), d2)
      | (Inl e, d2) \<Rightarrow> (Inl e, set_st ((st d2)\<lparr>sessions := bt_remove q (sessions (st d2))\<rparr>) d2)) = (Inr (output, path), d')"
    unfolding open_session_def Let_def by (auto simp: and_then_Inr split: option.splits sum.splits)
  obtain y d2 where y: "server_at P q ISession (?enter q who c d1) = (y, d2)" by fastforce
  with e have out: "output = VBytes (kp_public pair)" and q: "q = path" and at: "server_at P path ISession (?enter path who c d1) = (y, d')"
    by (auto split: sum.splits)
  have "sessions (st d1) = sessions (st d)" using new_session_path_sessions [OF p] by (simp add: set_wld_def)
  moreover have "sessions (st d') = bt_insert path \<lparr>se_owner = who, se_cipher = c\<rparr> (sessions (st d1))"
    using at quiet_server_at [of "set_st ((st d1)\<lparr>sessions := bt_insert path \<lparr>se_owner = who, se_cipher = c\<rparr>
        (sessions (st d1))\<rparr>) d1" P path ISession] by (simp add: quiet_def same_book_def set_st_def)
  ultimately have "session_of d' path header = Some c"
    using who assms(2) by (auto simp: session_of_def require_sender_def split: option.splits)
  with that g pair c out show thesis by simp
qed

text \<open>
  C31: Both ends of a session hold the same cipher. When a client offers the
  public key of a pair it generated and the daemon accepts, the cipher the client
  derives from the daemon's answer is the one the daemon stored for the returned
  session path, and the session is the caller's.
\<close>

theorem dh_session_agrees:
  assumes "session_lib_ok (slib P)" "daemon_ok P d" "generate (slib P) E w = (Some a, w1)"
    and "open_session P ALGORITHM_DH (VBytes (kp_public a)) header d = (Inr (VBytes theirs, path), d')"
    and "from_dh (slib P) a theirs = Inr c"
  shows "session_of d' path header = Some c"
proof -
  have "bt_sorted (sessions (st d))" using assms(2) by (simp add: daemon_ok_def tables_ok_def)
  from open_dh_session_Inr [OF assms(4) this] obtain b w2 c' where
    b: "generate (slib P) (os P) (wld d) = (Some b, w2)" "from_dh (slib P) b (kp_public a) = Inr c'"
    and o: "VBytes theirs = VBytes (kp_public b)" and s: "session_of d' path header = Some c'" .
  obtain k k' where "derive_aes_key (slib P) a (kp_public b) = Inr k" "c = Aes k"
    "derive_aes_key (slib P) b (kp_public a) = Inr k'" "c' = Aes k'"
    using assms(5) b(2) o by (auto simp: from_dh_Inr)
  with keys_agree [OF assms(1,3) b(1), of k k'] s show ?thesis by simp
qed

definition zero_env :: env where "zero_env = demo_env\<lparr>rng := \<lambda>_. Some (\<lambda>_. 0)\<rparr>"

definition zero_platform :: platform where "zero_platform = demo_platform\<lparr>os := zero_env\<rparr>"

definition zero_pair :: key_pair where "zero_pair = \<lparr>kp_private = 2, kp_public = minimal_be 4\<rparr>"

lemma small_powers: "monty_pow demo_slib 2 2 = 4" "monty_pow demo_slib 4 2 = 16"
proof -
  have "unat (2 :: u1024) = 2" "unat (4 :: u1024) = 4" by simp_all
  then have e: "unat (2 :: u1024) ^ unat (2 :: u1024) = 4" "unat (4 :: u1024) ^ unat (2 :: u1024) = 16"
    by simp_all
  have m: "n mod unat PRIME = n" if "n < 17" for n by (rule mod_less [OF order.strict_trans [OF that PRIME_value(2)]])
  have pow: "monty_pow demo_slib b e = word_of_nat (unat b ^ unat e mod unat PRIME)" for b e by (simp add: demo_slib_def)
  show "monty_pow demo_slib 2 2 = 4" "monty_pow demo_slib 4 2 = 16" unfolding pow e by (subst m; simp)+
qed

lemma zero_generates: "generate demo_slib zero_env w = (Some zero_pair, next_tick w)"
proof -
  have z: "le_value (replicate n 0) = 0" for n by (induction n) simp_all
  have r: "random_bytes zero_env n w = (Some (replicate n 0), next_tick w)" for n
    by (simp add: random_bytes_def try_random_bytes_def zero_env_def map_replicate_const)
  have s: "u1024_from_be_slice (replicate n 0) = 0" for n unfolding u1024_from_be_slice_def rev_replicate z by simp
  have m: "0 mod x + 2 = (2 :: u1024)" for x by simp
  show ?thesis by (simp only: generate_def r prod.case option.case Let_def s m small_powers zero_pair_def)
qed

lemma zero_agrees: "from_dh demo_slib zero_pair (kp_public zero_pair) = Inr (Aes (take 16 (rev (u1024_to_be_bytes 16))))"
proof -
  have pad: "from_be_padded (kp_public zero_pair) = Some 4" by (simp add: zero_pair_def from_be_padded_minimal)
  have k: "kp_private zero_pair = 2" by (simp add: zero_pair_def)
  have "(1 :: u1024) \<le> PRIME" using PRIME_value(2) by (simp add: word_le_nat_alt)
  then have "unat (PRIME - 1) = unat PRIME - 1" by (simp add: unat_sub)
  then have range: "\<not> ((4 :: u1024) \<le> 1 \<or> (4 :: u1024) \<ge> PRIME - 1)" using PRIME_value(2) by (simp add: word_le_nat_alt)
  have h: "hkdf_sha256 demo_slib ikm n = Some (take n (rev ikm))" for ikm n by (simp add: demo_slib_def)
  show ?thesis unfolding from_dh_def derive_aes_key_def pad option.case if_not_P [OF range] Let_def k small_powers h by simp
qed

lemma zero_opens:
  "\<exists>path d'. open_session zero_platform ALGORITHM_DH (VBytes (kp_public zero_pair)) (Some demo_owner) demo_daemon
     = (Inr (VBytes (kp_public zero_pair), path), d')"
proof -
  have dh: "ALGORITHM_DH \<noteq> ALGORITHM_PLAIN" by code_simp
  have quota: "check_session_quota (st d) demo_owner = Inr ()" if "sessions (st d) = sessions (st demo_daemon)" for d
    using that by (simp add: check_session_quota_def session_count_def MAX_SESSIONS_PER_SENDER_def)
  have z: "os zero_platform = zero_env" "slib zero_platform = demo_slib" "at_fault zero_platform t = None" for t
    by (simp_all add: zero_platform_def)
  have at: "\<exists>d'. server_at zero_platform p i d = (Inr (), d')" for p i d
    by (simp add: server_at_def Let_def z)
  have new: "\<exists>p d'. new_session_path zero_platform d = (Inr p, d')" for d
    by (simp add: new_session_path_def random_bytes_def try_random_bytes_def z zero_env_def session_path_total
        expect_path_def Let_def)
  let ?d1 = "set_wld (next_tick demo_disk2) demo_daemon"
  obtain p d2 where p: "new_session_path zero_platform ?d1 = (Inr p, d2)" using new by blast
  obtain d3 where d3: "server_at zero_platform p ISession (set_st ((st d2)\<lparr>sessions := bt_insert p \<lparr>se_owner = demo_owner,
      se_cipher = Aes (take 16 (rev (u1024_to_be_bytes 16)))\<rparr> (sessions (st d2))\<rparr>) d2) = (Inr (), d3)"
    using at by blast
  have "sessions (st ?d1) = sessions (st demo_daemon)" by (simp add: set_wld_def)
  note q = quota [OF refl] quota [OF this]
  show ?thesis using q dh p d3
    by (simp add: open_session_def check_def require_sender_def z zero_generates zero_agrees)
qed

theorem dh_session_agrees_witness:
  "\<exists>path d'. open_session zero_platform ALGORITHM_DH (VBytes (kp_public zero_pair)) (Some demo_owner) demo_daemon
      = (Inr (VBytes (kp_public zero_pair), path), d')
    \<and> session_of d' path (Some demo_owner) = Some (Aes (take 16 (rev (u1024_to_be_bytes 16))))"
proof -
  obtain path d' where o: "open_session zero_platform ALGORITHM_DH (VBytes (kp_public zero_pair)) (Some demo_owner) demo_daemon
     = (Inr (VBytes (kp_public zero_pair), path), d')" using zero_opens by blast
  have "session_lib_ok (slib zero_platform)" "daemon_ok zero_platform demo_daemon"
    using demo_slib_ok demo_daemon_ok by (simp_all add: zero_platform_def daemon_ok_def vaults_ok_def)
  from dh_session_agrees [OF this _ o, of zero_env demo_start] zero_generates [of demo_start] zero_agrees
  have "session_of d' path (Some demo_owner) = Some (Aes (take 16 (rev (u1024_to_be_bytes 16))))"
    by (simp add: zero_platform_def)
  with o show ?thesis by blast
qed

end
