(* ===== verification/Daemon_Locking.thy ===== *)
theory Daemon_Locking
  imports Daemon_Demo
begin

text \<open>
  When collections lock: what a client that leaves the bus leaves behind, the
  idle lock, the control request to lock, and an unlock prompt whose owner is
  gone before it ends.
\<close>

section \<open>A client that left\<close>









lemma locked_lock [simp]: "is_locked (lock v)"
  by (simp add: is_locked_def lock_def)

lemma set_vault_simps [simp]: "st (set_vault r f d) = st d" "heap (set_vault r f d) = (heap d)(r := f (heap d r))"
  by (simp_all add: set_vault_def)

text \<open>Locking the open ones of a list of references.\<close>

definition locked_at :: "nat set \<Rightarrow> daemon \<Rightarrow> daemon \<Rightarrow> bool" where
  "locked_at R d d' \<longleftrightarrow> same_book (st d) (st d')
     \<and> (\<forall>r. heap d' r = (if r \<in> R \<and> \<not> is_locked (heap d r) then lock (heap d r) else heap d r))"

lemma locked_at_refl: "locked_at {} d d"
  by (simp add: locked_at_def same_book_def)

lemma locked_at_one: "locked_at {r} d (if is_locked (heap d r) then d else set_vault r lock d)"
  by (simp add: locked_at_def same_book_def)

lemma locked_at_trans: "locked_at R d d1 \<Longrightarrow> locked_at R' d1 d2 \<Longrightarrow> locked_at (R \<union> R') d d2"
  by (auto simp: locked_at_def same_book_def)

lemma locked_at_quiet: "locked_at R d d1 \<Longrightarrow> quiet d1 d2 \<Longrightarrow> locked_at R d d2"
  by (auto simp: locked_at_def quiet_def same_book_def)






section \<open>Inactivity\<close>

lemma idle_lock_vaults_effect:
  "distinct (map snd vs) \<Longrightarrow> st (snd (idle_lock_vaults vs ids d)) = st d
     \<and> heap (snd (idle_lock_vaults vs ids d)) r =
         (if r \<in> snd ` set vs \<and> \<not> pinned (heap d r) \<and> \<not> is_locked (heap d r) then lock (heap d r) else heap d r)"
  by (induction vs ids d rule: idle_lock_vaults.induct) (auto simp: image_iff)

lemma loaded_refs_distinct:
  assumes "daemon_ok P d"
  shows "distinct (map snd (collections (st d)))"
proof -
  have v: "vaults_ok P d" and "bt_sorted (collections (st d))" using assms by (simp_all add: daemon_ok_def tables_ok_def)
  then have "distinct (collections (st d))" using bt_sorted_distinct [of "collections (st d)"] by (simp add: distinct_map)
  moreover have "inj_on snd (set (collections (st d)))"
  proof (rule inj_onI)
    fix x y
    assume xy: "x \<in> set (collections (st d))" "y \<in> set (collections (st d))" "snd x = snd y"
    obtain a b r where "x = (a, r)" "y = (b, r)" using xy(3) by (cases x; cases y) auto
    with xy vaults_okD(3) [OF v, of a r] vaults_okD(3) [OF v, of b r] show "x = y" by simp
  qed
  ultimately show ?thesis by (simp add: distinct_map)
qed

lemma loaded_iff:
  assumes "daemon_ok P d"
  shows "r \<in> snd ` set (collections (st d)) \<longleftrightarrow> (\<exists>cid. vault_of (st d) cid = Some r)"
  using assms by (force simp: vault_of_def daemon_ok_def tables_ok_def map_of_bt_sorted)

text \<open>
  C34: A tick of the idle lock. Once nothing has touched the daemon for the
  configured time, every loaded collection that is open is locked, except the
  ones that were unlocked to stay open; before that, and for every other vault,
  nothing changes.
\<close>

theorem idle_lock_spares_pinned:
  assumes "daemon_ok P d"
  shows "same_book (st d) (st (idle_lock P after d)) \<and> (\<forall>r. heap (idle_lock P after d) r =
    (if after \<le> instant P (tick (wld d)) - last_activity (st d) \<and> (\<exists>cid. vault_of (st d) cid = Some r)
        \<and> \<not> pinned (heap d r) \<and> \<not> is_locked (heap d r)
     then lock (heap d r) else heap d r))"
proof -
  let ?d1 = "set_wld (next_tick (wld d)) d"
  have d1: "st ?d1 = st d" "heap ?d1 = heap d" by (simp_all add: set_wld_def)
  obtain ids d2 where i: "idle_lock_vaults (collections (st d)) [] ?d1 = (ids, d2)" by fastforce
  have q: "quiet d2 (fold (notify_collection_changed P) ids d2)" by (rule notify_each_quiet)
  have e: "st d2 = st d" "heap d2 r = (if r \<in> snd ` set (collections (st d)) \<and> \<not> pinned (heap d r) \<and> \<not> is_locked (heap d r)
      then lock (heap d r) else heap d r)" for r
    using idle_lock_vaults_effect [OF loaded_refs_distinct [OF assms], of "[]" ?d1] i by (simp_all add: d1)
  have run: "idle_lock P after d = (if instant P (tick (wld d)) - last_activity (st d) < after then ?d1
      else fold (notify_collection_changed P) ids d2)"
    by (simp add: idle_lock_def Let_def d1 all_vaults_def i)
  show ?thesis
    using q by (auto simp: run d1 e quiet_def same_book_def loaded_iff [OF assms])
qed

lemma demo_unpinned: "\<not> is_locked demo_filled"
  by (simp add: is_locked_def demo_filled_facts)

theorem idle_lock_spares_pinned_witness:
  "is_locked (heap (idle_lock demo_platform 0 demo_daemon) 0) \<longleftrightarrow> \<not> pinned demo_filled"
  using idle_lock_spares_pinned [OF demo_daemon_ok, of 0] by (auto simp: demo_unpinned)

section \<open>The control request\<close>

lemma lock_targets_locks:
  "lock_targets ts changed missing d = ((changed', missing'), d') \<Longrightarrow>
     locked_at {r. \<exists>cid. (cid, Some r) \<in> set ts} d d'
     \<and> (missing' = None \<longleftrightarrow> missing = None \<and> None \<notin> snd ` set ts)"
proof (induction ts changed missing d rule: lock_targets.induct)
  case (1 changed missing d)
  then show ?case using locked_at_refl by simp
next
  case (2 cid r ts changed missing d)
  let ?d1 = "if is_locked (heap d r) then d else set_vault r lock d"
  have "lock_targets ts (if is_locked (heap d r) then changed else changed @ [cid]) missing ?d1 = ((changed', missing'), d')"
    using 2(3) by (simp split: if_splits)
  with 2 have "locked_at {r. \<exists>cid. (cid, Some r) \<in> set ts} ?d1 d' \<and> (missing' = None \<longleftrightarrow> missing = None \<and> None \<notin> snd ` set ts)"
    by (cases "is_locked (heap d r)") simp_all
  moreover have "{q. \<exists>c. (c, Some q) \<in> set ((cid, Some r) # ts)} = {r} \<union> {q. \<exists>c. (c, Some q) \<in> set ts}" by auto
  ultimately show ?case using locked_at_trans [OF locked_at_one [of r d]] by simp
next
  case (3 cid ts changed missing d)
  then show ?case by simp
qed

text \<open>
  C35: The control request to lock. It locks the named collection, or every
  loaded one when none is named, and touches no other vault; it reports an error
  exactly when a collection was named that is not loaded.
\<close>

theorem control_lock_locks:
  assumes "daemon_ok P d" "control_lock P collection d = (resp, d')"
  shows "same_book (st d) (st d') \<and> (\<forall>r. heap d' r =
      (if (\<exists>cid. vault_of (st d) cid = Some r \<and> (collection = None \<or> collection = Some cid)) \<and> \<not> is_locked (heap d r)
       then lock (heap d r) else heap d r))
    \<and> (resp = ROk \<longleftrightarrow> (\<forall>cid. collection = Some cid \<longrightarrow> vault_of (st d) cid \<noteq> None))"
proof -
  let ?ts = "case collection of Some c \<Rightarrow> [(c, vault_of (st d) c)] | None \<Rightarrow> map (\<lambda>(c, r). (c, Some r)) (all_vaults (st d))"
  obtain changed missing d1 where l: "lock_targets ?ts [] None d = ((changed, missing), d1)"
    by (cases "lock_targets ?ts [] None d") auto
  have run: "resp = (case missing of Some cid \<Rightarrow> RError (no_collection cid) | None \<Rightarrow> ROk)"
    "d' = fold (notify_collection_changed P) changed d1"
    using assms(2) unfolding control_lock_def Let_def l by simp_all
  note t = lock_targets_locks [OF l]
  have refs: "{r. \<exists>cid. (cid, Some r) \<in> set ?ts} = {r. \<exists>cid. vault_of (st d) cid = Some r \<and> (collection = None \<or> collection = Some cid)}"
  proof (cases collection)
    case None
    have "(\<exists>cid. (cid, Some r) \<in> (\<lambda>(c, r). (c, Some r)) ` set (collections (st d))) \<longleftrightarrow> r \<in> snd ` set (collections (st d))" for r
      by force
    with None show ?thesis by (simp add: all_vaults_def loaded_iff [OF assms(1)])
  qed auto
  have "locked_at {r. \<exists>cid. vault_of (st d) cid = Some r \<and> (collection = None \<or> collection = Some cid)} d d'"
    using locked_at_quiet [OF conjunct1 [OF t] notify_each_quiet] unfolding refs run(2) .
  moreover have "resp = ROk \<longleftrightarrow> missing = None" unfolding run(1) by (cases missing) simp_all
  moreover have "None \<notin> snd ` set ?ts \<longleftrightarrow> (\<forall>cid. collection = Some cid \<longrightarrow> vault_of (st d) cid \<noteq> None)"
    by (cases collection; cases "vault_of (st d) (the collection)") auto
  ultimately show ?thesis using t by (simp add: locked_at_def)
qed

theorem control_lock_locks_witness:
  "is_locked (heap (snd (control_lock demo_platform None demo_daemon)) 0)"
  using control_lock_locks [OF demo_daemon_ok surjective_pairing, of None] by (auto simp: demo_unpinned)

section \<open>An unlock prompt\<close>






end
