(* ===== verification/Daemon_Edges.thy ===== *)
theory Daemon_Edges
  imports Daemon_Properties
begin

text \<open>
  Corners of the daemon: finding a free collection id always ends, and three
  runs in which the code does not do what its comments intend: a vault header
  with an odd item id, a delete that outlives its collection, and a rescan that
  races with a collection just created.
\<close>

section \<open>Free ids\<close>


section \<open>An item id that is not a path segment\<close>

lemma server_at_works: "\<forall>t. at_fault P t = None \<Longrightarrow> \<exists>d'. server_at P p i d = (Inr (), d') \<and> st d' = st d \<and> heap d' = heap d"
  by (simp add: server_at_def Let_def set_wld_def)

lemma register_items_panics:
  assumes "\<forall>t. at_fault P t = None" "iid \<in> set iids" "item_path cid iid = None"
  shows "fst (register_items P cid iids d) = Inl Panicked"
  using assms(2)
proof (induction iids arbitrary: d)
  case (Cons i iids)
  show ?case
  proof (cases "item_path cid i")
    case None
    then show ?thesis by (simp add: expect_path_def)
  next
    case (Some p)
    with Cons assms(3) have "iid \<in> set iids" by auto
    moreover obtain d' where "server_at P p (IItem cid i) d = (Inr (), d')" using server_at_works [OF assms(1)] by blast
    ultimately show ?thesis using Cons.IH Some by (simp add: expect_path_def)
  qed
qed simp

text \<open>
  An item id in a vault's header that does not make an object path ends the
  daemon's export of that collection with a panic, at the start and at every
  reload: the header is read before its vault can be authenticated, nothing
  checks the ids in it, and the path constructor expects them to be valid.
\<close>

theorem bad_item_id_panics:
  assumes "vault_of (st d) cid = Some r" "is_segment cid" "iid \<in> set (item_ids (heap d r))" "item_path cid iid = None"
    and "\<forall>t. at_fault P t = None"
  shows "fst (register_collection P cid d) = Inl Panicked"
proof -
  obtain p where p: "collection_path cid = Some p"
    using assms(2) by (simp add: collection_path_segment)
  obtain d1 where d1: "server_at P p (ICollection (CId cid)) d = (Inr (), d1)" "st d1 = st d" "heap d1 = heap d"
    using server_at_works [OF assms(5)] by blast
  obtain d2 where d2: "server_at P p (ICollectionAdmin (CId cid)) d1 = (Inr (), d2)" "st d2 = st d1" "heap d2 = heap d1"
    using server_at_works [OF assms(5)] by blast
  show ?thesis
    using register_items_panics [OF assms(5,3,4), of d2] assms(1) d1 d2 p
    by (simp add: register_collection_def expect_path_def)
qed

definition odd_vault :: vault where
  "odd_vault = demo_filled\<lparr>v_header := (v_header demo_filled)\<lparr>h_index := [\<lparr>ie_id = lit ''x-y'', attr_hashes = []\<rparr>]\<rparr>\<rparr>"

lemma bad_item_id_panics_example:
  "fst (register_collection demo_platform (lit ''a'') (demo_daemon\<lparr>heap := \<lambda>_. odd_vault\<rparr>)) = Inl Panicked"
proof (rule bad_item_id_panics)
  show "item_path (lit ''a'') (lit ''x-y'') = None" by code_simp
  show "lit ''x-y'' \<in> set (item_ids (heap (demo_daemon\<lparr>heap := \<lambda>_. odd_vault\<rparr>) 0))"
    by (simp add: item_ids_def odd_vault_def)
qed (simp_all add: demo_segment)

section \<open>A delete that outlives its collection\<close>

text \<open>
  The reference a delete prompt took before its dialog is not checked again
  after it. If the collection was meanwhile deleted through another prompt and a
  new one created under the same id, confirming the old dialog unlinks the new
  collection's file and drops the new collection, which nobody was asked about.
\<close>

theorem stale_delete_drops_new_collection:
  assumes "vault_of (st d) cid = Some new" "old \<noteq> new" "v_path (heap d old) = v_path (heap d new)"
    and "\<not> is_locked (heap d old)" "\<forall>t. fault (os P) t = None" "content (wld d) (v_path (heap d new)) \<noteq> None"
    and "v_path (heap d new) = vault_file_path (vault_dir (st d)) cid"
  shows "vault_of (st (snd (delete_confirmed P cid old d))) cid = None
    \<and> content (wld (snd (delete_confirmed P cid old d))) (v_path (heap d new)) = None"
proof -
  let ?p = "vault_file_path (vault_dir (st d)) cid"
  obtain x w where u: "sys_unlink (os P) ?p (wld d) = (x, w)" by fastforce
  have "map_of (fs (wld d)) ?p \<noteq> None" using assms(6) unfolding assms(7) by (auto simp: content_def)
  then have x: "x = Inr ()" using u assms(5) by (auto simp: sys_unlink_def)
  then have "map_of (fs w) ?p = None" using sys_unlink_Inr u by blast
  then have c: "content w ?p = None" by (simp add: content_def)
  have "remove_file P (v_path (heap d old)) (set_vault old retire d) = (True, set_wld w (set_vault old retire d))"
    using u x by (simp add: remove_file_def assms(3,7) set_vault_def)
  note q = delete_confirmed_done [OF assms(4) this, of cid]
  have "vault_of (st (snd (delete_confirmed P cid old d))) cid = None"
    using q by (simp add: quiet_def same_book_def vault_of_def set_st_def)
  moreover have "content (wld (snd (delete_confirmed P cid old d))) ?p = None"
    using q c by (simp add: quiet_def same_files_def set_st_def set_wld_def set_vault_def)
  ultimately show ?thesis unfolding assms(7) by blast
qed

definition reborn_daemon :: daemon where
  "reborn_daemon = demo_daemon\<lparr>heap := (\<lambda>r. if r = 1 then retire demo_filled else demo_filled), next_ref := 2\<rparr>"

lemma stale_delete_drops_new_collection_example:
  "vault_of (st reborn_daemon) (lit ''a'') = Some 0
   \<and> vault_of (st (snd (delete_confirmed demo_platform (lit ''a'') 1 reborn_daemon))) (lit ''a'') = None"
proof -
  have "content demo_disk2 demo_path \<noteq> None" by (simp add: demo_disk2_def content_def)
  then show ?thesis
    using stale_delete_drops_new_collection [of reborn_daemon "lit ''a''" 0 1 demo_platform]
    by (simp add: reborn_daemon_def demo_filled_facts retire_def is_locked_def demo_file)
qed

section \<open>A rescan that races\<close>

text \<open>
  A rescan forgets work done meanwhile. The merge of a scan puts the vault it
  opened before in place of one that was loaded since, even when that one has
  been written to: afterwards the collection in memory is the older state, its
  file the newer one, and the daemon's invariant is broken; the next save writes
  the older state over the newer file.
\<close>

theorem rescan_forgets_newer_vault:
  assumes "sc_opened scan = [(cid, v)]" "sc_broken scan = []" "bt_sorted (collections (st d))"
    and "vault_of (st d) cid = Some r" "content (wld d) (v_path v) = Some (on_disk (heap d r))"
    and "on_disk v \<noteq> on_disk (heap d r)" "\<not> retired v"
  shows "\<exists>r'. vault_of (st (snd (merge_scan scan d))) cid = Some r' \<and> heap (snd (merge_scan scan d)) r' = v
    \<and> content (wld (snd (merge_scan scan d))) (v_path v) = Some (on_disk (heap d r))
    \<and> \<not> daemon_ok P (snd (merge_scan scan d))"
proof -
  let ?d = "snd (merge_scan scan d)"
  have d: "vault_of (st ?d) cid = Some (next_ref d)" "heap ?d (next_ref d) = v" "wld ?d = wld d"
    using assms(1-3) by (simp_all add: merge_scan_def vault_ref_def Let_def set_st_def vault_of_def)
  have "\<not> vault_ok (lib P) v (wld ?d)" using vault_okD(3) [of "lib P" v "wld ?d"] assms(5-7) d(3) by auto
  then have "\<not> vaults_ok P ?d" using vaults_okD(5) [OF _ vault_of_member [OF d(1)], of P] d(2) by auto
  with d assms(5) show ?thesis by (simp add: daemon_ok_def)
qed

lemma demo_states_differ: "on_disk demo_vault \<noteq> on_disk demo_filled"
proof
  assume e: "on_disk demo_vault = on_disk demo_filled"
  have "unseals demo_lib demo_vault demo_the_key []" "unseals demo_lib demo_filled demo_the_key [demo_item]"
    using vault_okD(6) [OF demo_vault_ok] vault_okD(6) [OF demo_filled_ok] by (simp_all add: demo_unlocked demo_filled_facts)
  moreover have "unseals demo_lib demo_vault k its = unseals demo_lib demo_filled k its" for k its
    using demo_vault_ok demo_filled_ok e by (simp add: vault_ok_def unseals_def)
  ultimately show False using unseals_det by fastforce
qed

definition stale_scan :: vault_scan where
  "stale_scan = \<lparr>sc_opened = [(lit ''a'', demo_vault)], sc_broken = [], sc_aliases = Inr [], sc_seen = [lit ''a'']\<rparr>"

lemma rescan_forgets_newer_vault_example:
  "daemon_ok demo_platform demo_daemon \<and> \<not> daemon_ok demo_platform (snd (merge_scan stale_scan demo_daemon))"
proof -
  have "content demo_disk2 demo_path = Some (on_disk demo_filled)" by (simp add: demo_disk2_def content_def)
  then have "\<exists>r'. vault_of (st (snd (merge_scan stale_scan demo_daemon))) (lit ''a'') = Some r'
      \<and> heap (snd (merge_scan stale_scan demo_daemon)) r' = demo_vault
      \<and> content (wld (snd (merge_scan stale_scan demo_daemon))) (v_path demo_vault) = Some (on_disk (heap demo_daemon 0))
      \<and> \<not> daemon_ok demo_platform (snd (merge_scan stale_scan demo_daemon))"
    using demo_states_differ demo_created
    by (intro rescan_forgets_newer_vault) (simp_all add: stale_scan_def bt_sorted_def)
  with demo_daemon_ok show ?thesis by blast
qed

end
