(* ===== verification/Spec2Isabelle.thy ===== *)
theory Spec2Isabelle
  imports Vault_Properties Protocol_Properties Daemon_Roundtrip Daemon_Locking Daemon_Edges
begin

text \<open>
  A verification development of the secret manager: a Secret Service daemon that
  keeps collections of secrets in encrypted vault files.
\<close>

end
